(* ===== verification/Prelude.thy ===== *)
theory Prelude
  imports Main "HOL-Library.Word"
begin

text \<open>
  The vocabulary shared by the components of the R2000 driver: the machine integers of the C++
  sources as words, the ways a call can fail, and the reading of bytes through an iterator.

  An iterator over a byte vector is its offset (a natural number) from the start of the vector; the
  end iterator is the length of the vector. C++ leaves a read outside the vector undefined, so
  \<open>read_at\<close> makes it the fault \<open>Undefined_Behaviour\<close>: a theorem that a call returns
  \<open>Inr\<close> therefore says, among other things, that it never reads out of bounds. A thrown exception
  is the other kind of fault, with the class of the exception as its constructor.
\<close>

section \<open>Types\<close>

unbundle bit_operations_syntax

type_synonym byte = "8 word"
type_synonym u16 = "16 word"
type_synonym u32 = "32 word"
type_synonym u64 = "64 word"

text \<open>\<open>std::int32_t\<close> has the same 32 bits; its value is \<open>sint\<close> of the word.\<close>

type_synonym i32 = "32 word"

datatype fault =
    Undefined_Behaviour
  | Runtime_Error string
  | Not_Implemented string
  | Invalid_Argument
  | Out_Of_Range
  | Builder_Error string
  | Bad_Any_Cast
  | Ptree_Bad_Path string
  | Ptree_Bad_Data string
  | Invalid_Address string
  | System_Error string
  | Json_Parser_Error string

type_synonym 'a result = "fault + 'a"

text \<open>The error codes that the completion handlers of the network operations tell apart.\<close>

datatype error_code = No_Error | Operation_Aborted | Network_Error

section \<open>Sequencing of fallible calls\<close>

named_theorems result_simps \<open>how sequenced fallible calls compute\<close>
named_theorems width_simps \<open>lengths and positions of encoded fields\<close>

definition bind_result :: "'a result \<Rightarrow> ('a \<Rightarrow> 'b result) \<Rightarrow> 'b result" where
  "bind_result r f = (case r of Inl e \<Rightarrow> Inl e | Inr x \<Rightarrow> f x)"

lemma bind_result_Inl [simp, result_simps]: "bind_result (Inl e) f = Inl e"
  by (simp add: bind_result_def)

lemma bind_result_Inr [simp, result_simps]: "bind_result (Inr x) f = f x"
  by (simp add: bind_result_def)

lemma bind_result_eq_Inr_iff [result_simps]:
  "bind_result r f = Inr y \<longleftrightarrow> (\<exists>x. r = Inr x \<and> f x = Inr y)"
  by (cases r) auto

lemma bind_result_eq_Inl_iff:
  "bind_result r f = Inl e \<longleftrightarrow> r = Inl e \<or> (\<exists>x. r = Inr x \<and> f x = Inl e)"
  by (cases r) auto

lemma bind_result_split:
  "P (bind_result r f) \<longleftrightarrow> (\<forall>e. r = Inl e \<longrightarrow> P (Inl e)) \<and> (\<forall>x. r = Inr x \<longrightarrow> P (f x))"
  by (cases r) auto

lemma bind_result_assoc: "bind_result (bind_result r f) g = bind_result r (\<lambda>x. bind_result (f x) g)"
  by (cases r) auto

lemma bind_result_cong [fundef_cong]:
  assumes "r = r'" and "\<And>x. r' = Inr x \<Longrightarrow> f x = f' x"
  shows "bind_result r f = bind_result r' f'"
  using assms by (cases r') auto

text \<open>A loop whose body may fail.\<close>

fun fold_result :: "('a \<Rightarrow> 's \<Rightarrow> 's result) \<Rightarrow> 'a list \<Rightarrow> 's \<Rightarrow> 's result" where
  "fold_result f [] s = Inr s"
| "fold_result f (x # xs) s = bind_result (f x s) (fold_result f xs)"

lemma fold_result_pure:
  "(\<And>x s. x \<in> set xs \<Longrightarrow> f x s = Inr (g x s)) \<Longrightarrow> fold_result f xs s = Inr (fold g xs s)"
  by (induction xs arbitrary: s) simp_all

abbreviation returns :: "'a result \<Rightarrow> bool" where
  "returns r \<equiv> \<exists>x. r = Inr x"

lemma not_returns_iff: "\<not> returns r \<longleftrightarrow> (\<exists>e. r = Inl e)"
  by (cases r) auto

section \<open>Reading through an iterator\<close>

definition read_at :: "byte list \<Rightarrow> nat \<Rightarrow> byte result" where
  "read_at buf i = (if i < length buf then Inr (buf ! i) else Inl Undefined_Behaviour)"

lemma read_at_in_range [simp]: "i < length buf \<Longrightarrow> read_at buf i = Inr (buf ! i)"
  by (simp add: read_at_def)

lemma read_at_out_of_range [simp]: "length buf \<le> i \<Longrightarrow> read_at buf i = Inl Undefined_Behaviour"
  by (simp add: read_at_def)

lemma read_at_eq_Inr_iff: "read_at buf i = Inr b \<longleftrightarrow> i < length buf \<and> b = buf ! i"
  by (auto simp: read_at_def)

lemma read_at_Inl: "read_at buf i = Inl e \<Longrightarrow> e = Undefined_Behaviour"
  by (auto simp: read_at_def split: if_splits)

section \<open>Lists\<close>

lemma nth_of_drop_eq_append:
  assumes "drop pos buf = xs @ ys" and "i < length xs"
  shows "buf ! (pos + i) = xs ! i" and "pos + i < length buf"
proof -
  have len: "length buf - pos = length xs + length ys"
    using assms(1) by (metis length_append length_drop)
  then show "pos + i < length buf" using assms(2) by linarith
  then have "buf ! (pos + i) = drop pos buf ! i" by simp
  then show "buf ! (pos + i) = xs ! i" using assms by (simp add: nth_append)
qed

lemma find_eq_Some_append:
  "find P xs = Some x \<longleftrightarrow> (\<exists>ys zs. xs = ys @ x # zs \<and> P x \<and> (\<forall>y \<in> set ys. \<not> P y))"
proof
  assume "find P xs = Some x"
  then obtain i where i: "i < length xs" "P x" "x = xs ! i" "\<forall>j<i. \<not> P (xs ! j)"
    by (auto simp: find_Some_iff)
  then have "xs = take i xs @ x # drop (Suc i) xs" "\<forall>y \<in> set (take i xs). \<not> P y"
    by (auto simp: id_take_nth_drop in_set_conv_nth)
  with i(2) show "\<exists>ys zs. xs = ys @ x # zs \<and> P x \<and> (\<forall>y \<in> set ys. \<not> P y)" by blast
next
  assume "\<exists>ys zs. xs = ys @ x # zs \<and> P x \<and> (\<forall>y \<in> set ys. \<not> P y)"
  then obtain ys zs where "xs = ys @ x # zs" "P x" "\<forall>y \<in> set ys. \<not> P y" by blast
  then show "find P xs = Some x" by (induction ys arbitrary: xs) auto
qed

lemma drop_advance: "drop pos buf = xs @ ys \<Longrightarrow> drop (pos + length xs) buf = ys"
  by (metis add.commute append_eq_conv_conj drop_drop)

lemma drop_advance_eq:
  "drop pos buf = xs @ ys \<Longrightarrow> n = length xs \<Longrightarrow> drop (pos + n) buf = ys"
  by (simp add: drop_advance)

section \<open>Words\<close>

lemma bit_push_ucast:
  fixes b :: byte
  shows "bit (push_bit k (ucast b :: 'a::len word)) n
     \<longleftrightarrow> n < LENGTH('a) \<and> k \<le> n \<and> n < k + 8 \<and> bit b (n - k)"
  by (auto simp: bit_simps dest: bit_imp_le_length)

lemma bit_ucast_byte:
  fixes b :: byte
  shows "bit (ucast b :: 'a::len word) n \<longleftrightarrow> n < LENGTH('a) \<and> n < 8 \<and> bit b n"
  by (auto simp: bit_simps dest: bit_imp_le_length)

lemma unat_eq_of_nat: "n < 2 ^ LENGTH('a) \<Longrightarrow> unat (of_nat n :: 'a::len word) = n"
  by (simp add: unat_of_nat take_bit_nat_eq_self)

text \<open>Integral promotion and widening keep the value.\<close>

lemma unat_ucast_up:
  "LENGTH('a::len) \<le> LENGTH('b::len) \<Longrightarrow> unat (ucast (a :: 'a word) :: 'b word) = unat a"
  by transfer simp

lemma ucast_up_eq_iff:
  fixes a b :: "'a::len word"
  assumes "LENGTH('a) \<le> LENGTH('b::len)"
  shows "(ucast a :: 'b word) = ucast b \<longleftrightarrow> a = b"
  by (metis assms unat_ucast_up word_unat_eq_iff)

lemma take_bit_eq_self_if_less:
  fixes w :: "'a::len word"
  assumes "unat w < 2 ^ n"
  shows "take_bit n w = w"
  using assms by (simp add: word_unat_eq_iff unsigned_take_bit_eq take_bit_nat_eq_self)

lemma bit_less_exp:
  fixes w :: "'a::len word"
  assumes "unat w < 2 ^ n" and "bit w k"
  shows "k < n"
  using assms take_bit_eq_self_if_less bit_take_bit_iff by metis

text \<open>\<open>std::distance(position, end)\<close>, converted to an unsigned type.\<close>

definition distance_to_end :: "byte list \<Rightarrow> nat \<Rightarrow> 'a::len word" where
  "distance_to_end buf position = word_of_int (int (length buf) - int position)"

lemma unat_distance_to_end:
  assumes "position \<le> length buf" and "length buf < 2 ^ LENGTH('a::len)"
  shows "unat (distance_to_end buf position :: 'a word) = length buf - position"
proof -
  have eq: "int (length buf) - int position = int (length buf - position)"
    using assms(1) by simp
  have "(distance_to_end buf position :: 'a word) = of_nat (length buf - position)"
    unfolding distance_to_end_def eq by simp
  then show ?thesis using assms(2) by (simp only:) (rule unat_eq_of_nat, simp)
qed

lemma find_append_skip: "\<forall>x \<in> set xs. \<not> P x \<Longrightarrow> find P (xs @ ys) = find P ys"
  by (induction xs) simp_all

end
