(* ===== verification/Wire_Data.thy ===== *)
theory Wire_Data
  imports Prelude
begin

text \<open>
  The data model of a scan packet (\<open>include/DataLink/Data.hpp\<close>): the little-endian interpretation of a
  byte range, the packet header and the scan.
\<close>

section \<open>Little-endian integers\<close>

definition u16_of :: "byte \<Rightarrow> byte \<Rightarrow> u16" where
  "u16_of b0 b1 = ucast b0 OR push_bit 8 (ucast b1)"

definition u32_of :: "byte \<Rightarrow> byte \<Rightarrow> byte \<Rightarrow> byte \<Rightarrow> u32" where
  "u32_of b0 b1 b2 b3 =
     ucast b0 OR push_bit 8 (ucast b1) OR push_bit 16 (ucast b2) OR push_bit 24 (ucast b3)"

definition u64_of :: "byte \<Rightarrow> byte \<Rightarrow> byte \<Rightarrow> byte \<Rightarrow> byte \<Rightarrow> byte \<Rightarrow> byte \<Rightarrow> byte \<Rightarrow> u64" where
  "u64_of b0 b1 b2 b3 b4 b5 b6 b7 =
     ucast b0 OR push_bit 8 (ucast b1) OR push_bit 16 (ucast b2) OR push_bit 24 (ucast b3) OR
     push_bit 32 (ucast b4) OR push_bit 40 (ucast b5) OR push_bit 48 (ucast b6) OR
     push_bit 56 (ucast b7)"

text \<open>
  The specialisations of \<open>InterpretLittleEndianByteRange\<close>: the value at the position, and the
  position, moved past the value when the template argument \<open>Advance\<close> is true.
\<close>

definition interpret_u16 :: "bool \<Rightarrow> byte list \<Rightarrow> nat \<Rightarrow> (u16 \<times> nat) result" where
  "interpret_u16 advance buf position =
     bind_result (read_at buf position) (\<lambda>b0.
     bind_result (read_at buf (position + 1)) (\<lambda>b1.
     Inr (u16_of b0 b1, if advance then position + 2 else position)))"

definition interpret_u32 :: "bool \<Rightarrow> byte list \<Rightarrow> nat \<Rightarrow> (u32 \<times> nat) result" where
  "interpret_u32 advance buf position =
     bind_result (read_at buf position) (\<lambda>b0.
     bind_result (read_at buf (position + 1)) (\<lambda>b1.
     bind_result (read_at buf (position + 2)) (\<lambda>b2.
     bind_result (read_at buf (position + 3)) (\<lambda>b3.
     Inr (u32_of b0 b1 b2 b3, if advance then position + 4 else position)))))"

definition interpret_i32 :: "bool \<Rightarrow> byte list \<Rightarrow> nat \<Rightarrow> (i32 \<times> nat) result" where
  "interpret_i32 advance buf position =
     bind_result (read_at buf position) (\<lambda>b0.
     bind_result (read_at buf (position + 1)) (\<lambda>b1.
     bind_result (read_at buf (position + 2)) (\<lambda>b2.
     bind_result (read_at buf (position + 3)) (\<lambda>b3.
     Inr (u32_of b0 b1 b2 b3, if advance then position + 4 else position)))))"

definition interpret_u64 :: "bool \<Rightarrow> byte list \<Rightarrow> nat \<Rightarrow> (u64 \<times> nat) result" where
  "interpret_u64 advance buf position =
     bind_result (read_at buf position) (\<lambda>b0.
     bind_result (read_at buf (position + 1)) (\<lambda>b1.
     bind_result (read_at buf (position + 2)) (\<lambda>b2.
     bind_result (read_at buf (position + 3)) (\<lambda>b3.
     bind_result (read_at buf (position + 4)) (\<lambda>b4.
     bind_result (read_at buf (position + 5)) (\<lambda>b5.
     bind_result (read_at buf (position + 6)) (\<lambda>b6.
     bind_result (read_at buf (position + 7)) (\<lambda>b7.
     Inr (u64_of b0 b1 b2 b3 b4 b5 b6 b7, if advance then position + 8 else position)))))))))"

text \<open>What the device writes: the little-endian bytes of an integer.\<close>

definition bytes_u16 :: "u16 \<Rightarrow> byte list" where
  "bytes_u16 w = [ucast w, ucast (drop_bit 8 w)]"

definition bytes_u32 :: "u32 \<Rightarrow> byte list" where
  "bytes_u32 w =
     [ucast w, ucast (drop_bit 8 w), ucast (drop_bit 16 w), ucast (drop_bit 24 w)]"

definition bytes_u64 :: "u64 \<Rightarrow> byte list" where
  "bytes_u64 w =
     [ucast w, ucast (drop_bit 8 w), ucast (drop_bit 16 w), ucast (drop_bit 24 w),
      ucast (drop_bit 32 w), ucast (drop_bit 40 w), ucast (drop_bit 48 w), ucast (drop_bit 56 w)]"

lemma length_bytes [simp, width_simps]:
  "length (bytes_u16 w) = 2" "length (bytes_u32 v) = 4" "length (bytes_u64 u) = 8"
  by (simp_all add: bytes_u16_def bytes_u32_def bytes_u64_def)

lemma u16_of_bytes: "u16_of (ucast w) (ucast (drop_bit 8 w)) = w"
  by (rule bit_word_eqI) (auto simp: u16_of_def bit_simps)

lemma bit_byte_of:
  "bit (push_bit k (ucast (ucast (drop_bit k w) :: byte) :: 'a::len word)) n
     \<longleftrightarrow> n < LENGTH('a) \<and> k \<le> n \<and> n < k + 8 \<and> bit (w :: 'a word) n"
  unfolding bit_push_ucast by (auto simp: bit_simps)

lemma bit_byte_of_0:
  "bit (ucast (ucast w :: byte) :: 'a::len word) n \<longleftrightarrow> n < LENGTH('a) \<and> n < 8 \<and> bit (w :: 'a word) n"
  unfolding bit_ucast_byte by (auto simp: bit_simps)

lemma u32_of_bytes:
  "u32_of (ucast w) (ucast (drop_bit 8 w)) (ucast (drop_bit 16 w)) (ucast (drop_bit 24 w)) = w"
proof (rule bit_word_eqI)
  fix n assume "n < LENGTH(32)"
  then show "bit (u32_of (ucast w) (ucast (drop_bit 8 w)) (ucast (drop_bit 16 w))
      (ucast (drop_bit 24 w))) n = bit w n"
    unfolding u32_of_def bit_or_iff bit_byte_of bit_byte_of_0
    by (cases "bit w n") (simp, linarith, simp)
qed

lemma u64_of_bytes:
  "u64_of (ucast w) (ucast (drop_bit 8 w)) (ucast (drop_bit 16 w)) (ucast (drop_bit 24 w))
     (ucast (drop_bit 32 w)) (ucast (drop_bit 40 w)) (ucast (drop_bit 48 w)) (ucast (drop_bit 56 w)) = w"
proof (rule bit_word_eqI)
  fix n assume "n < LENGTH(64)"
  then show "bit (u64_of (ucast w) (ucast (drop_bit 8 w)) (ucast (drop_bit 16 w)) (ucast (drop_bit 24 w))
     (ucast (drop_bit 32 w)) (ucast (drop_bit 40 w)) (ucast (drop_bit 48 w)) (ucast (drop_bit 56 w))) n = bit w n"
    unfolding u64_of_def bit_or_iff bit_byte_of bit_byte_of_0
    by (cases "bit w n") (simp, linarith, simp)
qed

lemma bytes_u16_of: "bytes_u16 (u16_of b0 b1) = [b0, b1]"
proof -
  have "ucast (u16_of b0 b1) = b0" "ucast (drop_bit 8 (u16_of b0 b1)) = b1"
    by (auto intro!: bit_word_eqI simp: u16_of_def bit_or_iff bit_push_ucast bit_ucast_byte bit_simps)
  then show ?thesis by (simp add: bytes_u16_def)
qed

lemma u16_of_eq_iff: "u16_of a b = u16_of c d \<longleftrightarrow> a = c \<and> b = d"
  by (metis bytes_u16_of list.inject)

text \<open>
  Each interpretation, on bytes written little-endian at the position, gives the integer back and
  moves past it; on a range too short it faults.
\<close>

lemma read_at_encoded:
  assumes "drop pos buf = xs @ ys" and "i < length xs"
  shows "read_at buf (pos + i) = Inr (xs ! i)"
  using nth_of_drop_eq_append [OF assms] by simp

lemma interpret_u16_bytes:
  assumes "drop pos buf = bytes_u16 w @ rest"
  shows "interpret_u16 adv buf pos = Inr (w, if adv then pos + 2 else pos)"
  using read_at_encoded [OF assms, of 0] read_at_encoded [OF assms, of 1]
  by (simp add: interpret_u16_def) (simp add: bytes_u16_def u16_of_bytes)

lemma interpret_u32_bytes:
  assumes "drop pos buf = bytes_u32 w @ rest"
  shows "interpret_u32 adv buf pos = Inr (w, if adv then pos + 4 else pos)"
  using read_at_encoded [OF assms, of 0] read_at_encoded [OF assms, of 1]
    read_at_encoded [OF assms, of 2] read_at_encoded [OF assms, of 3]
  by (simp add: interpret_u32_def) (simp add: bytes_u32_def u32_of_bytes)

lemma interpret_i32_eq: "interpret_i32 adv buf pos = interpret_u32 adv buf pos"
  by (simp add: interpret_i32_def interpret_u32_def)

lemma interpret_u64_bytes:
  assumes "drop pos buf = bytes_u64 w @ rest"
  shows "interpret_u64 adv buf pos = Inr (w, if adv then pos + 8 else pos)"
  using read_at_encoded [OF assms, of 0] read_at_encoded [OF assms, of 1]
    read_at_encoded [OF assms, of 2] read_at_encoded [OF assms, of 3]
    read_at_encoded [OF assms, of 4] read_at_encoded [OF assms, of 5]
    read_at_encoded [OF assms, of 6] read_at_encoded [OF assms, of 7]
  by (simp add: interpret_u64_def) (simp add: bytes_u64_def u64_of_bytes)

lemma interpret_u16_eq:
  "interpret_u16 adv buf pos =
     (if pos + 2 \<le> length buf
      then Inr (u16_of (buf ! pos) (buf ! (pos + 1)), if adv then pos + 2 else pos)
      else Inl Undefined_Behaviour)"
  by (auto simp: interpret_u16_def read_at_def)

lemma interpret_u32_eq:
  "interpret_u32 adv buf pos =
     (if pos + 4 \<le> length buf
      then Inr (u32_of (buf ! pos) (buf ! (pos + 1)) (buf ! (pos + 2)) (buf ! (pos + 3)),
                if adv then pos + 4 else pos)
      else Inl Undefined_Behaviour)"
  by (auto simp: interpret_u32_def read_at_def)

lemma interpret_u64_eq:
  "interpret_u64 adv buf pos =
     (if pos + 8 \<le> length buf
      then Inr (u64_of (buf ! pos) (buf ! (pos + 1)) (buf ! (pos + 2)) (buf ! (pos + 3))
                  (buf ! (pos + 4)) (buf ! (pos + 5)) (buf ! (pos + 6)) (buf ! (pos + 7)),
                if adv then pos + 8 else pos)
      else Inl Undefined_Behaviour)"
  by (auto simp: interpret_u64_def read_at_def)

lemmas interpret_eqs = interpret_u16_eq interpret_u32_eq interpret_i32_eq interpret_u64_eq

section \<open>The packet header\<close>

text \<open>
  The fields of \<open>Header\<close> in declaration order. The prefix \<open>h_\<close> keeps the selectors apart from
  the other records' fields.
\<close>

record Header =
  h_magic :: u16
  h_packetType :: u16
  h_packetSize :: u32
  h_headerSize :: u16
  h_scanNumber :: u16
  h_packetNumber :: u16
  h_timestampRaw :: u64
  h_timestampSync :: u64
  h_statusFlags :: u32
  h_scanFrequency :: u32
  h_numPointsScan :: u16
  h_numPointsPacket :: u16
  h_firstIndex :: u16
  h_firstAngle :: i32
  h_angularIncrement :: i32
  h_iqInput :: u32
  h_iqOverload :: u32
  h_iqTimestampRaw :: u64
  h_iqTimestampSync :: u64

text \<open>
  \<open>sizeof(Data::Header)\<close> is the size of the struct in memory, not of the header on the wire: every
  field is aligned to its size and the whole to the largest field (the natural alignment of the
  ABIs the library builds for). The layout is computed from the sizes of the fields.
\<close>

definition header_field_sizes :: "nat list" where
  "header_field_sizes = [2, 2, 4, 2, 2, 2, 8, 8, 4, 4, 2, 2, 2, 4, 4, 4, 4, 8, 8]"

definition align_up :: "nat \<Rightarrow> nat \<Rightarrow> nat" where
  "align_up offset alignment = ((offset + alignment - 1) div alignment) * alignment"

fun struct_end :: "nat \<Rightarrow> nat list \<Rightarrow> nat" where
  "struct_end offset [] = offset"
| "struct_end offset (s # ss) = struct_end (align_up offset s + s) ss"

definition sizeof_Header :: nat where
  "sizeof_Header = align_up (struct_end 0 header_field_sizes) (fold max header_field_sizes 1)"

definition header_wire_size :: nat where
  "header_wire_size = sum_list header_field_sizes"

lemma sizeof_Header [simp]: "sizeof_Header = 80"
  by (simp add: sizeof_Header_def header_field_sizes_def align_up_def)

lemma header_wire_size [simp]: "header_wire_size = 76"
  by (simp add: header_wire_size_def header_field_sizes_def)

text \<open>\<open>Header::fromByteRange\<close>: nineteen interpretations in sequence, the last one not advancing.\<close>

definition Header_fromByteRange :: "byte list \<Rightarrow> nat \<Rightarrow> Header result" where
  "Header_fromByteRange buf begin =
     bind_result (interpret_u16 True buf begin) (\<lambda>(v_magic, p1).
     bind_result (interpret_u16 True buf p1) (\<lambda>(v_packetType, p2).
     bind_result (interpret_u32 True buf p2) (\<lambda>(v_packetSize, p3).
     bind_result (interpret_u16 True buf p3) (\<lambda>(v_headerSize, p4).
     bind_result (interpret_u16 True buf p4) (\<lambda>(v_scanNumber, p5).
     bind_result (interpret_u16 True buf p5) (\<lambda>(v_packetNumber, p6).
     bind_result (interpret_u64 True buf p6) (\<lambda>(v_timestampRaw, p7).
     bind_result (interpret_u64 True buf p7) (\<lambda>(v_timestampSync, p8).
     bind_result (interpret_u32 True buf p8) (\<lambda>(v_statusFlags, p9).
     bind_result (interpret_u32 True buf p9) (\<lambda>(v_scanFrequency, p10).
     bind_result (interpret_u16 True buf p10) (\<lambda>(v_numPointsScan, p11).
     bind_result (interpret_u16 True buf p11) (\<lambda>(v_numPointsPacket, p12).
     bind_result (interpret_u16 True buf p12) (\<lambda>(v_firstIndex, p13).
     bind_result (interpret_i32 True buf p13) (\<lambda>(v_firstAngle, p14).
     bind_result (interpret_i32 True buf p14) (\<lambda>(v_angularIncrement, p15).
     bind_result (interpret_u32 True buf p15) (\<lambda>(v_iqInput, p16).
     bind_result (interpret_u32 True buf p16) (\<lambda>(v_iqOverload, p17).
     bind_result (interpret_u64 True buf p17) (\<lambda>(v_iqTimestampRaw, p18).
     bind_result (interpret_u64 False buf p18) (\<lambda>(v_iqTimestampSync, p19).
     Inr \<lparr>h_magic = v_magic,
          h_packetType = v_packetType,
          h_packetSize = v_packetSize,
          h_headerSize = v_headerSize,
          h_scanNumber = v_scanNumber,
          h_packetNumber = v_packetNumber,
          h_timestampRaw = v_timestampRaw,
          h_timestampSync = v_timestampSync,
          h_statusFlags = v_statusFlags,
          h_scanFrequency = v_scanFrequency,
          h_numPointsScan = v_numPointsScan,
          h_numPointsPacket = v_numPointsPacket,
          h_firstIndex = v_firstIndex,
          h_firstAngle = v_firstAngle,
          h_angularIncrement = v_angularIncrement,
          h_iqInput = v_iqInput,
          h_iqOverload = v_iqOverload,
          h_iqTimestampRaw = v_iqTimestampRaw,
          h_iqTimestampSync = v_iqTimestampSync\<rparr>)))))))))))))))))))"

text \<open>The bytes of a header on the wire.\<close>

definition header_bytes :: "Header \<Rightarrow> byte list" where
  "header_bytes h =
     bytes_u16 (h_magic h) @
     bytes_u16 (h_packetType h) @
     bytes_u32 (h_packetSize h) @
     bytes_u16 (h_headerSize h) @
     bytes_u16 (h_scanNumber h) @
     bytes_u16 (h_packetNumber h) @
     bytes_u64 (h_timestampRaw h) @
     bytes_u64 (h_timestampSync h) @
     bytes_u32 (h_statusFlags h) @
     bytes_u32 (h_scanFrequency h) @
     bytes_u16 (h_numPointsScan h) @
     bytes_u16 (h_numPointsPacket h) @
     bytes_u16 (h_firstIndex h) @
     bytes_u32 (h_firstAngle h) @
     bytes_u32 (h_angularIncrement h) @
     bytes_u32 (h_iqInput h) @
     bytes_u32 (h_iqOverload h) @
     bytes_u64 (h_iqTimestampRaw h) @
     bytes_u64 (h_iqTimestampSync h)"

lemma length_header_bytes [simp, width_simps]: "length (header_bytes h) = 76"
  by (simp add: header_bytes_def)

text \<open>The parser succeeds on exactly the ranges that hold a whole header.\<close>

lemma Header_fromByteRange_returns_iff:
  "returns (Header_fromByteRange buf pos) \<longleftrightarrow> pos + 76 \<le> length buf"
  by (simp add: Header_fromByteRange_def interpret_eqs split: if_splits)

lemma Header_fromByteRange_fault:
  "length buf < pos + 76 \<Longrightarrow> Header_fromByteRange buf pos = Inl Undefined_Behaviour"
  by (simp add: Header_fromByteRange_def interpret_eqs)

lemma Header_fromByteRange_bytes:
  assumes "drop pos buf = header_bytes h @ rest"
  shows "Header_fromByteRange buf pos = Inr h"
proof -
  have nth: "buf ! (pos + i) = header_bytes h ! i" and len: "pos + 76 \<le> length buf" if "i < 76" for i
    using nth_of_drop_eq_append [OF assms, of i] nth_of_drop_eq_append [OF assms, of 75] that by auto
  then have nth': "buf ! (i + pos) = header_bytes h ! i" if "i < 76" for i
    using that by (simp add: add.commute)
  have nth0: "buf ! pos = header_bytes h ! 0" using nth [of 0] by simp
  note nths = nth' [of "Suc 0", simplified]
    nth' [of "Suc (Suc 0)", simplified]
    nth' [of "Suc (Suc (Suc 0))", simplified]
    nth' [of "Suc (Suc (Suc (Suc 0)))", simplified]
    nth' [of "Suc (Suc (Suc (Suc (Suc 0))))", simplified]
    nth' [of "Suc (Suc (Suc (Suc (Suc (Suc 0)))))", simplified]
  have "pos + 76 \<le> length buf" using len [of 0] by simp
  then show ?thesis
    by (simp add: Header_fromByteRange_def interpret_eqs nth' nth0 nths)
      (simp add: header_bytes_def bytes_u16_def bytes_u32_def bytes_u64_def u16_of_bytes u32_of_bytes u64_of_bytes)
qed

section \<open>The scan\<close>

text \<open>
  A \<open>std::chrono::steady_clock::time_point\<close> is its distance from the clock's epoch. The clock itself
  is read by the callers and passed in.
\<close>

type_synonym time_point = int

record Scan =
  sc_distances :: "u32 list"
  sc_amplitudes :: "u32 list"
  sc_headers :: "Header list"
  sc_timestamp :: time_point

definition default_Scan :: Scan where
  "default_Scan = \<lparr>sc_distances = [], sc_amplitudes = [], sc_headers = [], sc_timestamp = 0\<rparr>"

definition Scan_empty :: "Scan \<Rightarrow> bool" where
  "Scan_empty s \<longleftrightarrow> sc_headers s = []"

definition Scan_isComplete :: "Scan \<Rightarrow> bool" where
  "Scan_isComplete s \<longleftrightarrow>
     \<not> Scan_empty s \<and> unat (h_numPointsScan (hd (sc_headers s))) \<le> length (sc_distances s)"

lemma default_Scan_incomplete [simp]: "\<not> Scan_isComplete default_Scan"
  by (simp add: Scan_isComplete_def Scan_empty_def default_Scan_def)

section \<open>Properties\<close>

text \<open>
  \<open>Header::fromByteRange\<close> gives back, field by field, the header whose little-endian bytes stand
  at the position, whatever surrounds them.
\<close>

theorem header_round_trip:
  "Header_fromByteRange (before @ header_bytes h @ after) (length before) = Inr h"
  by (rule Header_fromByteRange_bytes [where rest = after]) simp

text \<open>
  \<open>Header::fromByteRange\<close> takes no end iterator. It stays inside the vector if and only if the 76
  bytes of a header on the wire follow the position; otherwise it reads out of bounds.
\<close>

theorem header_read_bounds:
  "Header_fromByteRange buf position = Inl Undefined_Behaviour \<longleftrightarrow>
   length buf < position + header_wire_size"
  using Header_fromByteRange_returns_iff [of buf position] Header_fromByteRange_fault [of buf position]
  by (cases "Header_fromByteRange buf position") auto

end
