(* ===== verification/Std_Strings.thy ===== *)
theory Std_Strings
  imports Prelude
begin

text \<open>
  The numeric conversions of the C++ standard library that the sources call: \<open>std::to_string\<close>,
  \<open>std::stoul\<close> and \<open>std::stoi\<close> with base ten, on the LP64 data model (\<open>unsigned long\<close> has 64 bits,
  \<open>int\<close> has 32).
\<close>

section \<open>Printing\<close>

definition digit_char :: "nat \<Rightarrow> char" where
  "digit_char d = char_of (48 + d)"

fun nat_to_string :: "nat \<Rightarrow> string" where
  "nat_to_string n =
     (if n < 10 then [digit_char n] else nat_to_string (n div 10) @ [digit_char (n mod 10)])"

declare nat_to_string.simps [simp del]

definition int_to_string :: "int \<Rightarrow> string" where
  "int_to_string i = (if i < 0 then CHR ''-'' # nat_to_string (nat (- i)) else nat_to_string (nat i))"

section \<open>Parsing\<close>

definition is_digit :: "char \<Rightarrow> bool" where
  "is_digit c \<longleftrightarrow> 48 \<le> (of_char c :: nat) \<and> (of_char c :: nat) \<le> 57"

definition is_space :: "char \<Rightarrow> bool" where
  "is_space c \<longleftrightarrow> (of_char c :: nat) = 32 \<or> 9 \<le> (of_char c :: nat) \<and> (of_char c :: nat) \<le> 13"

definition digit_value :: "char \<Rightarrow> nat" where
  "digit_value c = of_char c - 48"

definition decimal_value :: "string \<Rightarrow> nat" where
  "decimal_value ds = foldl (\<lambda>v c. 10 * v + digit_value c) 0 ds"

text \<open>
  The subject sequence of \<open>strtoul\<close> and \<open>strtol\<close>: white space, an optional sign, digits. \<open>None\<close> when
  there is no digit, otherwise the sign and the magnitude; what follows the digits is ignored.
\<close>

definition scan_number :: "string \<Rightarrow> (bool \<times> nat) option" where
  "scan_number s =
     (let t = dropWhile is_space s;
          negative = (case t of [] \<Rightarrow> False | c # _ \<Rightarrow> c = CHR ''-'');
          u = (case t of [] \<Rightarrow> [] | c # cs \<Rightarrow> if c = CHR ''-'' \<or> c = CHR ''+'' then cs else t);
          ds = takeWhile is_digit u
      in if ds = [] then None else Some (negative, decimal_value ds))"

text \<open>A minus sign negates in the unsigned type, so \<open>stoul (''-1'')\<close> is the largest value.\<close>

definition stoul :: "string \<Rightarrow> u64 result" where
  "stoul s =
     (case scan_number s of
        None \<Rightarrow> Inl Invalid_Argument
      | Some (negative, v) \<Rightarrow>
          if 2 ^ 64 \<le> v then Inl Out_Of_Range
          else Inr (if negative then - of_nat v else of_nat v))"

definition stoi :: "string \<Rightarrow> int result" where
  "stoi s =
     (case scan_number s of
        None \<Rightarrow> Inl Invalid_Argument
      | Some (negative, v) \<Rightarrow>
          let i = (if negative then - int v else int v)
          in if - (2 ^ 31) \<le> i \<and> i < 2 ^ 31 then Inr i else Inl Out_Of_Range)"

section \<open>Printing and parsing are inverse\<close>

lemma of_char_digit_char: "d < 10 \<Longrightarrow> (of_char (digit_char d) :: nat) = 48 + d"
  by (simp add: digit_char_def of_char_of)

lemma is_digit_digit_char [simp]: "d < 10 \<Longrightarrow> is_digit (digit_char d)"
  by (simp add: is_digit_def of_char_digit_char)

lemma digit_value_digit_char [simp]: "d < 10 \<Longrightarrow> digit_value (digit_char d) = d"
  by (simp add: digit_value_def of_char_digit_char)

lemma nat_to_string_digits: "\<forall>c \<in> set (nat_to_string n). is_digit c"
proof (induction n rule: nat_to_string.induct)
  case (1 n)
  then show ?case by (subst nat_to_string.simps) auto
qed

lemma nat_to_string_nonempty [simp]: "nat_to_string n \<noteq> []"
  by (subst nat_to_string.simps) simp

lemma decimal_value_snoc: "decimal_value (ds @ [c]) = 10 * decimal_value ds + digit_value c"
  by (simp add: decimal_value_def)

lemma decimal_value_nat_to_string [simp]: "decimal_value (nat_to_string n) = n"
proof (induction n rule: nat_to_string.induct)
  case (1 n)
  show ?case
  proof (cases "n < 10")
    case True
    then show ?thesis by (subst nat_to_string.simps) (simp add: decimal_value_def)
  next
    case False
    with 1 show ?thesis
      by (subst nat_to_string.simps) (simp add: decimal_value_snoc)
  qed
qed

lemma is_digit_not_space: "is_digit c \<Longrightarrow> \<not> is_space c"
  by (auto simp: is_digit_def is_space_def)

lemma is_digit_not_sign: "is_digit c \<Longrightarrow> c \<noteq> CHR ''-'' \<and> c \<noteq> CHR ''+''"
  by (auto simp: is_digit_def)

lemma scan_number_digits:
  assumes "ds \<noteq> []" and "\<forall>c \<in> set ds. is_digit c"
  shows "scan_number ds = Some (False, decimal_value ds)"
proof (cases ds)
  case (Cons c cs)
  then have c: "is_digit c" using assms(2) by simp
  then have "dropWhile is_space ds = ds" using Cons is_digit_not_space by simp
  moreover have "takeWhile is_digit ds = ds" using assms(2) by simp
  ultimately show ?thesis
    using Cons is_digit_not_sign [OF c] by (simp add: scan_number_def)
qed (use assms in simp)

lemma scan_number_nat_to_string [simp]: "scan_number (nat_to_string n) = Some (False, n)"
  by (simp add: scan_number_digits nat_to_string_digits)

lemma stoul_nat_to_string: "n < 2 ^ 64 \<Longrightarrow> stoul (nat_to_string n) = Inr (of_nat n)"
  by (simp add: stoul_def)

lemma stoi_nat_to_string: "n < 2 ^ 31 \<Longrightarrow> stoi (nat_to_string n) = Inr (int n)"
  by (simp add: stoi_def)

lemma nat_to_string_inj: "nat_to_string m = nat_to_string n \<Longrightarrow> m = n"
  by (metis decimal_value_nat_to_string)

end
