(* ===== verification/Parameter_Types.thy ===== *)
theory Parameter_Types
  imports Std_Strings
begin

text \<open>
  The enumerations of \<open>include/Control/Parameters.hpp\<close> and the strings they are sent as.
\<close>

section \<open>Enumerations\<close>

text \<open>Each enumeration with the strings the builders send for it.\<close>

datatype PACKET_TYPE = PT_A | PT_B | PT_C

fun packet_type_value :: "PACKET_TYPE \<Rightarrow> u16" where
  "packet_type_value PT_A = 0x0041"
| "packet_type_value PT_B = 0x0042"
| "packet_type_value PT_C = 0x0043"

datatype IpMode = IpMode_STATIC | IpMode_DHCP | IpMode_AUTO_IP
datatype Language = Language_ENGLISH | Language_GERMAN
datatype HMI_DISPLAY_MODE = HMI_DISPLAY_MODE_OFF | HMI_DISPLAY_MODE_STATIC_LOGO | HMI_DISPLAY_MODE_STATIC_TEXT | HMI_DISPLAY_MODE_BAR_GRAPH_DISTANCE | HMI_DISPLAY_MODE_BAR_GRAPH_ECHO | HMI_DISPLAY_MODE_BAR_GRAPH_REFLECTOR | HMI_DISPLAY_MODE_APPLICATION_BITMAP | HMI_DISPLAY_MODE_APPLICATION_TEXT
datatype OPERATING_MODE = OPERATING_MODE_MEASURE | OPERATING_MODE_EMITTER_OFF
datatype SCAN_DIRECTION = SCAN_DIRECTION_CW | SCAN_DIRECTION_CCW
datatype CRC = CRC_NONE | CRC_CRC32C
datatype LCM_SENSITIVITY = LCM_SENSITIVITY_DISABLED | LCM_SENSITIVITY_LOW | LCM_SENSITIVITY_MEDIUM | LCM_SENSITIVITY_HIGH

datatype PFSDP = PFSDP_UNKNOWN | PFSDP_V100 | PFSDP_V101 | PFSDP_V102 | PFSDP_V103 | PFSDP_V104
  | PFSDP_ABOVE_V104

fun PFSDP_value :: "PFSDP \<Rightarrow> u32" where
  "PFSDP_value PFSDP_UNKNOWN = 0"
| "PFSDP_value PFSDP_V100 = 100"
| "PFSDP_value PFSDP_V101 = 101"
| "PFSDP_value PFSDP_V102 = 102"
| "PFSDP_value PFSDP_V103 = 103"
| "PFSDP_value PFSDP_V104 = 104"
| "PFSDP_value PFSDP_ABOVE_V104 = 105"

fun scanPacketString :: "PACKET_TYPE \<Rightarrow> string" where
  "scanPacketString PT_A = ''A''"
| "scanPacketString PT_B = ''B''"
| "scanPacketString PT_C = ''C''"

fun crcToString :: "CRC \<Rightarrow> string" where
  "crcToString CRC_NONE = ''none''"
| "crcToString CRC_CRC32C = ''crc32c''"

fun IpModeToString :: "IpMode \<Rightarrow> string" where
  "IpModeToString IpMode_STATIC = ''static''"
| "IpModeToString IpMode_DHCP = ''dhcp''"
| "IpModeToString IpMode_AUTO_IP = ''autoip''"

fun operatingModeToString :: "OPERATING_MODE \<Rightarrow> string" where
  "operatingModeToString OPERATING_MODE_MEASURE = ''measure''"
| "operatingModeToString OPERATING_MODE_EMITTER_OFF = ''emitter_off''"

fun scanDirectionToString :: "SCAN_DIRECTION \<Rightarrow> string" where
  "scanDirectionToString SCAN_DIRECTION_CW = ''cw''"
| "scanDirectionToString SCAN_DIRECTION_CCW = ''ccw''"

fun LanguageToString :: "Language \<Rightarrow> string" where
  "LanguageToString Language_ENGLISH = ''english''"
| "LanguageToString Language_GERMAN = ''german''"

fun HmiDisplayModeToString :: "HMI_DISPLAY_MODE \<Rightarrow> string" where
  "HmiDisplayModeToString HMI_DISPLAY_MODE_OFF = ''off''"
| "HmiDisplayModeToString HMI_DISPLAY_MODE_STATIC_LOGO = ''static_logo''"
| "HmiDisplayModeToString HMI_DISPLAY_MODE_STATIC_TEXT = ''static_text''"
| "HmiDisplayModeToString HMI_DISPLAY_MODE_BAR_GRAPH_DISTANCE = ''bargraph_distance''"
| "HmiDisplayModeToString HMI_DISPLAY_MODE_BAR_GRAPH_ECHO = ''bargraph_echo''"
| "HmiDisplayModeToString HMI_DISPLAY_MODE_BAR_GRAPH_REFLECTOR = ''bargraph_reflector''"
| "HmiDisplayModeToString HMI_DISPLAY_MODE_APPLICATION_BITMAP = ''application_bitmap''"
| "HmiDisplayModeToString HMI_DISPLAY_MODE_APPLICATION_TEXT = ''application_text''"

fun LCMSensitivityToString :: "LCM_SENSITIVITY \<Rightarrow> string" where
  "LCMSensitivityToString LCM_SENSITIVITY_DISABLED = ''disabled''"
| "LCMSensitivityToString LCM_SENSITIVITY_LOW = ''low''"
| "LCMSensitivityToString LCM_SENSITIVITY_MEDIUM = ''medium''"
| "LCMSensitivityToString LCM_SENSITIVITY_HIGH = ''high''"

text \<open>\<open>std::to_string\<close> of the argument types the builders take.\<close>

definition u32_to_string :: "u32 \<Rightarrow> string" where
  "u32_to_string n = nat_to_string (unat n)"

definition u16_to_string :: "u16 \<Rightarrow> string" where
  "u16_to_string n = nat_to_string (unat n)"

definition i32_to_string :: "i32 \<Rightarrow> string" where
  "i32_to_string n = int_to_string (sint n)"

text \<open>\<open>encoreSpaceInUrl\<close>: every white-space character becomes \<open>%20\<close>.\<close>

definition encoreSpaceInUrl :: "string \<Rightarrow> string" where
  "encoreSpaceInUrl line = concat (map (\<lambda>c. if is_space c then ''%20'' else [c]) line)"

end
