(* ===== verification/Packet_Extraction.thy ===== *)
theory Packet_Extraction
  imports Wire_Data Parameter_Types
begin

text \<open>
  Finding and decoding a packet in a byte range: namespace \<open>Device::internals\<close> of
  \<open>include/DataLink/DataLink.hpp\<close>. A range is a byte vector \<open>buf\<close> and a starting offset; its end iterator
  is the end of the vector, as in every call of the sources.
\<close>

section \<open>The start of a packet\<close>

definition PACKET_MAGIC_START :: u16 where
  "PACKET_MAGIC_START = 0xa25c"

text \<open>
  \<open>retrievePacketMagic\<close> compares the position with the last byte before the end for equality. On an
  empty range that byte lies before the position, so the loop runs past the end and the read faults.
\<close>

function retrievePacketMagic :: "byte list \<Rightarrow> nat \<Rightarrow> nat option result" where
  "retrievePacketMagic buf position =
     (if int position = int (length buf) - 1 then Inr None
      else case read_at buf position of
          Inl e \<Rightarrow> Inl e
        | Inr b0 \<Rightarrow> (case read_at buf (position + 1) of
              Inl e \<Rightarrow> Inl e
            | Inr b1 \<Rightarrow>
                (if u16_of b0 b1 = PACKET_MAGIC_START then Inr (Some position)
                 else retrievePacketMagic buf (position + 1))))"
  by pat_completeness auto
termination
  by (relation "measure (\<lambda>(buf, position). length buf - position)") (auto simp: read_at_eq_Inr_iff)

declare retrievePacketMagic.simps [simp del]

text \<open>Where a magic stands, and the positions the search has to skip.\<close>

definition magic_at :: "byte list \<Rightarrow> nat \<Rightarrow> bool" where
  "magic_at buf i \<longleftrightarrow> i + 1 < length buf \<and> buf ! i = 0x5C \<and> buf ! (i + 1) = 0xA2"

lemma u16_of_magic_iff: "u16_of b0 b1 = PACKET_MAGIC_START \<longleftrightarrow> b0 = 0x5C \<and> b1 = 0xA2"
proof -
  have "u16_of 0x5C 0xA2 = PACKET_MAGIC_START" by (simp add: u16_of_def PACKET_MAGIC_START_def)
  then show ?thesis by (metis u16_of_eq_iff)
qed

lemma retrievePacketMagic_step:
  assumes "position < length buf"
  shows "retrievePacketMagic buf position =
     (if position = length buf - 1 then Inr None
      else if magic_at buf position then Inr (Some position)
      else retrievePacketMagic buf (position + 1))"
  using assms by (subst retrievePacketMagic.simps) (auto simp: magic_at_def u16_of_magic_iff)

lemma retrievePacketMagic_empty_range:
  "retrievePacketMagic buf (length buf) = Inl Undefined_Behaviour"
  by (subst retrievePacketMagic.simps) simp

lemma retrievePacketMagic_first:
  assumes "position < length buf"
  shows "retrievePacketMagic buf position =
     Inr (find (magic_at buf) [position..<length buf - 1])"
  using assms
proof (induction "length buf - position" arbitrary: position)
  case 0
  then show ?case by simp
next
  case (Suc n)
  show ?case
  proof (cases "position = length buf - 1")
    case True
    with Suc.prems show ?thesis by (simp add: retrievePacketMagic_step)
  next
    case False
    with Suc have "retrievePacketMagic buf (position + 1)
        = Inr (find (magic_at buf) [position + 1..<length buf - 1])"
      by (intro Suc.hyps) auto
    moreover have "[position..<length buf - 1] = position # [position + 1..<length buf - 1]"
      using False Suc.prems by (simp add: upt_rec)
    ultimately show ?thesis using False Suc.prems by (simp add: retrievePacketMagic_step)
  qed
qed

lemma retrievePacketMagic_Some:
  assumes "retrievePacketMagic buf position = Inr (Some i)" and "position < length buf"
  shows "position \<le> i" and "magic_at buf i" and "\<And>j. position \<le> j \<Longrightarrow> j < i \<Longrightarrow> \<not> magic_at buf j"
proof -
  have f: "find (magic_at buf) [position..<length buf - 1] = Some i"
    using assms retrievePacketMagic_first [OF assms(2)] by simp
  then obtain k where k: "k < length buf - 1 - position" "magic_at buf i" "i = position + k"
      "\<forall>j<k. \<not> magic_at buf (position + j)"
    by (auto simp: find_Some_iff)
  show "position \<le> i" "magic_at buf i" using k by simp_all
  fix j assume "position \<le> j" "j < i"
  then obtain d where "j = position + d" "d < k" using k(3) le_Suc_ex by fastforce
  then show "\<not> magic_at buf j" using k(4) by simp
qed

text \<open>
  \<open>retrievePacketHeader\<close>: the size check is of the whole range, in \<open>unsigned int\<close>, against the size of
  the struct in memory.
\<close>

definition retrievePacketHeader :: "byte list \<Rightarrow> nat \<Rightarrow> (nat \<times> Header) option result" where
  "retrievePacketHeader buf begin =
     (let numberOfBytes = (distance_to_end buf begin :: u32)
      in if unat numberOfBytes < sizeof_Header then Inr None
         else bind_result (retrievePacketMagic buf begin) (\<lambda>magic.
           case magic of
             None \<Rightarrow> Inr None
           | Some headerStart \<Rightarrow>
               bind_result (Header_fromByteRange buf headerStart) (\<lambda>header.
               Inr (Some (headerStart, header)))))"

lemma retrievePacketHeader_short:
  assumes "begin \<le> length buf" and "length buf < 2 ^ 32" and "length buf - begin < 80"
  shows "retrievePacketHeader buf begin = Inr None"
  using assms by (simp add: retrievePacketHeader_def unat_distance_to_end)

lemma retrievePacketHeader_eq:
  assumes "length buf < 2 ^ 32" and "begin + 80 \<le> length buf"
  shows "retrievePacketHeader buf begin =
     (case find (magic_at buf) [begin..<length buf - 1] of
        None \<Rightarrow> Inr None
      | Some i \<Rightarrow> bind_result (Header_fromByteRange buf i) (\<lambda>h. Inr (Some (i, h))))"
  using assms by (auto simp: retrievePacketHeader_def unat_distance_to_end retrievePacketMagic_first
      split: option.splits)

text \<open>A header is returned only where a magic stands, and only from a whole header's bytes.\<close>

lemma retrievePacketHeader_Some:
  assumes "retrievePacketHeader buf begin = Inr (Some (i, h))"
    and "begin \<le> length buf" and "length buf < 2 ^ 32"
  shows "begin \<le> i" and "magic_at buf i" and "Header_fromByteRange buf i = Inr h"
    and "i + 76 \<le> length buf" and "begin + 80 \<le> length buf"
proof -
  show len: "begin + 80 \<le> length buf"
  proof (rule ccontr)
    assume "\<not> ?thesis"
    then have "retrievePacketHeader buf begin = Inr None"
      using assms(2,3) by (intro retrievePacketHeader_short) auto
    then show False using assms(1) by simp
  qed
  from assms len have m: "retrievePacketMagic buf begin = Inr (Some i)"
    and h: "Header_fromByteRange buf i = Inr h"
    by (auto simp: retrievePacketHeader_def unat_distance_to_end bind_result_eq_Inr_iff
        split: option.splits if_splits)
  have "begin < length buf" using len by simp
  then show "begin \<le> i" "magic_at buf i" using retrievePacketMagic_Some [OF m] by auto
  show "Header_fromByteRange buf i = Inr h" by (rule h)
  then show "i + 76 \<le> length buf" using Header_fromByteRange_returns_iff by blast
qed

section \<open>Integers of a payload\<close>

text \<open>The integer at a position, as both extraction loops spell it out.\<close>

definition peek_u16 :: "byte list \<Rightarrow> nat \<Rightarrow> u16 result" where
  "peek_u16 buf position =
     bind_result (read_at buf position) (\<lambda>b0.
     bind_result (read_at buf (position + 1)) (\<lambda>b1.
     Inr (u16_of b0 b1)))"

definition peek_u32 :: "byte list \<Rightarrow> nat \<Rightarrow> u32 result" where
  "peek_u32 buf position =
     bind_result (read_at buf position) (\<lambda>b0.
     bind_result (read_at buf (position + 1)) (\<lambda>b1.
     bind_result (read_at buf (position + 2)) (\<lambda>b2.
     bind_result (read_at buf (position + 3)) (\<lambda>b3.
     Inr (u32_of b0 b1 b2 b3)))))"

definition u16_at :: "byte list \<Rightarrow> nat \<Rightarrow> u16" where
  "u16_at buf i = u16_of (buf ! i) (buf ! (i + 1))"

definition u32_at :: "byte list \<Rightarrow> nat \<Rightarrow> u32" where
  "u32_at buf i = u32_of (buf ! i) (buf ! (i + 1)) (buf ! (i + 2)) (buf ! (i + 3))"

lemma peek_u16_eq:
  "peek_u16 buf i = (if i + 2 \<le> length buf then Inr (u16_at buf i) else Inl Undefined_Behaviour)"
  by (auto simp: peek_u16_def u16_at_def read_at_def)

lemma peek_u32_eq:
  "peek_u32 buf i = (if i + 4 \<le> length buf then Inr (u32_at buf i) else Inl Undefined_Behaviour)"
  by (auto simp: peek_u32_def u32_at_def read_at_def)

text \<open>\<open>(long unsigned int) std::distance(position, end)\<close>.\<close>

definition remaining_bytes :: "byte list \<Rightarrow> nat \<Rightarrow> u64" where
  "remaining_bytes buf position = distance_to_end buf position"

lemma unat_remaining_bytes:
  "position \<le> length buf \<Longrightarrow> length buf < 2 ^ 64 \<Longrightarrow>
    unat (remaining_bytes buf position) = length buf - position"
  by (simp add: remaining_bytes_def unat_distance_to_end)

text \<open>
  The two extraction loops. The callback is the state transformer it applies to the vectors it
  captured; the result is the final position and the final vectors.
\<close>

function retrieve32_loop ::
  "byte list \<Rightarrow> u32 \<Rightarrow> (u32 \<Rightarrow> 's \<Rightarrow> 's) \<Rightarrow> nat \<Rightarrow> nat \<Rightarrow> 's \<Rightarrow> (nat \<times> 's) result" where
  "retrieve32_loop buf numberOfIntegersToExtract callback position blockCount s =
     (if 4 \<le> unat (remaining_bytes buf position) \<and> blockCount < unat numberOfIntegersToExtract
      then bind_result (peek_u32 buf position) (\<lambda>uint32Value.
        retrieve32_loop buf numberOfIntegersToExtract callback (position + 4) (blockCount + 1)
          (callback uint32Value s))
      else Inr (position, s))"
  by pat_completeness auto
termination
  by (relation "measure (\<lambda>(buf, n, cb, position, k, s). length buf - position)")
    (auto simp: peek_u32_eq split: if_splits)

declare retrieve32_loop.simps [simp del]

definition retrieve32BitsUnsignedIntegersFromByteRange ::
  "byte list \<Rightarrow> nat \<Rightarrow> u32 \<Rightarrow> (u32 \<Rightarrow> 's \<Rightarrow> 's) \<Rightarrow> 's \<Rightarrow> (nat \<times> 's) result" where
  "retrieve32BitsUnsignedIntegersFromByteRange buf begin n callback s =
     retrieve32_loop buf n callback begin 0 s"

function retrieve48_loop ::
  "byte list \<Rightarrow> u32 \<Rightarrow> (u32 \<Rightarrow> u16 \<Rightarrow> 's \<Rightarrow> 's) \<Rightarrow> nat \<Rightarrow> nat \<Rightarrow> 's \<Rightarrow> (nat \<times> 's) result" where
  "retrieve48_loop buf numberOfIntegersToExtract callback position blockCount s =
     (if 4 \<le> unat (remaining_bytes buf position) \<and> blockCount < unat numberOfIntegersToExtract
      then bind_result (peek_u32 buf position) (\<lambda>uint32Value.
        bind_result (peek_u16 buf (position + 4)) (\<lambda>uint16Value.
        retrieve48_loop buf numberOfIntegersToExtract callback (position + 4 + 2) (blockCount + 1)
          (callback uint32Value uint16Value s)))
      else Inr (position, s))"
  by pat_completeness auto
termination
  by (relation "measure (\<lambda>(buf, n, cb, position, k, s). length buf - position)")
    (auto simp: peek_u32_eq split: if_splits)

declare retrieve48_loop.simps [simp del]

definition retrieve48bitsUnsignedIntegersFromByteRange ::
  "byte list \<Rightarrow> nat \<Rightarrow> u32 \<Rightarrow> (u32 \<Rightarrow> u16 \<Rightarrow> 's \<Rightarrow> 's) \<Rightarrow> 's \<Rightarrow> (nat \<times> 's) result" where
  "retrieve48bitsUnsignedIntegersFromByteRange buf begin n callback s =
     retrieve48_loop buf n callback begin 0 s"

subsection \<open>What the loops compute\<close>

text \<open>The offsets of \<open>m\<close> consecutive fields of width \<open>w\<close>.\<close>

fun offsets :: "nat \<Rightarrow> nat \<Rightarrow> nat \<Rightarrow> nat list" where
  "offsets position w 0 = []"
| "offsets position w (Suc m) = position # offsets (position + w) w m"

lemma length_offsets [simp]: "length (offsets position w m) = m"
  by (induction m arbitrary: position) auto

lemma offsets_bounds: "p \<in> set (offsets position w m) \<Longrightarrow> position \<le> p \<and> p + w \<le> position + w * m"
  by (induction m arbitrary: position) fastforce+

text \<open>Taking one block of width \<open>w\<close> off \<open>r\<close> bytes and \<open>n\<close> wanted blocks.\<close>

lemma blocks_Suc:
  fixes n k r w :: nat
  assumes "k < n" and "0 < w" and "w \<le> r"
  shows "min (n - k) (r div w) = Suc (min (n - Suc k) ((r - w) div w))"
proof -
  have "r div w = Suc ((r - w) div w)" using assms(2,3) by (rule le_div_geq)
  moreover have "n - k = Suc (n - Suc k)" using assms(1) by simp
  ultimately show ?thesis by simp
qed

lemma retrieve32_loop_eq:
  assumes "position \<le> length buf" and "length buf < 2 ^ 64"
  shows "retrieve32_loop buf n callback position k s =
    (let m = min (unat n - k) ((length buf - position) div 4)
     in Inr (position + 4 * m, fold (\<lambda>p. callback (u32_at buf p)) (offsets position 4 m) s))"
  using assms
proof (induction "length buf - position" arbitrary: position k s rule: less_induct)
  case less
  note rem = unat_remaining_bytes [OF less.prems]
  show ?case
  proof (cases "4 \<le> length buf - position \<and> k < unat n")
    case False
    then have "min (unat n - k) ((length buf - position) div 4) = 0" by auto
    with False rem show ?thesis by (subst retrieve32_loop.simps) auto
  next
    case True
    then have in_range: "position + 4 \<le> length buf" by linarith
    have IH: "retrieve32_loop buf n callback (position + 4) (Suc k) t =
        (let m = min (unat n - Suc k) ((length buf - (position + 4)) div 4)
         in Inr (position + 4 + 4 * m, fold (\<lambda>p. callback (u32_at buf p)) (offsets (position + 4) 4 m) t))" for t
      using in_range less.prems by (intro less.hyps) auto
    have m: "min (unat n - k) ((length buf - position) div 4)
        = Suc (min (unat n - Suc k) ((length buf - (position + 4)) div 4))"
      using blocks_Suc [of k "unat n" 4 "length buf - position"] True by simp
    show ?thesis
      using True rem in_range
      by (subst retrieve32_loop.simps) (simp add: peek_u32_eq IH m Let_def)
  qed
qed

lemma retrieve48_loop_eq:
  assumes "position \<le> length buf" and "length buf < 2 ^ 64"
  shows "retrieve48_loop buf n callback position k s =
    (let available = length buf - position; m = min (unat n - k) (available div 6)
     in if available div 6 < unat n - k \<and> 4 \<le> available mod 6 then Inl Undefined_Behaviour
        else Inr (position + 6 * m,
               fold (\<lambda>p. callback (u32_at buf p) (u16_at buf (p + 4))) (offsets position 6 m) s))"
  using assms
proof (induction "length buf - position" arbitrary: position k s rule: less_induct)
  case less
  note rem = unat_remaining_bytes [OF less.prems]
  consider "length buf - position < 4 \<or> unat n \<le> k"
    | "4 \<le> length buf - position" "length buf - position < 6" "k < unat n"
    | "position + 6 \<le> length buf" "k < unat n"
    using less.prems(1) by linarith
  then show ?case
  proof cases
    case 1
    then have "min (unat n - k) ((length buf - position) div 6) = 0" by auto
    with 1 rem show ?thesis by (subst retrieve48_loop.simps) auto
  next
    case 2
    then have "peek_u16 buf (position + 4) = Inl Undefined_Behaviour"
      and "returns (peek_u32 buf position)" by (auto simp: peek_u16_eq peek_u32_eq)
    with 2 rem show ?thesis by (subst retrieve48_loop.simps) (auto simp: Let_def)
  next
    case 3
    have m: "min (unat n - k) (Suc y) = Suc (min (unat n - Suc k) y)" for y
      using 3(2) by (simp add: min_def) linarith
    have d: "(length buf - position) div 6 = Suc ((length buf - (position + 6)) div 6)"
      and d': "(length buf - position) mod 6 = (length buf - (position + 6)) mod 6"
      using 3(1) le_div_geq [of 6 "length buf - position"] le_mod_geq [of 6 "length buf - position"]
      by simp_all
    have IH: "retrieve48_loop buf n callback (position + 6) (Suc k) t =
      (let available = length buf - (position + 6); m = min (unat n - Suc k) (available div 6)
       in if available div 6 < unat n - Suc k \<and> 4 \<le> available mod 6 then Inl Undefined_Behaviour
          else Inr (position + 6 + 6 * m,
               fold (\<lambda>p. callback (u32_at buf p) (u16_at buf (p + 4))) (offsets (position + 6) 6 m) t))" for t
      using 3 less.prems by (intro less.hyps) auto
    have step: "retrieve48_loop buf n callback position k s =
        retrieve48_loop buf n callback (position + 6) (Suc k)
          (callback (u32_at buf position) (u16_at buf (position + 4)) s)"
      using 3 rem by (subst retrieve48_loop.simps) (auto simp: peek_u32_eq peek_u16_eq add.commute)
    have cond: "(Suc (available div 6) < unat n - k) = (available div 6 < unat n - Suc k)" for available
      using 3(2) by linarith
    show ?thesis
      unfolding step IH Let_def d d' cond m by simp
  qed
qed

section \<open>Payloads\<close>

text \<open>
  \<open>std::numeric_limits<uint32_t>::quiet_NaN()\<close>: an integer type has no NaN and the standard library
  returns the value-initialised integer, 0.
\<close>

definition uint32_quiet_NaN :: u32 where
  "uint32_quiet_NaN = 0"

type_synonym points = "u32 list \<times> u32 list"

text \<open>The callbacks of the three payload types, on the pair of vectors they append to.\<close>

definition callback_A :: "u32 \<Rightarrow> points \<Rightarrow> points" where
  "callback_A distance = (\<lambda>(distances, amplitudes).
     let nanOrDistance = (if distance \<noteq> 0xFFFFFFFF then distance else uint32_quiet_NaN)
     in (distances @ [nanOrDistance], amplitudes @ [0]))"

definition callback_B :: "u32 \<Rightarrow> u16 \<Rightarrow> points \<Rightarrow> points" where
  "callback_B distance amplitude = (\<lambda>(distances, amplitudes).
     let nanOrDistance = (if distance \<noteq> 0xFFFFFFFF then distance else uint32_quiet_NaN)
     in (distances @ [nanOrDistance], amplitudes @ [ucast amplitude]))"

definition callback_C :: "u32 \<Rightarrow> points \<Rightarrow> points" where
  "callback_C point = (\<lambda>(distances, amplitudes).
     let distance = point AND 0x000FFFFF;
         amplitude = drop_bit 20 (point AND 0xFFF00000);
         nanOrDistance = (if distance \<noteq> 0xFFFFF then distance else uint32_quiet_NaN)
     in (distances @ [nanOrDistance], amplitudes @ [amplitude]))"

text \<open>\<open>PayloadExtractionFromByteRange<T>::retrievePayload\<close> for the three types.\<close>

fun retrievePayload :: "PACKET_TYPE \<Rightarrow> byte list \<Rightarrow> nat \<Rightarrow> u32 \<Rightarrow> points \<Rightarrow> (nat \<times> points) result" where
  "retrievePayload PT_A buf begin numberOfPoints =
     retrieve32BitsUnsignedIntegersFromByteRange buf begin numberOfPoints callback_A"
| "retrievePayload PT_B buf begin numberOfPoints =
     retrieve48bitsUnsignedIntegersFromByteRange buf begin numberOfPoints callback_B"
| "retrievePayload PT_C buf begin numberOfPoints =
     retrieve32BitsUnsignedIntegersFromByteRange buf begin numberOfPoints callback_C"

text \<open>A point as the callbacks see it, and its width on the wire.\<close>

fun point_width :: "PACKET_TYPE \<Rightarrow> nat" where
  "point_width PT_A = 4"
| "point_width PT_B = 6"
| "point_width PT_C = 4"

definition measure_of :: "u32 \<Rightarrow> u32 \<Rightarrow> u32" where
  "measure_of invalid d = (if d \<noteq> invalid then d else uint32_quiet_NaN)"

fun point_at :: "PACKET_TYPE \<Rightarrow> byte list \<Rightarrow> nat \<Rightarrow> u32 \<times> u32" where
  "point_at PT_A buf p = (measure_of 0xFFFFFFFF (u32_at buf p), 0)"
| "point_at PT_B buf p = (measure_of 0xFFFFFFFF (u32_at buf p), ucast (u16_at buf (p + 4)))"
| "point_at PT_C buf p =
     (measure_of 0xFFFFF (u32_at buf p AND 0xFFFFF), drop_bit 20 (u32_at buf p AND 0xFFF00000))"

lemma fold_append_points:
  assumes "\<And>p ds as. f p (ds, as) = (ds @ [fst (g p)], as @ [snd (g p)])"
  shows "fold f ps (ds, as) = (ds @ map (fst \<circ> g) ps, as @ map (snd \<circ> g) ps)"
  by (induction ps arbitrary: ds as) (simp_all add: assms)

text \<open>
  The behaviour of the extraction, all types: the points are decoded in order, one per block, as
  many as asked for and as fit in the range. Only type B can read past the end, exactly when the
  points run out of bytes with four or five bytes left over.
\<close>

lemma retrievePayload_eq:
  assumes "begin \<le> length buf" and "length buf < 2 ^ 64"
  shows "retrievePayload T buf begin n (ds, as) =
    (let available = length buf - begin; w = point_width T; m = min (unat n) (available div w);
         ps = map (point_at T buf) (offsets begin w m)
     in if T = PT_B \<and> available div w < unat n \<and> 4 \<le> available mod w then Inl Undefined_Behaviour
        else Inr (begin + w * m, ds @ map fst ps, as @ map snd ps))"
proof -
  have f: "fold (\<lambda>p. callback_A (u32_at buf p)) xs (ds, as) =
      (ds @ map (fst \<circ> point_at PT_A buf) xs, as @ map (snd \<circ> point_at PT_A buf) xs)"
    "fold (\<lambda>p. callback_B (u32_at buf p) (u16_at buf (p + 4))) xs (ds, as) =
      (ds @ map (fst \<circ> point_at PT_B buf) xs, as @ map (snd \<circ> point_at PT_B buf) xs)"
    "fold (\<lambda>p. callback_C (u32_at buf p)) xs (ds, as) =
      (ds @ map (fst \<circ> point_at PT_C buf) xs, as @ map (snd \<circ> point_at PT_C buf) xs)" for xs
    by (rule fold_append_points,
        simp add: callback_A_def callback_B_def callback_C_def measure_of_def)+
  show ?thesis
    using assms
    by (cases T) (simp_all add: retrieve32BitsUnsignedIntegersFromByteRange_def
        retrieve48bitsUnsignedIntegersFromByteRange_def retrieve32_loop_eq retrieve48_loop_eq f Let_def)
qed

section \<open>Properties\<close>

text \<open>
  \<open>retrievePacketMagic\<close> returns the first position of the range at which the bytes 5C A2 stand, and
  nothing when there is none; on an empty range it runs past the end, which is undefined.
\<close>

theorem packet_magic_first:
  "retrievePacketMagic buf position =
     (if position < length buf then Inr (find (magic_at buf) [position..<length buf - 1])
      else Inl Undefined_Behaviour)"
proof (cases "position < length buf")
  case False
  then have "int position \<noteq> int (length buf) - 1" by linarith
  with False show ?thesis by (subst retrievePacketMagic.simps) simp
qed (simp add: retrievePacketMagic_first)

text \<open>
  \<open>retrievePacketHeader\<close> compares the size of the struct in memory (80 bytes) with the whole range,
  not with what follows the magic. It reads past the end exactly when the range holds 80 bytes and
  the first magic of the range is followed by less than the 76 bytes of a header.
\<close>

theorem packet_header_overread:
  assumes "begin \<le> length buf" and "length buf < 2 ^ 32"
  shows "retrievePacketHeader buf begin = Inl Undefined_Behaviour \<longleftrightarrow>
    begin + sizeof_Header \<le> length buf \<and>
    (\<exists>i. find (magic_at buf) [begin..<length buf - 1] = Some i \<and> length buf < i + header_wire_size)"
proof (cases "begin + 80 \<le> length buf")
  case True
  have "Header_fromByteRange buf i = Inl Undefined_Behaviour \<longleftrightarrow> length buf < i + 76" for i
    using Header_fromByteRange_returns_iff [of buf i] Header_fromByteRange_fault [of buf i]
    by (cases "Header_fromByteRange buf i") auto
  with True assms show ?thesis
    by (auto simp: retrievePacketHeader_eq bind_result_eq_Inl_iff split: option.splits)
next
  case False
  with assms show ?thesis by (simp add: retrievePacketHeader_short)
qed

theorem packet_header_overread_witness:
  "retrievePacketHeader (replicate 10 0 @ [0x5C, 0xA2] @ replicate 68 0) 0 = Inl Undefined_Behaviour"
proof -
  let ?buf = "replicate 10 0 @ [0x5C, 0xA2] @ replicate 68 0 :: byte list"
  have "find (magic_at ?buf) [0..<79] = Some 10"
    by (auto simp: find_Some_iff magic_at_def nth_append intro!: exI [of _ 10])
  then show ?thesis
    using packet_header_overread [of 0 ?buf] by simp
qed

text \<open>
  \<open>retrievePayload\<close> decodes the points of all three packet types in order, one per block of the
  type's width, as many as asked for or as the range holds, and returns the position after the last.
  It reads out of bounds in one case only: type B, when the points are asked for beyond the range and
  four or five bytes are left over, since the loop requires four bytes and reads six.
\<close>

theorem payload_extraction:
  assumes "begin \<le> length buf" and "length buf < 2 ^ 64"
  shows "retrievePayload T buf begin n (distances, amplitudes) =
    (let available = length buf - begin; w = point_width T;
         m = min (unat n) (available div w);
         points = map (point_at T buf) (offsets begin w m)
     in if T = PT_B \<and> available div w < unat n \<and> 4 \<le> available mod w then Inl Undefined_Behaviour
        else Inr (begin + w * m, distances @ map fst points, amplitudes @ map snd points))"
  using assms by (rule retrievePayload_eq)

theorem payload_extraction_witness:
  "retrievePayload PT_A [1, 0, 0, 0, 255, 255, 255, 255, 7] 0 5 ([], []) = Inr (8, [1, 0], [0, 0])
   \<and> retrievePayload PT_B [1, 0, 0, 0, 9, 0, 1, 2, 3, 4] 0 2 ([], []) = Inl Undefined_Behaviour"
proof -
  have two: "offsets 0 4 2 = [0, 4]" by (simp add: numeral_2_eq_2)
  show ?thesis
    using payload_extraction [of 0 "[1, 0, 0, 0, 255, 255, 255, 255, 7]" PT_A 5 "[]" "[]"]
      payload_extraction [of 0 "[1, 0, 0, 0, 9, 0, 1, 2, 3, 4]" PT_B 2 "[]" "[]"]
    by (simp add: Let_def two u32_at_def u32_of_def measure_of_def uint32_quiet_NaN_def
        del: retrievePayload.simps)
qed

end
