(* ===== verification/Scan_Factory.thy ===== *)
theory Scan_Factory
  imports Wire_Data "HOL-Library.Multiset"
begin

text \<open>
  The scan factories: the abstract class \<open>ScanFactory\<close> of \<open>include/DataLink/DataLink.hpp\<close> and its two
  implementations, \<open>TcpScanFactory\<close> (\<open>include/DataLink/TCPLink.hpp\<close>) and \<open>UdpScanFactory\<close>
  (\<open>include/DataLink/UDPLink.hpp\<close>). The virtual functions are the fields of \<open>factory_ops\<close>; code
  that works on any factory takes that record. The contract the base class documents is the locale
  \<open>scan_factory\<close>, interpreted for both implementations.
\<close>

section \<open>The interface\<close>

record 'f factory_ops =
  fo_addPacket :: "Header \<Rightarrow> u32 list \<Rightarrow> u32 list \<Rightarrow> 'f \<Rightarrow> 'f"
  fo_empty :: "'f \<Rightarrow> bool"
  fo_isComplete :: "'f \<Rightarrow> bool"
  fo_assemble :: "time_point \<Rightarrow> 'f \<Rightarrow> Scan \<times> 'f"
  fo_clear :: "'f \<Rightarrow> 'f"
  fo_equals :: "'f \<Rightarrow> u32 \<Rightarrow> bool"
  fo_differs :: "'f \<Rightarrow> u32 \<Rightarrow> bool"
  fo_getHeaders :: "'f \<Rightarrow> Header list \<Rightarrow> Header list"

text \<open>The functions the base class implements itself; the argument promotes to \<open>unsigned int\<close>.\<close>

definition isDifferentScan :: "'f factory_ops \<Rightarrow> 'f \<Rightarrow> Header \<Rightarrow> bool" where
  "isDifferentScan ops f header = fo_differs ops f (ucast (h_scanNumber header))"

definition isNewScan :: "Header \<Rightarrow> bool" where
  "isNewScan header \<longleftrightarrow> h_packetNumber header = 1"

text \<open>
  What \<open>extractScanPacketFromByteRange\<close> does to the factory before a packet is stored: a packet of
  another scan, or one that opens a scan, discards what is there.
\<close>

definition clearOnScanChange :: "'f factory_ops \<Rightarrow> Header \<Rightarrow> 'f \<Rightarrow> 'f" where
  "clearOnScanChange ops header f =
     (if \<not> fo_empty ops f \<and> (isDifferentScan ops f header \<or> isNewScan header)
      then fo_clear ops f else f)"

text \<open>The headers of one scan, of which only the oldest can open a scan.\<close>

definition one_scan :: "Header list \<Rightarrow> bool" where
  "one_scan hs \<longleftrightarrow> (\<forall>h \<in> set hs. h_scanNumber h = h_scanNumber (hd hs)) \<and>
     (\<forall>h \<in> set (tl hs). \<not> isNewScan h)"

lemma one_scan_Nil [simp]: "one_scan []"
  by (simp add: one_scan_def)

lemma one_scan_last:
  assumes "one_scan hs" and "h \<in> set hs"
  shows "h_scanNumber h = h_scanNumber (last hs)"
proof -
  have "last hs \<in> set hs" using assms(2) by (cases hs) auto
  then show ?thesis using assms by (simp add: one_scan_def)
qed

lemma one_scan_snoc:
  assumes "one_scan hs" and "hs \<noteq> [] \<Longrightarrow> h_scanNumber h = h_scanNumber (last hs) \<and> \<not> isNewScan h"
  shows "one_scan (hs @ [h])"
proof (cases hs)
  case Nil
  then show ?thesis by (simp add: one_scan_def)
next
  case (Cons x xs)
  then have "last hs \<in> set hs" by simp
  then have "h_scanNumber (last hs) = h_scanNumber x"
    using assms(1) Cons by (simp add: one_scan_def)
  then show ?thesis using assms Cons by (auto simp: one_scan_def)
qed

section \<open>The contract\<close>

text \<open>
  \<open>hdrs\<close> and \<open>count\<close> are what a factory holds: the headers in the order of arrival
  and the number of points. An assembled scan has the headers and the points the factory held, and
  the factory is empty afterwards; a complete factory has at least the points one of its headers
  announces for the scan.
\<close>

locale scan_factory =
  fixes ops :: "'f factory_ops"
    and new :: 'f
    and inv :: "'f \<Rightarrow> bool"
    and hdrs :: "'f \<Rightarrow> Header list"
    and count :: "'f \<Rightarrow> nat"
  assumes inv_new: "inv new"
    and hdrs_new: "hdrs new = []"
    and inv_add: "inv f \<Longrightarrow> length as = length ds \<Longrightarrow> inv (fo_addPacket ops h ds as f)"
    and inv_clear: "inv (fo_clear ops f)"
    and inv_assemble: "inv (snd (fo_assemble ops t f))"
    and hdrs_add: "hdrs (fo_addPacket ops h ds as f) = hdrs f @ [h]"
    and count_add: "count (fo_addPacket ops h ds as f) = count f + length ds"
    and hdrs_clear: "hdrs (fo_clear ops f) = []"
    and hdrs_assemble: "hdrs (snd (fo_assemble ops t f)) = []"
    and count_nil: "inv f \<Longrightarrow> hdrs f = [] \<Longrightarrow> count f = 0"
    and empty_iff: "fo_empty ops f \<longleftrightarrow> hdrs f = []"
    and complete_count: "inv f \<Longrightarrow> fo_isComplete ops f \<Longrightarrow>
          \<exists>h \<in> set (hdrs f). unat (h_numPointsScan h) \<le> count f"
    and differs_iff: "fo_differs ops f n \<longleftrightarrow>
          hdrs f = [] \<or> ucast (h_scanNumber (last (hdrs f))) \<noteq> n"
    and scan_headers: "mset (sc_headers (fst (fo_assemble ops t f))) = mset (hdrs f)"
    and scan_points: "inv f \<Longrightarrow> length (sc_distances (fst (fo_assemble ops t f))) = count f
          \<and> length (sc_amplitudes (fst (fo_assemble ops t f))) = count f"
    and scan_time: "sc_timestamp (fst (fo_assemble ops t f)) = t"
    and getHeaders_eq: "fo_getHeaders ops f out = out @ hdrs f"
begin

lemma clearOnScanChange_inv: "inv f \<Longrightarrow> inv (clearOnScanChange ops h f)"
  by (simp add: clearOnScanChange_def inv_clear)

lemma clearOnScanChange_one_scan:
  "one_scan (hdrs f) \<Longrightarrow> one_scan (hdrs (clearOnScanChange ops h f))"
  by (simp add: clearOnScanChange_def hdrs_clear)

lemma clearOnScanChange_kept:
  assumes "hdrs (clearOnScanChange ops h f) \<noteq> []"
  shows "h_scanNumber h = h_scanNumber (last (hdrs (clearOnScanChange ops h f)))" and "\<not> isNewScan h"
    and "clearOnScanChange ops h f = f"
proof -
  have inj: "(ucast a :: u32) = ucast b \<Longrightarrow> a = b" for a b :: u16
    by (simp add: ucast_up_eq_iff)
  show kept: "clearOnScanChange ops h f = f"
    using assms by (auto simp: clearOnScanChange_def hdrs_clear split: if_splits)
  have "hdrs f \<noteq> []" using assms kept by simp
  then have "\<not> (isDifferentScan ops f h \<or> isNewScan h)"
    using assms by (auto simp: clearOnScanChange_def empty_iff hdrs_clear split: if_splits)
  then show "h_scanNumber h = h_scanNumber (last (hdrs (clearOnScanChange ops h f)))" "\<not> isNewScan h"
    using inj kept by (auto simp: isDifferentScan_def differs_iff)
qed

lemma clearOnScanChange_idem:
  "clearOnScanChange ops h (clearOnScanChange ops h f) = clearOnScanChange ops h f"
  using empty_iff [of "fo_clear ops f"] by (auto simp: clearOnScanChange_def hdrs_clear)

text \<open>Storing a packet after the check keeps the packets of a factory within one scan.\<close>

lemma store_one_scan:
  assumes "one_scan (hdrs f)"
  shows "one_scan (hdrs (fo_addPacket ops h ds as (clearOnScanChange ops h f)))"
  unfolding hdrs_add
  using clearOnScanChange_kept [of h f] clearOnScanChange_one_scan [OF assms, of h]
  by (intro one_scan_snoc) auto

lemma store_inv:
  "inv f \<Longrightarrow> length as = length ds \<Longrightarrow> inv (fo_addPacket ops h ds as (clearOnScanChange ops h f))"
  by (simp add: inv_add clearOnScanChange_inv)

lemma scan_of_one_scan:
  assumes "one_scan (hdrs f)" and "h \<in> set (sc_headers (fst (fo_assemble ops t f)))"
    and "h' \<in> set (sc_headers (fst (fo_assemble ops t f)))"
  shows "h_scanNumber h = h_scanNumber h'"
proof -
  have "set (sc_headers (fst (fo_assemble ops t f))) = set (hdrs f)"
    using scan_headers by (metis set_mset_mset)
  then show ?thesis using assms one_scan_last by metis
qed

text \<open>
  A complete factory yields a complete scan, when the packets of the scan agree on its number of
  points.
\<close>

lemma scan_of_complete:
  assumes "inv f" and "fo_isComplete ops f"
    and "\<And>h. h \<in> set (hdrs f) \<Longrightarrow> h_numPointsScan h = n"
  shows "Scan_isComplete (fst (fo_assemble ops t f))"
proof -
  let ?s = "fst (fo_assemble ops t f)"
  have eq: "set (sc_headers ?s) = set (hdrs f)" using scan_headers by (metis set_mset_mset)
  obtain h where h: "h \<in> set (hdrs f)" "unat (h_numPointsScan h) \<le> count f"
    using complete_count [OF assms(1,2)] by blast
  then have ne: "sc_headers ?s \<noteq> []" using eq by (metis emptyE list.set(1))
  then have "hd (sc_headers ?s) \<in> set (hdrs f)" using eq hd_in_set by blast
  then show ?thesis
    using h ne assms(3) scan_points [OF assms(1)] by (simp add: Scan_isComplete_def Scan_empty_def)
qed

end

section \<open>The TCP factory\<close>

record TcpScanFactory =
  tf_distances :: "u32 list"
  tf_amplitudes :: "u32 list"
  tf_headers :: "Header list"

definition TcpScanFactory_new :: TcpScanFactory where
  "TcpScanFactory_new = \<lparr>tf_distances = [], tf_amplitudes = [], tf_headers = []\<rparr>"

definition Tcp_addPacket :: "Header \<Rightarrow> u32 list \<Rightarrow> u32 list \<Rightarrow> TcpScanFactory \<Rightarrow> TcpScanFactory" where
  "Tcp_addPacket header inputDistances inputAmplitudes f =
     f\<lparr>tf_distances := tf_distances f @ inputDistances,
       tf_amplitudes := tf_amplitudes f @ inputAmplitudes,
       tf_headers := tf_headers f @ [header]\<rparr>"

definition Tcp_empty :: "TcpScanFactory \<Rightarrow> bool" where
  "Tcp_empty f \<longleftrightarrow> tf_headers f = []"

definition Tcp_isComplete :: "TcpScanFactory \<Rightarrow> bool" where
  "Tcp_isComplete f \<longleftrightarrow> \<not> Tcp_empty f \<and>
     unat (h_numPointsScan (hd (tf_headers f))) \<le> length (tf_distances f)"

definition Tcp_clear :: "TcpScanFactory \<Rightarrow> TcpScanFactory" where
  "Tcp_clear f = f\<lparr>tf_distances := [], tf_amplitudes := [], tf_headers := []\<rparr>"

definition Tcp_assemble :: "time_point \<Rightarrow> TcpScanFactory \<Rightarrow> Scan \<times> TcpScanFactory" where
  "Tcp_assemble now f =
     (\<lparr>sc_distances = tf_distances f, sc_amplitudes = tf_amplitudes f, sc_headers = tf_headers f,
       sc_timestamp = now\<rparr>, Tcp_clear f)"

definition Tcp_equals :: "TcpScanFactory \<Rightarrow> u32 \<Rightarrow> bool" where
  "Tcp_equals f scanNumber \<longleftrightarrow>
     \<not> Tcp_empty f \<and> ucast (h_scanNumber (last (tf_headers f))) = scanNumber"

definition Tcp_differs :: "TcpScanFactory \<Rightarrow> u32 \<Rightarrow> bool" where
  "Tcp_differs f scanNumber \<longleftrightarrow> \<not> Tcp_equals f scanNumber"

definition Tcp_getHeaders :: "TcpScanFactory \<Rightarrow> Header list \<Rightarrow> Header list" where
  "Tcp_getHeaders f outputHeaders =
     (if Tcp_empty f then outputHeaders else outputHeaders @ tf_headers f)"

definition tcp_ops :: "TcpScanFactory factory_ops" where
  "tcp_ops = \<lparr>fo_addPacket = Tcp_addPacket, fo_empty = Tcp_empty, fo_isComplete = Tcp_isComplete,
     fo_assemble = Tcp_assemble, fo_clear = Tcp_clear, fo_equals = Tcp_equals,
     fo_differs = Tcp_differs, fo_getHeaders = Tcp_getHeaders\<rparr>"

definition Tcp_inv :: "TcpScanFactory \<Rightarrow> bool" where
  "Tcp_inv f \<longleftrightarrow> length (tf_amplitudes f) = length (tf_distances f) \<and>
     (tf_headers f = [] \<longrightarrow> tf_distances f = [])"

lemmas Tcp_defs = tcp_ops_def TcpScanFactory_new_def Tcp_addPacket_def Tcp_empty_def
  Tcp_isComplete_def Tcp_clear_def Tcp_assemble_def Tcp_equals_def Tcp_differs_def
  Tcp_getHeaders_def Tcp_inv_def

interpretation tcp_factory: scan_factory tcp_ops TcpScanFactory_new Tcp_inv tf_headers
    "\<lambda>f. length (tf_distances f)"
  by unfold_locales (auto simp: Tcp_defs)

section \<open>The UDP factory\<close>

type_synonym Packet = "Header \<times> u32 list \<times> u32 list"

record UdpScanFactory =
  uf_packets :: "Packet list"
  uf_numberOfPoints :: u32

definition UdpScanFactory_new :: UdpScanFactory where
  "UdpScanFactory_new = \<lparr>uf_packets = [], uf_numberOfPoints = 0\<rparr>"

definition Udp_addPacket :: "Header \<Rightarrow> u32 list \<Rightarrow> u32 list \<Rightarrow> UdpScanFactory \<Rightarrow> UdpScanFactory" where
  "Udp_addPacket header inputDistances inputAmplitudes f =
     f\<lparr>uf_numberOfPoints := uf_numberOfPoints f + of_nat (length inputDistances),
       uf_packets := uf_packets f @ [(header, inputDistances, inputAmplitudes)]\<rparr>"

definition Udp_empty :: "UdpScanFactory \<Rightarrow> bool" where
  "Udp_empty f \<longleftrightarrow> uf_packets f = []"

definition Udp_isComplete :: "UdpScanFactory \<Rightarrow> bool" where
  "Udp_isComplete f =
     (if Udp_empty f then False
      else let numPointsScan = h_numPointsScan (fst (last (uf_packets f)))
           in ucast numPointsScan \<le> uf_numberOfPoints f)"

definition Udp_clear :: "UdpScanFactory \<Rightarrow> UdpScanFactory" where
  "Udp_clear f = f\<lparr>uf_numberOfPoints := 0, uf_packets := []\<rparr>"

text \<open>
  \<open>std::sort\<close> leaves the order of packets with equal packet numbers open; the model takes the
  stable one. For distinct packet numbers the sorted list is unique.
\<close>

definition Udp_sorted :: "Packet list \<Rightarrow> Packet list" where
  "Udp_sorted packets = sort_key (\<lambda>packet. unat (h_packetNumber (fst packet))) packets"

definition Udp_assemble :: "time_point \<Rightarrow> UdpScanFactory \<Rightarrow> Scan \<times> UdpScanFactory" where
  "Udp_assemble now f =
     (let packets = Udp_sorted (uf_packets f);
          accumulatedHeaders = map fst packets;
          accumulatedDistances = concat (map (fst \<circ> snd) packets);
          accumulatedAmplitudes = concat (map (snd \<circ> snd) packets)
      in (\<lparr>sc_distances = accumulatedDistances, sc_amplitudes = accumulatedAmplitudes,
           sc_headers = accumulatedHeaders, sc_timestamp = now\<rparr>,
          Udp_clear (f\<lparr>uf_packets := packets\<rparr>)))"

definition Udp_equals :: "UdpScanFactory \<Rightarrow> u32 \<Rightarrow> bool" where
  "Udp_equals f scanNumber =
     (if Udp_empty f then False
      else ucast (h_scanNumber (fst (last (uf_packets f)))) = scanNumber)"

definition Udp_differs :: "UdpScanFactory \<Rightarrow> u32 \<Rightarrow> bool" where
  "Udp_differs f scanNumber \<longleftrightarrow> \<not> Udp_equals f scanNumber"

definition Udp_getHeaders :: "UdpScanFactory \<Rightarrow> Header list \<Rightarrow> Header list" where
  "Udp_getHeaders f outputHeaders =
     (if Udp_empty f then outputHeaders else outputHeaders @ map fst (uf_packets f))"

definition udp_ops :: "UdpScanFactory factory_ops" where
  "udp_ops = \<lparr>fo_addPacket = Udp_addPacket, fo_empty = Udp_empty, fo_isComplete = Udp_isComplete,
     fo_assemble = Udp_assemble, fo_clear = Udp_clear, fo_equals = Udp_equals,
     fo_differs = Udp_differs, fo_getHeaders = Udp_getHeaders\<rparr>"

definition Udp_count :: "UdpScanFactory \<Rightarrow> nat" where
  "Udp_count f = (\<Sum>packet \<leftarrow> uf_packets f. length (fst (snd packet)))"

definition Udp_inv :: "UdpScanFactory \<Rightarrow> bool" where
  "Udp_inv f \<longleftrightarrow> uf_numberOfPoints f = of_nat (Udp_count f) \<and>
     (\<forall>(h, ds, as) \<in> set (uf_packets f). length as = length ds)"

lemmas Udp_defs = udp_ops_def UdpScanFactory_new_def Udp_addPacket_def Udp_empty_def
  Udp_isComplete_def Udp_clear_def Udp_assemble_def Udp_equals_def Udp_differs_def
  Udp_getHeaders_def Udp_inv_def Udp_count_def Let_def

lemma mset_Udp_sorted [simp]: "mset (Udp_sorted ps) = mset ps"
  by (simp add: Udp_sorted_def)

lemma set_Udp_sorted [simp]: "set (Udp_sorted ps) = set ps"
  by (simp add: Udp_sorted_def)

lemma sum_list_Udp_sorted:
  fixes f :: "Packet \<Rightarrow> nat"
  shows "sum_list (map f (Udp_sorted ps)) = sum_list (map f ps)"
proof -
  have "mset (map f (Udp_sorted ps)) = mset (map f ps)" by simp
  then show ?thesis by (metis sum_mset_sum_list)
qed

lemma length_concat_Udp_sorted:
  "length (concat (map (fst \<circ> snd) (Udp_sorted ps))) = (\<Sum>p \<leftarrow> ps. length (fst (snd p)))"
  by (simp add: length_concat comp_def sum_list_Udp_sorted)

lemma Udp_amplitudes_length:
  assumes "\<forall>(h, ds, as) \<in> set ps. length as = length ds"
  shows "length (concat (map (snd \<circ> snd) (Udp_sorted ps))) = (\<Sum>p \<leftarrow> ps. length (fst (snd p)))"
proof -
  have "map (length \<circ> (snd \<circ> snd)) (Udp_sorted ps) = map (length \<circ> (fst \<circ> snd)) (Udp_sorted ps)"
    using assms by (intro map_cong) (auto simp: split_beta)
  then have "length (concat (map (snd \<circ> snd) (Udp_sorted ps)))
      = length (concat (map (fst \<circ> snd) (Udp_sorted ps)))"
    by (simp only: length_concat map_map)
  then show ?thesis using length_concat_Udp_sorted by simp
qed

lemma Udp_complete_count:
  assumes "Udp_inv f" and "Udp_isComplete f"
  shows "\<exists>h \<in> set (map fst (uf_packets f)). unat (h_numPointsScan h) \<le> Udp_count f"
proof -
  let ?h = "fst (last (uf_packets f))"
  have ne: "uf_packets f \<noteq> []" and le: "ucast (h_numPointsScan ?h) \<le> uf_numberOfPoints f"
    using assms(2) by (auto simp: Udp_isComplete_def Udp_empty_def Let_def split: if_splits)
  have "unat (h_numPointsScan ?h) = unat (ucast (h_numPointsScan ?h) :: u32)"
    by (simp add: unat_ucast_up)
  also have "\<dots> \<le> unat (uf_numberOfPoints f)" using le by (simp add: word_le_nat_alt)
  also have "\<dots> \<le> Udp_count f"
    using assms(1) by (simp add: Udp_inv_def unat_of_nat)
  finally show ?thesis using ne by (intro bexI [of _ ?h]) auto
qed

interpretation udp_factory: scan_factory udp_ops UdpScanFactory_new Udp_inv
    "\<lambda>f. map fst (uf_packets f)" Udp_count
proof unfold_locales
  show "\<exists>h \<in> set (map fst (uf_packets f)). unat (h_numPointsScan h) \<le> Udp_count f"
    if "Udp_inv f" and "fo_isComplete udp_ops f" for f
    using that Udp_complete_count by (simp add: udp_ops_def)
  show "length (sc_distances (fst (fo_assemble udp_ops t f))) = Udp_count f
      \<and> length (sc_amplitudes (fst (fo_assemble udp_ops t f))) = Udp_count f"
    if "Udp_inv f" for t f
    using that length_concat_Udp_sorted Udp_amplitudes_length
    by (simp add: Udp_defs del: length_concat)
qed (auto simp: Udp_defs last_map)

text \<open>For distinct packet numbers every sorted permutation is the one of the model.\<close>

lemma Udp_sorted_unique:
  assumes "distinct (map (\<lambda>packet. h_packetNumber (fst packet)) packets)"
    and "mset qs = mset packets" and "sorted (map (\<lambda>packet. unat (h_packetNumber (fst packet))) qs)"
  shows "Udp_sorted packets = qs"
proof -
  have "inj_on (\<lambda>packet. h_packetNumber (fst packet)) (set packets)"
    using assms(1) by (simp add: distinct_map)
  then have "inj_on (\<lambda>packet. unat (h_packetNumber (fst packet))) (set packets)"
    unfolding inj_on_def by (metis word_unat_eq_iff)
  then show ?thesis
    unfolding Udp_sorted_def using assms by (intro sort_key_inj_key_eq) simp_all
qed

lemma sorted_Udp_sorted: "sorted (map (\<lambda>packet. unat (h_packetNumber (fst packet))) (Udp_sorted packets))"
  by (simp add: Udp_sorted_def)

section \<open>Properties\<close>

text \<open>
  The packets of a UDP scan are assembled by packet number: headers, distances and amplitudes of the
  scan are those of any list of the received packets sorted by packet number, so that packets
  with distinct packet numbers make the same scan in whatever order they were received, and however
  \<open>std::sort\<close> proceeds. The factory is empty afterwards.
\<close>

theorem udp_scan_in_packet_order:
  assumes "distinct (map (\<lambda>packet. h_packetNumber (fst packet)) (uf_packets f))"
    and "mset packets = mset (uf_packets f)"
    and "sorted (map (\<lambda>packet. unat (h_packetNumber (fst packet))) packets)"
  shows "Udp_assemble now f =
    (\<lparr>sc_distances = concat (map (\<lambda>(h, ds, as). ds) packets),
      sc_amplitudes = concat (map (\<lambda>(h, ds, as). as) packets),
      sc_headers = map (\<lambda>(h, ds, as). h) packets, sc_timestamp = now\<rparr>,
     f\<lparr>uf_packets := [], uf_numberOfPoints := 0\<rparr>)"
proof -
  have "Udp_sorted (uf_packets f) = packets" using assms by (intro Udp_sorted_unique) simp_all
  then show ?thesis by (simp add: Udp_assemble_def Udp_clear_def comp_def case_prod_unfold Let_def)
qed

theorem udp_scan_in_packet_order_witness:
  "\<exists>h1 h2. h_packetNumber h1 = 1 \<and> h_packetNumber h2 = 2 \<and>
    sc_distances (fst (Udp_assemble 7 \<lparr>uf_packets = [(h2, [30], [3]), (h1, [10, 20], [1, 2])],
      uf_numberOfPoints = 3\<rparr>)) = [10, 20, 30]"
proof -
  fix h :: Header
  let ?h1 = "h\<lparr>h_packetNumber := 1\<rparr>" and ?h2 = "h\<lparr>h_packetNumber := 2\<rparr>"
  have "sc_distances (fst (Udp_assemble 7 \<lparr>uf_packets = [(?h2, [30], [3]), (?h1, [10, 20], [1, 2])],
      uf_numberOfPoints = 3\<rparr>)) = [10, 20, 30]"
    by (subst udp_scan_in_packet_order [where packets = "[(?h1, [10, 20], [1, 2]), (?h2, [30], [3])]"])
      simp_all
  then show ?thesis by (intro exI [of _ ?h1] exI [of _ ?h2]) simp
qed

end
