(* ===== verification/Scan_Extraction.thy ===== *)
theory Scan_Extraction
  imports Packet_Extraction Scan_Factory Std_Strings
begin

text \<open>
  \<open>DataLink::extractScanPacketFromByteRange\<close> of \<open>include/DataLink/DataLink.hpp\<close>: one packet out of a
  byte range, into a scan factory. The factory is passed by reference, so the result pairs the
  factory as the call leaves it with what the call returns or throws.
\<close>

section \<open>Extraction of one packet\<close>

definition packet_type_of :: "u16 \<Rightarrow> PACKET_TYPE option" where
  "packet_type_of packetType =
     (if packetType = packet_type_value PT_A then Some PT_A
      else if packetType = packet_type_value PT_B then Some PT_B
      else if packetType = packet_type_value PT_C then Some PT_C
      else None)"

definition unsupported_payload :: "u16 \<Rightarrow> fault" where
  "unsupported_payload packetType =
     Runtime_Error (''DataLink::Unsupported payload type received from the device: ''
       @ nat_to_string (unat packetType))"

type_synonym extraction = "bool \<times> nat \<times> u32"

text \<open>The part of the function that follows the retrieval of the header.\<close>

definition extractPayloadOfPacket ::
  "'f factory_ops \<Rightarrow> byte list \<Rightarrow> nat \<Rightarrow> Header \<Rightarrow> 'f \<Rightarrow> 'f \<times> extraction result" where
  "extractPayloadOfPacket ops buf start header f =
     (let headerSize = h_headerSize header;
          payloadStart = start + unat headerSize;
          numberOfPoints = h_numPointsPacket header;
          packetType = h_packetType header;
          payloadSize = h_packetSize header - ucast headerSize;
          numberOfBytesAvailable = int (length buf) - int payloadStart;
          f1 = clearOnScanChange ops header f
      in if numberOfBytesAvailable < int (unat payloadSize)
         then (f1, Inr (False, start,
                 word_of_int (int (unat payloadSize) - numberOfBytesAvailable)))
         else (case packet_type_of packetType of
                 None \<Rightarrow> (f1, Inl (unsupported_payload packetType))
               | Some T \<Rightarrow>
                   (case retrievePayload T buf payloadStart (ucast numberOfPoints) ([], []) of
                      Inl e \<Rightarrow> (f1, Inl e)
                    | Inr (payloadEndPosition, distances, amplitudes) \<Rightarrow>
                        (fo_addPacket ops header distances amplitudes f1,
                         Inr (True, payloadEndPosition, 0)))))"

definition extractScanPacketFromByteRange ::
  "'f factory_ops \<Rightarrow> byte list \<Rightarrow> nat \<Rightarrow> 'f \<Rightarrow> 'f \<times> extraction result" where
  "extractScanPacketFromByteRange ops buf begin f =
     (case retrievePacketHeader buf begin of
        Inl e \<Rightarrow> (f, Inl e)
      | Inr result \<Rightarrow> (case result of
            None \<Rightarrow> (f, Inr (False, length buf, 0))
          | Some (start, header) \<Rightarrow> extractPayloadOfPacket ops buf start header f))"

section \<open>Its outcomes\<close>

text \<open>
  What the function can do once it has the header: wait for more bytes, reject the type, fault in the
  payload, or store the packet. \<open>payload_missing\<close> is the comparison of the sizes.
\<close>

definition payload_size :: "Header \<Rightarrow> nat" where
  "payload_size h = unat (h_packetSize h - ucast (h_headerSize h) :: u32)"

definition payload_missing :: "byte list \<Rightarrow> nat \<Rightarrow> Header \<Rightarrow> bool" where
  "payload_missing buf start h \<longleftrightarrow> length buf < start + unat (h_headerSize h) + payload_size h"

lemma available_less_iff: "int n - int m < int k \<longleftrightarrow> n < m + k" for n m k :: nat
  by linarith

lemma missing_bytes_eq: "n < m + k \<Longrightarrow> int k - (int n - int m) = int (m + k - n)" for n m k :: nat
  by linarith

lemma extractPayload_missing:
  assumes "payload_missing buf start h"
  shows "extractPayloadOfPacket ops buf start h f =
    (clearOnScanChange ops h f,
     Inr (False, start, word_of_int (int (start + unat (h_headerSize h) + payload_size h - length buf))))"
  using assms
  unfolding extractPayloadOfPacket_def Let_def payload_size_def [symmetric] available_less_iff
    payload_missing_def
  by (simp only: if_True missing_bytes_eq)

lemma extractPayload_present:
  assumes "\<not> payload_missing buf start h"
  shows "extractPayloadOfPacket ops buf start h f =
    (let f1 = clearOnScanChange ops h f
     in case packet_type_of (h_packetType h) of
          None \<Rightarrow> (f1, Inl (unsupported_payload (h_packetType h)))
        | Some T \<Rightarrow> (case retrievePayload T buf (start + unat (h_headerSize h))
                         (ucast (h_numPointsPacket h)) ([], []) of
              Inl e \<Rightarrow> (f1, Inl e)
            | Inr (payloadEndPosition, ds, as) \<Rightarrow>
                (fo_addPacket ops h ds as f1, Inr (True, payloadEndPosition, 0))))"
  using assms
  unfolding extractPayloadOfPacket_def Let_def payload_size_def [symmetric] available_less_iff
    payload_missing_def
  by (simp only: if_False)

lemma retrievePayload_lengths:
  assumes "retrievePayload T buf p n ([], []) = Inr (e, ds, as)"
    and "p \<le> length buf" and "length buf < 2 ^ 64"
  shows "length as = length ds" and "p \<le> e" and "e \<le> length buf"
proof -
  let ?m = "min (unat n) ((length buf - p) div point_width T)"
  have e: "e = p + point_width T * ?m" and "length as = length ds"
    using assms by (auto simp: retrievePayload_eq Let_def simp del: min_def split: if_splits)
  then show "length as = length ds" "p \<le> e" by simp_all
  have "point_width T * ?m \<le> point_width T * ((length buf - p) div point_width T)"
    by (intro mult_le_mono2) simp
  also have "\<dots> \<le> length buf - p" by simp
  finally show "e \<le> length buf" using e assms(2) by simp
qed

text \<open>The factory is left alone, cleared on a change of scan, or holds one packet more.\<close>

lemma extractPayload_factory_cases:
  assumes "length buf < 2 ^ 64"
  obtains (cleared) "fst (extractPayloadOfPacket ops buf start h f) = clearOnScanChange ops h f"
  | (stored) ds as where "length as = length ds"
      "fst (extractPayloadOfPacket ops buf start h f)
        = fo_addPacket ops h ds as (clearOnScanChange ops h f)"
proof (cases "payload_missing buf start h")
  case True
  then show thesis by (simp add: extractPayload_missing cleared)
next
  case False
  then have range: "start + unat (h_headerSize h) \<le> length buf" by (simp add: payload_missing_def)
  show thesis
  proof (cases "packet_type_of (h_packetType h)")
    case None
    with False show thesis by (simp add: extractPayload_present cleared)
  next
    case (Some T)
    let ?r = "retrievePayload T buf (start + unat (h_headerSize h)) (ucast (h_numPointsPacket h)) ([], [])"
    show thesis
    proof (cases ?r)
      case (Inl e)
      with False Some show thesis by (simp add: extractPayload_present cleared)
    next
      case (Inr x)
      obtain e ds as where x: "x = (e, ds, as)" by (cases x)
      then have "length as = length ds" using Inr range assms retrievePayload_lengths by blast
      with False Some Inr x show thesis by (intro stored) (simp_all add: extractPayload_present)
    qed
  qed
qed

lemma extract_factory_cases:
  assumes "length buf < 2 ^ 64"
  obtains (same) "fst (extractScanPacketFromByteRange ops buf begin f) = f"
  | (cleared) h where "fst (extractScanPacketFromByteRange ops buf begin f) = clearOnScanChange ops h f"
  | (stored) h ds as where "length as = length ds"
      "fst (extractScanPacketFromByteRange ops buf begin f)
        = fo_addPacket ops h ds as (clearOnScanChange ops h f)"
proof (cases "\<exists>start h. retrievePacketHeader buf begin = Inr (Some (start, h))")
  case True
  then obtain start h where "retrievePacketHeader buf begin = Inr (Some (start, h))" by blast
  then have "extractScanPacketFromByteRange ops buf begin f = extractPayloadOfPacket ops buf start h f"
    by (simp add: extractScanPacketFromByteRange_def)
  then show thesis
    using extractPayload_factory_cases [OF assms, of ops start h f] cleared stored by metis
next
  case False
  then have "fst (extractScanPacketFromByteRange ops buf begin f) = f"
    by (auto simp: extractScanPacketFromByteRange_def split: sum.splits option.splits)
  then show thesis by (rule same)
qed

text \<open>Where the call leaves the position.\<close>

lemma extractPayload_True:
  assumes "snd (extractPayloadOfPacket ops buf start h f) = Inr (True, p, m)" and "length buf < 2 ^ 64"
  shows "m = 0" and "start + unat (h_headerSize h) \<le> p" and "p \<le> length buf"
    and "\<not> payload_missing buf start h"
    and "\<exists>ds as. fst (extractPayloadOfPacket ops buf start h f)
        = fo_addPacket ops h ds as (clearOnScanChange ops h f)"
proof -
  show present: "\<not> payload_missing buf start h"
    using assms(1) by (auto simp: extractPayload_missing)
  then have range: "start + unat (h_headerSize h) \<le> length buf" by (simp add: payload_missing_def)
  obtain T ds as where r: "retrievePayload T buf (start + unat (h_headerSize h))
      (ucast (h_numPointsPacket h)) ([], []) = Inr (p, ds, as)" and "m = 0"
    and "fst (extractPayloadOfPacket ops buf start h f) = fo_addPacket ops h ds as (clearOnScanChange ops h f)"
    using assms(1) present
    by (auto simp: extractPayload_present Let_def split: option.splits sum.splits prod.splits)
  then show "m = 0" "\<exists>ds as. fst (extractPayloadOfPacket ops buf start h f)
        = fo_addPacket ops h ds as (clearOnScanChange ops h f)" by blast+
  show "start + unat (h_headerSize h) \<le> p" "p \<le> length buf"
    using retrievePayload_lengths [OF r range assms(2)] by simp_all
qed

lemma extract_True:
  assumes "snd (extractScanPacketFromByteRange ops buf begin f) = Inr (True, p, m)"
    and "begin \<le> length buf" and "length buf < 2 ^ 32"
  shows "\<exists>start h. retrievePacketHeader buf begin = Inr (Some (start, h)) \<and>
    extractScanPacketFromByteRange ops buf begin f = extractPayloadOfPacket ops buf start h f \<and>
    begin \<le> start \<and> start + unat (h_headerSize h) \<le> p \<and> p \<le> length buf \<and> m = 0 \<and>
    \<not> payload_missing buf start h"
proof -
  obtain start h where r: "retrievePacketHeader buf begin = Inr (Some (start, h))"
    using assms(1) by (auto simp: extractScanPacketFromByteRange_def split: sum.splits option.splits)
  then have eq: "extractScanPacketFromByteRange ops buf begin f = extractPayloadOfPacket ops buf start h f"
    by (simp add: extractScanPacketFromByteRange_def)
  have "length buf < 2 ^ 64" using assms(3) by simp
  from extractPayload_True [OF _ this] assms(1) eq r retrievePacketHeader_Some(1) [OF r assms(2,3)]
  show ?thesis by metis
qed

lemma extract_False:
  assumes "snd (extractScanPacketFromByteRange ops buf begin f) = Inr (False, p, m)"
    and "begin \<le> length buf" and "length buf < 2 ^ 32"
  shows "p = length buf \<and> m = 0 \<or>
    (\<exists>h. retrievePacketHeader buf begin = Inr (Some (p, h)) \<and> payload_missing buf p h \<and>
      begin \<le> p \<and> p < length buf \<and>
      m = word_of_int (int (p + unat (h_headerSize h) + payload_size h - length buf)))"
proof (cases "\<exists>start h. retrievePacketHeader buf begin = Inr (Some (start, h))")
  case True
  then obtain start h where r: "retrievePacketHeader buf begin = Inr (Some (start, h))" by blast
  then have eq: "extractScanPacketFromByteRange ops buf begin f = extractPayloadOfPacket ops buf start h f"
    by (simp add: extractScanPacketFromByteRange_def)
  have "payload_missing buf start h"
    using assms(1) eq
    by (rule_tac ccontr) (auto simp: extractPayload_present Let_def split: option.splits sum.splits prod.splits)
  then show ?thesis
    using r eq assms(1) retrievePacketHeader_Some [OF r assms(2,3)] by (auto simp: extractPayload_missing)
next
  case False
  then show ?thesis
    using assms(1) by (auto simp: extractScanPacketFromByteRange_def split: sum.splits option.splits)
qed

section \<open>Packets as the device sends them\<close>

text \<open>
  The specification of the stream: a header, padding up to the header size, and the points. A point
  is a distance with an amplitude; type A drops the amplitude and type C packs both into 32 bits.
\<close>

fun point_bytes :: "PACKET_TYPE \<Rightarrow> u32 \<times> u16 \<Rightarrow> byte list" where
  "point_bytes PT_A (d, a) = bytes_u32 d"
| "point_bytes PT_B (d, a) = bytes_u32 d @ bytes_u16 a"
| "point_bytes PT_C (d, a) = bytes_u32 (d OR push_bit 20 (ucast a))"

fun point_ok :: "PACKET_TYPE \<Rightarrow> u32 \<times> u16 \<Rightarrow> bool" where
  "point_ok PT_C (d, a) \<longleftrightarrow> d < 2 ^ 20 \<and> a < 2 ^ 12"
| "point_ok T p \<longleftrightarrow> True"

fun point_value :: "PACKET_TYPE \<Rightarrow> u32 \<times> u16 \<Rightarrow> u32 \<times> u32" where
  "point_value PT_A (d, a) = (measure_of 0xFFFFFFFF d, 0)"
| "point_value PT_B (d, a) = (measure_of 0xFFFFFFFF d, ucast a)"
| "point_value PT_C (d, a) = (measure_of 0xFFFFF d, ucast a)"

definition packet_bytes :: "PACKET_TYPE \<Rightarrow> Header \<Rightarrow> byte list \<Rightarrow> (u32 \<times> u16) list \<Rightarrow> byte list" where
  "packet_bytes T h padding pts = header_bytes h @ padding @ concat (map (point_bytes T) pts)"

definition well_formed :: "PACKET_TYPE \<Rightarrow> Header \<Rightarrow> byte list \<Rightarrow> (u32 \<times> u16) list \<Rightarrow> bool" where
  "well_formed T h padding pts \<longleftrightarrow>
     h_magic h = PACKET_MAGIC_START \<and> h_packetType h = packet_type_value T \<and>
     unat (h_headerSize h) = 76 + length padding \<and>
     unat (h_packetSize h) = 76 + length padding + point_width T * length pts \<and>
     unat (h_numPointsPacket h) = length pts \<and> (\<forall>p \<in> set pts. point_ok T p)"

lemma length_point_bytes [simp, width_simps]: "length (point_bytes T p) = point_width T"
  by (cases "(T, p)" rule: point_bytes.cases) simp_all

lemma length_points [simp, width_simps]:
  "length (concat (map (point_bytes T) pts)) = point_width T * length pts"
  by (induction pts) simp_all

lemma length_packet_bytes:
  "well_formed T h padding pts \<Longrightarrow> length (packet_bytes T h padding pts) = unat (h_packetSize h)"
  by (simp add: packet_bytes_def well_formed_def)

lemma packet_type_of_value [simp]: "packet_type_of (packet_type_value T) = Some T"
  by (cases T) (simp_all add: packet_type_of_def)

lemma u32_at_bytes: "drop p buf = bytes_u32 w @ rest \<Longrightarrow> u32_at buf p = w"
  using peek_u32_eq [of buf p] interpret_u32_bytes [of p buf w rest False]
  by (auto simp: interpret_u32_eq u32_at_def split: if_splits)

lemma u16_at_bytes: "drop p buf = bytes_u16 w @ rest \<Longrightarrow> u16_at buf p = w"
  using interpret_u16_bytes [of p buf w rest False]
  by (auto simp: interpret_u16_eq u16_at_def split: if_splits)

lemma packed_point:
  fixes d :: u32 and a :: u16
  assumes "d < 2 ^ 20" and "a < 2 ^ 12"
  shows "(d OR push_bit 20 (ucast a)) AND 0xFFFFF = d"
    and "drop_bit 20 ((d OR push_bit 20 (ucast a)) AND 0xFFF00000) = ucast a"
proof -
  have "unat d < 2 ^ 20" "unat a < 2 ^ 12" using assms by (simp_all add: word_less_nat_alt)
  then have d: "\<And>n. bit d n \<Longrightarrow> n < 20" and a: "\<And>n. bit a n \<Longrightarrow> n < 12"
    by (auto intro: bit_less_exp)
  have m: "(0xFFFFF :: u32) = mask 20" "(0xFFF00000 :: u32) = push_bit 20 (mask 12)"
    by (simp_all add: mask_eq_exp_minus_1 push_bit_eq_mult)
  show "(d OR push_bit 20 (ucast a)) AND 0xFFFFF = d"
    unfolding m by (rule bit_word_eqI) (auto simp: bit_simps dest: d)
  show "drop_bit 20 ((d OR push_bit 20 (ucast a)) AND 0xFFF00000) = ucast a"
    unfolding m by (rule bit_word_eqI) (auto simp: bit_simps dest: d a)
qed

lemma point_at_bytes:
  assumes "drop p buf = point_bytes T x @ rest" and "point_ok T x"
  shows "point_at T buf p = point_value T x"
proof (cases T)
  case PT_A
  with assms show ?thesis by (cases x) (simp add: u32_at_bytes)
next
  case PT_B
  obtain d a where x: "x = (d, a)" by (cases x)
  have d: "drop p buf = bytes_u32 d @ bytes_u16 a @ rest" using assms(1) PT_B x by simp
  then have "drop (p + 4) buf = bytes_u16 a @ rest" by (rule drop_advance_eq) simp
  then show ?thesis using PT_B x d by (simp add: u32_at_bytes u16_at_bytes)
next
  case PT_C
  obtain d a where x: "x = (d, a)" by (cases x)
  then have ok: "d < 2 ^ 20" "a < 2 ^ 12" using assms(2) PT_C by simp_all
  have "u32_at buf p = d OR push_bit 20 (ucast a)" using assms(1) PT_C x by (simp add: u32_at_bytes)
  then show ?thesis
    unfolding PT_C x point_at.simps point_value.simps by (simp only: packed_point [OF ok])
qed

lemma points_at_bytes:
  assumes "drop p buf = concat (map (point_bytes T) pts) @ rest" and "\<forall>x \<in> set pts. point_ok T x"
  shows "map (point_at T buf) (offsets p (point_width T) (length pts)) = map (point_value T) pts"
  using assms
proof (induction pts arbitrary: p)
  case (Cons x pts)
  then have "drop p buf = point_bytes T x @ concat (map (point_bytes T) pts) @ rest" by simp
  moreover from this have "drop (p + point_width T) buf = concat (map (point_bytes T) pts) @ rest"
    by (rule drop_advance_eq) simp
  ultimately show ?case using Cons by (auto intro: point_at_bytes)
qed simp

lemma retrievePayload_bytes:
  assumes "drop p buf = concat (map (point_bytes T) pts) @ rest" and "\<forall>x \<in> set pts. point_ok T x"
    and "unat n = length pts" and "length buf < 2 ^ 64" and "p \<le> length buf"
  shows "retrievePayload T buf p n ([], []) =
    Inr (p + point_width T * length pts, map (fst \<circ> point_value T) pts, map (snd \<circ> point_value T) pts)"
proof -
  have "length buf - p = point_width T * length pts + length rest"
    using arg_cong [OF assms(1), of length] by simp
  moreover have "0 < point_width T" by (cases T) simp_all
  ultimately have "length pts \<le> (length buf - p) div point_width T"
    by (simp add: less_eq_div_iff_mult_less_eq)
  moreover have "T = PT_B \<Longrightarrow> point_width T = 6" by simp
  ultimately show ?thesis
    using assms points_at_bytes [OF assms(1,2)]
    by (auto simp: retrievePayload_eq Let_def min_def simp flip: map_map)
qed

text \<open>The extraction of a packet whose bytes start the range.\<close>

lemma header_bytes_magic:
  assumes "drop begin buf = header_bytes h @ rest" and "h_magic h = PACKET_MAGIC_START"
  shows "magic_at buf begin"
proof -
  have "interpret_u16 False buf begin = Inr (PACKET_MAGIC_START, begin)"
    using assms interpret_u16_bytes [of "begin" buf "h_magic h" _ False] by (simp add: header_bytes_def)
  then have "begin + 2 \<le> length buf" "u16_of (buf ! begin) (buf ! (begin + 1)) = PACKET_MAGIC_START"
    by (auto simp: interpret_u16_eq split: if_splits)
  then show ?thesis by (simp add: magic_at_def u16_of_magic_iff)
qed

lemma retrievePacketHeader_bytes:
  assumes "drop begin buf = header_bytes h @ rest" and "h_magic h = PACKET_MAGIC_START"
    and "begin + 80 \<le> length buf" and "length buf < 2 ^ 32"
  shows "retrievePacketHeader buf begin = Inr (Some (begin, h))"
proof -
  have "[begin..<length buf - 1] = begin # [Suc begin..<length buf - 1]"
    using assms(3) by (simp add: upt_rec)
  then have "find (magic_at buf) [begin..<length buf - 1] = Some begin"
    using header_bytes_magic [OF assms(1,2)] by simp
  then show ?thesis
    using assms Header_fromByteRange_bytes [OF assms(1)] by (simp add: retrievePacketHeader_eq)
qed

lemma well_formed_payload_size:
  assumes "well_formed T h padding pts"
  shows "payload_size h = point_width T * length pts"
proof -
  have "unat (ucast (h_headerSize h) :: u32) = 76 + length padding"
    using assms by (simp add: well_formed_def unat_ucast_up)
  moreover have "unat (h_packetSize h) = 76 + length padding + point_width T * length pts"
    using assms by (simp add: well_formed_def)
  ultimately show ?thesis unfolding payload_size_def by (simp add: unat_sub_if_size)
qed

lemma extract_complete_packet:
  assumes "drop begin buf = packet_bytes T h padding pts @ rest" and "well_formed T h padding pts"
    and "begin + 80 \<le> length buf" and "length buf < 2 ^ 32"
  shows "extractScanPacketFromByteRange ops buf begin f =
    (fo_addPacket ops h (map (fst \<circ> point_value T) pts) (map (snd \<circ> point_value T) pts)
       (clearOnScanChange ops h f),
     Inr (True, begin + unat (h_packetSize h), 0))"
proof -
  let ?start = "begin + unat (h_headerSize h)"
  have hdr: "drop begin buf = header_bytes h @ padding @ concat (map (point_bytes T) pts) @ rest"
    using assms(1) by (simp add: packet_bytes_def)
  have "drop (begin + 76) buf = padding @ concat (map (point_bytes T) pts) @ rest"
    using hdr by (rule drop_advance_eq) simp
  then have "drop (begin + 76 + length padding) buf = concat (map (point_bytes T) pts) @ rest"
    by (rule drop_advance)
  then have pay: "drop ?start buf = concat (map (point_bytes T) pts) @ rest"
    using assms(2) by (simp add: well_formed_def add.assoc)
  have "length buf - begin = unat (h_packetSize h) + length rest"
    using arg_cong [OF assms(1), of length] length_packet_bytes [OF assms(2)] by simp
  then have present: "\<not> payload_missing buf begin h" and range: "?start \<le> length buf"
    using assms(2,3) well_formed_payload_size [OF assms(2)]
    by (auto simp: payload_missing_def well_formed_def)
  have "unat (ucast (h_numPointsPacket h) :: u32) = length pts"
    using assms(2) by (simp add: well_formed_def unat_ucast_up)
  then have "retrievePayload T buf ?start (ucast (h_numPointsPacket h)) ([], []) =
    Inr (?start + point_width T * length pts, map (fst \<circ> point_value T) pts, map (snd \<circ> point_value T) pts)"
    using pay range assms by (intro retrievePayload_bytes) (auto simp: well_formed_def)
  moreover have "h_packetType h = packet_type_value T"
    and "?start + point_width T * length pts = begin + unat (h_packetSize h)"
    using assms(2) by (simp_all add: well_formed_def)
  ultimately have "extractPayloadOfPacket ops buf begin h f =
    (fo_addPacket ops h (map (fst \<circ> point_value T) pts) (map (snd \<circ> point_value T) pts)
       (clearOnScanChange ops h f),
     Inr (True, begin + unat (h_packetSize h), 0))"
    using present by (simp add: extractPayload_present Let_def)
  then show ?thesis
    using retrievePacketHeader_bytes [OF hdr _ assms(3,4)] assms(2)
    by (simp add: extractScanPacketFromByteRange_def well_formed_def)
qed

text \<open>The extraction of a packet of which only a prefix has arrived.\<close>

lemma extract_incomplete_packet:
  assumes "drop begin buf @ missing = packet_bytes T h padding pts" and "well_formed T h padding pts"
    and "missing \<noteq> []" and "begin + 80 \<le> length buf" and "length buf < 2 ^ 32"
  shows "extractScanPacketFromByteRange ops buf begin f =
    (clearOnScanChange ops h f, Inr (False, begin, of_nat (length missing)))"
proof -
  have "length (header_bytes h) \<le> length (drop begin buf)" using assms(4) by simp
  then obtain rest where hdr: "drop begin buf = header_bytes h @ rest"
    using assms(1) unfolding packet_bytes_def by (metis append_eq_append_conv_if append_take_drop_id)
  have len: "length buf - begin + length missing = unat (h_packetSize h)"
    using arg_cong [OF assms(1), of length] length_packet_bytes [OF assms(2)] by simp
  moreover have "Suc 0 \<le> length missing" using assms(3) by (cases missing) auto
  ultimately have miss: "payload_missing buf begin h"
    and "begin + unat (h_headerSize h) + payload_size h - length buf = length missing"
    using assms(2,4) well_formed_payload_size [OF assms(2)]
    by (auto simp: payload_missing_def well_formed_def)
  then have "extractPayloadOfPacket ops buf begin h f =
      (clearOnScanChange ops h f, Inr (False, begin, of_nat (length missing)))"
    by (simp only: extractPayload_missing [OF miss]) simp
  then show ?thesis
    using retrievePacketHeader_bytes [OF hdr _ assms(4,5)] assms(2)
    by (simp add: extractScanPacketFromByteRange_def well_formed_def)
qed

lemma short_range_skipped:
  assumes "begin \<le> length buf" and "length buf - begin < sizeof_Header" and "length buf < 2 ^ 32"
  shows "extractScanPacketFromByteRange ops buf begin f = (f, Inr (False, length buf, 0))"
  using assms by (simp add: extractScanPacketFromByteRange_def retrievePacketHeader_short)

section \<open>Properties\<close>

text \<open>A header and a packet of type C with two points, for the instances below.\<close>

definition example_header :: "u16 \<Rightarrow> u16 \<Rightarrow> u16 \<Rightarrow> Header" where
  "example_header scanNumber packetNumber pointsOfScan =
     \<lparr>h_magic = 0xa25c, h_packetType = 0x43, h_packetSize = 84, h_headerSize = 76,
      h_scanNumber = scanNumber, h_packetNumber = packetNumber, h_timestampRaw = 0,
      h_timestampSync = 0, h_statusFlags = 0, h_scanFrequency = 35000,
      h_numPointsScan = pointsOfScan, h_numPointsPacket = 2, h_firstIndex = 0, h_firstAngle = - 1800000,
      h_angularIncrement = 1000, h_iqInput = 0, h_iqOverload = 0, h_iqTimestampRaw = 0,
      h_iqTimestampSync = 0\<rparr>"

lemma example_header_fields [simp]:
  "h_magic (example_header s p n) = 0xa25c" "h_packetType (example_header s p n) = 0x43"
  "h_packetSize (example_header s p n) = 84" "h_headerSize (example_header s p n) = 76"
  "h_scanNumber (example_header s p n) = s" "h_packetNumber (example_header s p n) = p"
  "h_numPointsScan (example_header s p n) = n" "h_numPointsPacket (example_header s p n) = 2"
  by (simp_all add: example_header_def)

definition example_points :: "(u32 \<times> u16) list" where
  "example_points = [(1234, 500), (0xFFFFF, 32)]"

lemma example_well_formed: "well_formed PT_C (example_header s p n) [] example_points"
  by (simp add: well_formed_def example_points_def PACKET_MAGIC_START_def)

lemma length_example_packet [simp]:
  "length (packet_bytes PT_C (example_header s p n) [] example_points) = 84"
  by (simp add: packet_bytes_def example_points_def)

lemma example_values:
  "map (fst \<circ> point_value PT_C) example_points = [1234, 0]"
  "map (snd \<circ> point_value PT_C) example_points = [500, 32]"
  by (simp_all add: example_points_def measure_of_def uint32_quiet_NaN_def)

lemma Tcp_example_store:
  "fo_addPacket tcp_ops h ds as (clearOnScanChange tcp_ops h TcpScanFactory_new) =
   \<lparr>tf_distances = ds, tf_amplitudes = as, tf_headers = [h]\<rparr>"
  by (simp add: Tcp_defs clearOnScanChange_def)

text \<open>
  C11: A well-formed packet of type A, B or C at the start of the range is extracted whole when the range holds
  at least 80 bytes, whatever follows it: the call stores its header, its distances and its amplitudes in
  the factory (after discarding an older scan), with the invalid measures replaced, and returns the
  position just after the packet. When the range holds fewer, which a packet of 76 to 79 bytes allows, the
  packet is given up although all of it is there: the factory stays, and the position is the end.
\<close>

theorem well_formed_packet_extracted:
  assumes "well_formed T h padding pts"
    and "length (before @ packet_bytes T h padding pts @ after) < 2 ^ 32"
  shows "extractScanPacketFromByteRange ops (before @ packet_bytes T h padding pts @ after) (length before) f =
    (if 80 \<le> length (packet_bytes T h padding pts @ after)
     then (fo_addPacket ops h (map (fst \<circ> point_value T) pts) (map (snd \<circ> point_value T) pts)
             (clearOnScanChange ops h f),
           Inr (True, length before + unat (h_packetSize h), 0))
     else (f, Inr (False, length (before @ packet_bytes T h padding pts @ after), 0)))"
proof (cases "80 \<le> length (packet_bytes T h padding pts @ after)")
  case True
  with assms show ?thesis by (simp only: if_True) (intro extract_complete_packet [where rest = after and padding = padding]; simp)
next
  case False
  then show ?thesis
    unfolding if_not_P [OF False]
    by (intro short_range_skipped) (use assms(2) in \<open>simp_all add: sizeof_Header_def\<close>)
qed

theorem well_formed_packet_extracted_witness:
  "extractScanPacketFromByteRange tcp_ops (packet_bytes PT_C (example_header 3 1 2) [] example_points @ [0x5C])
     0 TcpScanFactory_new =
   (\<lparr>tf_distances = [1234, 0], tf_amplitudes = [500, 32], tf_headers = [example_header 3 1 2]\<rparr>,
    Inr (True, 84, 0))"
  using well_formed_packet_extracted
    [OF example_well_formed [of 3 1 2], where before = "[]" and after = "[0x5C]"
      and ops = tcp_ops and f = TcpScanFactory_new]
  by (simp add: example_values Tcp_example_store)

text \<open>
  When only a prefix of a well-formed packet has arrived, of at least 80 bytes, the call stores
  nothing, returns the start of the packet and the exact number of missing bytes; the same call on the
  range completed by these bytes extracts the packet into the factory as if it had come at once.
\<close>

theorem partial_packet_resumed:
  assumes "well_formed T h padding pts" and "packet_bytes T h padding pts = arrived @ missing"
    and "missing \<noteq> []" and "80 \<le> length arrived" and "length arrived + length missing < 2 ^ 32"
  shows "let (f1, answer) = extractScanPacketFromByteRange tcp_ops arrived 0 f
    in answer = Inr (False, 0, of_nat (length missing)) \<and>
       tf_headers f1 = tf_headers (clearOnScanChange tcp_ops h f) \<and>
       extractScanPacketFromByteRange tcp_ops (arrived @ missing) 0 f1 =
       extractScanPacketFromByteRange tcp_ops (packet_bytes T h padding pts) 0 f"
proof -
  have fst: "extractScanPacketFromByteRange tcp_ops arrived 0 f =
      (clearOnScanChange tcp_ops h f, Inr (False, 0, of_nat (length missing)))"
    using assms by (intro extract_incomplete_packet [where missing = missing]) simp_all
  have whole: "extractScanPacketFromByteRange tcp_ops (packet_bytes T h padding pts) 0 g =
      (fo_addPacket tcp_ops h (map (fst \<circ> point_value T) pts) (map (snd \<circ> point_value T) pts)
         (clearOnScanChange tcp_ops h g), Inr (True, 0 + unat (h_packetSize h), 0))" for g
    using assms by (intro extract_complete_packet [where rest = "[]" and padding = padding]) simp_all
  show ?thesis
    using fst whole assms(2) by (simp add: tcp_factory.clearOnScanChange_idem)
qed

theorem partial_packet_resumed_witness:
  "snd (extractScanPacketFromByteRange tcp_ops
     (take 81 (packet_bytes PT_C (example_header 3 1 2) [] example_points)) 0 TcpScanFactory_new)
   = Inr (False, 0, 3)"
proof -
  let ?p = "packet_bytes PT_C (example_header 3 1 2) [] example_points"
  have "?p = take 81 ?p @ drop 81 ?p" by simp
  from partial_packet_resumed [OF example_well_formed this, of TcpScanFactory_new]
  show ?thesis by (simp add: split_beta Let_def)
qed

text \<open>
  A range of fewer than 80 bytes is given up: the call returns its end, with no missing bytes, even
  when it begins with the header of a packet. What arrived of the packet is lost for the caller, which
  drops the bytes before the returned position.
\<close>

theorem short_range_given_up:
  assumes "begin \<le> length buf" and "length buf - begin < sizeof_Header" and "length buf < 2 ^ 32"
  shows "extractScanPacketFromByteRange ops buf begin f = (f, Inr (False, length buf, 0))"
  using assms by (rule short_range_skipped)

theorem short_range_given_up_witness:
  "extractScanPacketFromByteRange tcp_ops
     (take 79 (packet_bytes PT_C (example_header 3 1 2) [] example_points)) 0 TcpScanFactory_new
   = (TcpScanFactory_new, Inr (False, 79, 0))"
  by (subst short_range_given_up) simp_all

text \<open>
  A packet whose header and payload have arrived and whose type is none of A, B and C is not
  skipped: the call throws, and the factory keeps only what belongs to the scan of that packet.
\<close>

theorem unsupported_type_throws:
  assumes "retrievePacketHeader buf begin = Inr (Some (start, h))"
    and "start + unat (h_headerSize h) + payload_size h \<le> length buf"
    and "h_packetType h \<notin> {0x41, 0x42, 0x43}"
  shows "extractScanPacketFromByteRange ops buf begin f =
    (clearOnScanChange ops h f, Inl (unsupported_payload (h_packetType h)))"
  using assms
  by (simp add: extractScanPacketFromByteRange_def extractPayload_present payload_missing_def
      packet_type_of_def)

theorem unsupported_type_throws_witness:
  "snd (extractScanPacketFromByteRange tcp_ops
     (header_bytes ((example_header 3 1 2)\<lparr>h_packetType := 0x44\<rparr>) @ replicate 8 0) 0 TcpScanFactory_new)
   = Inl (Runtime_Error (''DataLink::Unsupported payload type received from the device: 68''))"
proof -
  let ?h = "(example_header 3 1 2)\<lparr>h_packetType := 0x44\<rparr>"
  have "retrievePacketHeader (header_bytes ?h @ replicate 8 0) 0 = Inr (Some (0, ?h))"
    by (rule retrievePacketHeader_bytes [where rest = "replicate 8 0"])
      (simp_all add: PACKET_MAGIC_START_def)
  moreover have "nat_to_string 68 = ''68''"
    by code_simp
  ultimately show ?thesis
    by (subst unsupported_type_throws [where start = 0 and h = ?h])
      (simp_all add: payload_size_def unsupported_payload_def)
qed

end
