(* ===== verification/Request_Result.thy ===== *)
theory Request_Result
  imports Prelude
begin

text \<open>The result of a request to the device (\<open>RequestResult\<close> of \<open>include/R2000.hpp\<close>).\<close>

datatype RequestResult =
    SUCCESS | BAD_REQUEST | FORBIDDEN | UNKNOWN_COMMAND | TIMEOUT | FAILED | INVALID_DEVICE_RESPONSE

fun RequestResult_code :: "RequestResult \<Rightarrow> u32" where
  "RequestResult_code SUCCESS = 200"
| "RequestResult_code BAD_REQUEST = 400"
| "RequestResult_code FORBIDDEN = 403"
| "RequestResult_code UNKNOWN_COMMAND = 404"
| "RequestResult_code TIMEOUT = 408"
| "RequestResult_code FAILED = 800"
| "RequestResult_code INVALID_DEVICE_RESPONSE = 801"

definition requestResultFromCode :: "u32 \<Rightarrow> RequestResult" where
  "requestResultFromCode code =
     (if code = RequestResult_code SUCCESS then SUCCESS
      else if code = RequestResult_code BAD_REQUEST then BAD_REQUEST
      else if code = RequestResult_code FORBIDDEN then FORBIDDEN
      else if code = RequestResult_code UNKNOWN_COMMAND then UNKNOWN_COMMAND
      else if code = RequestResult_code TIMEOUT then TIMEOUT
      else if code = RequestResult_code INVALID_DEVICE_RESPONSE then INVALID_DEVICE_RESPONSE
      else FAILED)"

fun requestResultToString :: "RequestResult \<Rightarrow> string" where
  "requestResultToString SUCCESS = ''Success''"
| "requestResultToString FAILED = ''Failed''"
| "requestResultToString TIMEOUT = ''Timeout''"
| "requestResultToString BAD_REQUEST = ''Bad Request''"
| "requestResultToString FORBIDDEN = ''Forbidden''"
| "requestResultToString UNKNOWN_COMMAND = ''Not Found''"
| "requestResultToString INVALID_DEVICE_RESPONSE = ''Invalid device response''"

lemma requestResultFromCode_code [simp]: "requestResultFromCode (RequestResult_code r) = r"
  by (cases r) (simp_all add: requestResultFromCode_def)

lemma requestResultFromCode_SUCCESS_iff [simp]: "requestResultFromCode code = SUCCESS \<longleftrightarrow> code = 200"
  by (simp add: requestResultFromCode_def)

lemma requestResultFromCode_200 [simp]: "requestResultFromCode 200 = SUCCESS"
  by simp

end
