(* ===== verification/Data_Link.thy ===== *)
theory Data_Link
  imports Scan_Extraction Request_Result
begin

text \<open>
  The base class of the links (\<open>DataLink\<close> of \<open>include/DataLink/DataLink.hpp\<close> and
  \<open>src/DataLink/DataLink.cpp\<close>): the publication of scans, the callbacks, the watchdog and the stall
  monitor. What the device answers to a command and the readings of the clock are inputs of the
  operations. A callback is its identity, and the calls made are recorded in the order they happen.
\<close>

section \<open>State\<close>

datatype link_event = Connection_Lost nat | New_Scan nat Scan

record DataLink =
  dl_scanCounter :: u64
  dl_interruptFlag :: bool
  dl_onDataLinkConnectionLostCallbacks :: "nat list"
  dl_onNewScanAvailableCallbacks :: "nat list"
  dl_lastScanReceived :: Scan
  dl_isConnected :: bool
  dl_isDataLinkStalled :: bool
  dl_watchdogTask :: bool
  dl_stallMonitoring :: bool
  dl_events :: "link_event list"

definition DataLink_initial :: DataLink where
  "DataLink_initial =
     \<lparr>dl_scanCounter = 0, dl_interruptFlag = False, dl_onDataLinkConnectionLostCallbacks = [],
      dl_onNewScanAvailableCallbacks = [], dl_lastScanReceived = default_Scan, dl_isConnected = True,
      dl_isDataLinkStalled = False, dl_watchdogTask = False, dl_stallMonitoring = False,
      dl_events = []\<rparr>"

text \<open>
  The constructor submits the start of the stream; \<open>queued\<close> is what \<open>asyncExecute\<close> returned. The
  completion of the command is the second operation: it starts the tasks or marks the link as not
  connected.
\<close>

definition DataLink_new :: "bool \<Rightarrow> DataLink" where
  "DataLink_new queued =
     (if \<not> queued then DataLink_initial\<lparr>dl_isConnected := False\<rparr> else DataLink_initial)"

definition onStartScanCompleted :: "RequestResult \<Rightarrow> bool \<Rightarrow> DataLink \<Rightarrow> DataLink" where
  "onStartScanCompleted result watchdogEnabled link =
     (if result = SUCCESS
      then (if watchdogEnabled then link\<lparr>dl_watchdogTask := True\<rparr> else link)\<lparr>dl_stallMonitoring := True\<rparr>
      else link\<lparr>dl_isConnected := False\<rparr>)"

definition isAlive :: "DataLink \<Rightarrow> bool" where
  "isAlive link = dl_isConnected link"

definition isStalled :: "DataLink \<Rightarrow> bool" where
  "isStalled link = dl_isDataLinkStalled link"

definition getLastScan :: "DataLink \<Rightarrow> Scan" where
  "getLastScan link = dl_lastScanReceived link"

section \<open>Callbacks\<close>

definition addOnDataLinkConnectionLostCallback :: "nat \<Rightarrow> DataLink \<Rightarrow> DataLink" where
  "addOnDataLinkConnectionLostCallback callback link =
     link\<lparr>dl_onDataLinkConnectionLostCallbacks := dl_onDataLinkConnectionLostCallbacks link @ [callback]\<rparr>"

definition addOnNewScanAvailableCallback :: "nat \<Rightarrow> DataLink \<Rightarrow> DataLink" where
  "addOnNewScanAvailableCallback callback link =
     link\<lparr>dl_onNewScanAvailableCallbacks := dl_onNewScanAvailableCallbacks link @ [callback]\<rparr>"

definition fireDataLinkConnectionLostEvent :: "DataLink \<Rightarrow> DataLink" where
  "fireDataLinkConnectionLostEvent link =
     link\<lparr>dl_events := dl_events link @ map Connection_Lost (dl_onDataLinkConnectionLostCallbacks link)\<rparr>"

definition fireOnScanAvailableEvent :: "Scan \<Rightarrow> DataLink \<Rightarrow> DataLink" where
  "fireOnScanAvailableEvent scan link =
     link\<lparr>dl_events := dl_events link
            @ map (\<lambda>callback. New_Scan callback scan) (dl_onNewScanAvailableCallbacks link)\<rparr>"

section \<open>Publication of a scan\<close>

definition setOutputScanFromCompletedFactory :: "Scan \<Rightarrow> DataLink \<Rightarrow> DataLink" where
  "setOutputScanFromCompletedFactory scan link =
     (let link1 = link\<lparr>dl_lastScanReceived := scan\<rparr>;
          link2 = link1\<lparr>dl_scanCounter := dl_scanCounter link1 + 1\<rparr>
      in fireOnScanAvailableEvent scan link2)"

text \<open>
  \<open>waitForNextScan\<close> evaluates its predicate on the states \<open>observed\<close>, in order: when the wait begins, at
  each notification, and once more when the time-out expires. It returns at the first state that
  satisfies the predicate.
\<close>

definition waitForNextScan :: "DataLink \<Rightarrow> DataLink list \<Rightarrow> Scan option" where
  "waitForNextScan link observed =
     (if \<not> dl_isConnected link then None
      else let scanCountBeforeWaiting = dl_scanCounter link
           in case find (\<lambda>s. dl_interruptFlag s \<or> scanCountBeforeWaiting \<noteq> dl_scanCounter s) observed of
                None \<Rightarrow> None
              | Some s \<Rightarrow> Some (getLastScan s))"

text \<open>
  The step both links take after every attempt at a packet: a complete factory is assembled, with the
  time read from the clock, and published. The clock is the time at which the scan of a given number
  is assembled.
\<close>

type_synonym clock = "u64 \<Rightarrow> time_point"

definition publishIfComplete ::
  "'f factory_ops \<Rightarrow> clock \<Rightarrow> 'f \<Rightarrow> DataLink \<Rightarrow> 'f \<times> DataLink" where
  "publishIfComplete ops clock f link =
     (if fo_isComplete ops f
      then let (scan, f1) = fo_assemble ops (clock (dl_scanCounter link)) f
           in (f1, setOutputScanFromCompletedFactory scan link)
      else (f, link))"

section \<open>Watchdog\<close>

text \<open>
  What a round of \<open>watchdogTask\<close> does with the outcome of its command, which is \<open>None\<close> when it could not be
  queued; and a whole round: the task leaves its loop when it finds the interrupt flag set.
\<close>

definition watchdogTask_body :: "RequestResult option \<Rightarrow> DataLink \<Rightarrow> DataLink" where
  "watchdogTask_body outcome link =
     (case outcome of
        None \<Rightarrow> link\<lparr>dl_isConnected := False\<rparr>
      | Some result \<Rightarrow>
          (if result = SUCCESS then link\<lparr>dl_isConnected := True\<rparr>
           else let wasConnected = dl_isConnected link;
                    link1 = link\<lparr>dl_isConnected := False\<rparr>
                in if wasConnected then fireDataLinkConnectionLostEvent link1 else link1))"

definition watchdogTask_round :: "RequestResult option \<Rightarrow> DataLink \<Rightarrow> DataLink" where
  "watchdogTask_round outcome link =
     (if dl_interruptFlag link then link\<lparr>dl_watchdogTask := False\<rparr> else watchdogTask_body outcome link)"

lemmas watchdog_defs = watchdogTask_round_def watchdogTask_body_def

section \<open>Stall monitor\<close>

text \<open>
  One round of \<open>stallMonitoringTask\<close> at a time of the clock, whose unit is the millisecond. The task
  ends when the flag is set or the link is interrupted.
\<close>

definition stallMonitoringTask_round :: "time_point \<Rightarrow> DataLink \<Rightarrow> DataLink" where
  "stallMonitoringTask_round now link =
     (if dl_interruptFlag link then link\<lparr>dl_stallMonitoring := False\<rparr>
      else let lastReceivedScanTimestamp = sc_timestamp (getLastScan link)
           in if isAlive link \<and> lastReceivedScanTimestamp + 6000 \<le> now
              then link\<lparr>dl_isDataLinkStalled := True, dl_stallMonitoring := False\<rparr>
              else link)"

section \<open>Destruction\<close>

text \<open>
  The destructor interrupts the tasks, waits for them, then stops the stream and releases the handle.
  The answers of the device to the two commands are only logged.
\<close>

datatype final_command = StopScanCommand | ReleaseHandleCommand

definition DataLink_destroy :: "DataLink \<Rightarrow> DataLink \<times> final_command list" where
  "DataLink_destroy link =
     (if \<not> dl_interruptFlag link
      then (link\<lparr>dl_interruptFlag := True, dl_watchdogTask := False, dl_stallMonitoring := False\<rparr>,
            [StopScanCommand, ReleaseHandleCommand])
      else (link, []))"

section \<open>Properties\<close>

text \<open>
  The watchdog as the user sees it: the status after each round, and the number of rounds at which
  the connection is reported lost, from the outcomes alone.
\<close>

fun connected_after :: "RequestResult option \<Rightarrow> bool" where
  "connected_after None = False"
| "connected_after (Some result) = (result = SUCCESS)"

fun reported_losses :: "bool \<Rightarrow> RequestResult option list \<Rightarrow> nat" where
  "reported_losses wasConnected [] = 0"
| "reported_losses wasConnected (outcome # outcomes) =
     (if wasConnected \<and> outcome \<noteq> None \<and> outcome \<noteq> Some SUCCESS then 1 else 0)
     + reported_losses (connected_after outcome) outcomes"

text \<open>
  C36: A running watchdog reports a loss to every registered callback exactly at the rounds where the
  command was sent and failed while the link was connected. A command that could not be queued marks
  the link as not connected without a report, and hides the failure of the next round.
\<close>

theorem watchdog_reports_losses:
  assumes "\<not> dl_interruptFlag link"
  shows "dl_events (fold watchdogTask_round outcomes link) = dl_events link @
      concat (replicate (reported_losses (isAlive link) outcomes)
        (map Connection_Lost (dl_onDataLinkConnectionLostCallbacks link))) \<and>
    (outcomes \<noteq> [] \<longrightarrow> isAlive (fold watchdogTask_round outcomes link) = connected_after (last outcomes))"
  using assms
proof (induction outcomes arbitrary: link)
  case (Cons outcome outcomes)
  let ?link = "watchdogTask_round outcome link"
  have step: "\<not> dl_interruptFlag ?link" "isAlive ?link = connected_after outcome"
    "dl_onDataLinkConnectionLostCallbacks ?link = dl_onDataLinkConnectionLostCallbacks link"
    "dl_events ?link = dl_events link @
       (if isAlive link \<and> outcome \<noteq> None \<and> outcome \<noteq> Some SUCCESS
        then map Connection_Lost (dl_onDataLinkConnectionLostCallbacks link) else [])"
    using Cons.prems
    by (auto simp: watchdog_defs isAlive_def fireDataLinkConnectionLostEvent_def Let_def
        split: option.splits)
  then show ?case using Cons.IH [OF step(1)] by (cases outcomes) auto
qed simp

theorem watchdog_reports_losses_witness:
  "dl_events (fold watchdogTask_round [Some TIMEOUT, Some TIMEOUT, Some SUCCESS, None, Some FAILED]
     (addOnDataLinkConnectionLostCallback 7 DataLink_initial)) = [Connection_Lost 7]"
  by (subst conjunct1 [OF watchdog_reports_losses])
    (simp_all add: addOnDataLinkConnectionLostCallback_def DataLink_initial_def isAlive_def)

text \<open>
  \<open>waitForNextScan\<close> returns a scan exactly when the link was connected at the call and some
  evaluation of the predicate saw a new scan or the interrupt flag; it then returns the last scan
  received, also when the link is only being destroyed and no new scan has come.
\<close>

theorem waitForNextScan_result:
  "waitForNextScan link observed = Some scan \<longleftrightarrow>
     isAlive link \<and>
     (\<exists>before s after. observed = before @ s # after \<and> scan = getLastScan s \<and>
        (dl_interruptFlag s \<or> dl_scanCounter s \<noteq> dl_scanCounter link) \<and>
        (\<forall>b \<in> set before. \<not> dl_interruptFlag b \<and> dl_scanCounter b = dl_scanCounter link))"
proof -
  let ?P = "\<lambda>s. dl_interruptFlag s \<or> dl_scanCounter link \<noteq> dl_scanCounter s"
  have "waitForNextScan link observed = Some scan \<longleftrightarrow>
      isAlive link \<and> (\<exists>s. find ?P observed = Some s \<and> scan = getLastScan s)"
    by (auto simp: waitForNextScan_def isAlive_def Let_def split: option.splits)
  then show ?thesis unfolding find_eq_Some_append by fastforce
qed

theorem waitForNextScan_result_witness:
  "waitForNextScan DataLink_initial [DataLink_initial, fst (DataLink_destroy DataLink_initial)]
   = Some default_Scan"
  unfolding waitForNextScan_result
  by (intro conjI exI [of _ "[DataLink_initial]"] exI [of _ "fst (DataLink_destroy DataLink_initial)"]
      exI [of _ "[]"])
    (simp_all add: isAlive_def DataLink_initial_def DataLink_destroy_def getLastScan_def)

end
