(* ===== verification/Extraction_Loop.thy ===== *)
theory Extraction_Loop
  imports Data_Link
begin

text \<open>
  The loop of \<open>tryExtractingScanFromByteRange\<close>, the same in \<open>include/DataLink/TCPLink.hpp\<close> and
  \<open>include/DataLink/UDPLink.hpp\<close> up to one statement: the TCP link notes the size of a complete scan
  before the factory is assembled. That statement is the argument \<open>on_complete\<close>.
\<close>

section \<open>The loop\<close>

text \<open>
  The loop does not end when a packet is extracted without moving the position, so it is a partial
  function: \<open>None\<close> is a call that never returns. What was published before an exception stays
  published, so the factory and the link are part of every outcome.
\<close>

partial_function (option) extraction_loop ::
  "'f factory_ops \<Rightarrow> clock \<Rightarrow> ('f \<Rightarrow> 'n \<Rightarrow> 'n) \<Rightarrow> byte list \<Rightarrow> nat \<Rightarrow> 'n \<Rightarrow> 'f \<Rightarrow> DataLink \<Rightarrow>
   ('f \<times> DataLink \<times> (nat \<times> u32 \<times> 'n) result) option" where
  "extraction_loop ops clock on_complete buf position noted f link =
     (case extractScanPacketFromByteRange ops buf position f of
        (f1, extractionResult) \<Rightarrow>
          (case extractionResult of
             Inl e \<Rightarrow> Some (f1, link, Inl e)
           | Inr (hadEnoughBytes, position1, numberOfMissingBytes) \<Rightarrow>
               let noted1 = (if fo_isComplete ops f1 then on_complete f1 noted else noted);
                   (f2, link1) = publishIfComplete ops clock f1 link
               in if \<not> hadEnoughBytes
                  then Some (f2, link1, Inr (position1, numberOfMissingBytes, noted1))
                  else extraction_loop ops clock on_complete buf position1 noted1 f2 link1))"

section \<open>It ends\<close>

text \<open>Every header a search can find in the buffer announces a header size.\<close>

definition headers_advance :: "byte list \<Rightarrow> bool" where
  "headers_advance buf \<longleftrightarrow>
     (\<forall>i h. magic_at buf i \<longrightarrow> Header_fromByteRange buf i = Inr h \<longrightarrow> 0 < unat (h_headerSize h))"

lemma extract_advances:
  assumes "headers_advance buf" and "position \<le> length buf" and "length buf < 2 ^ 32"
    and "snd (extractScanPacketFromByteRange ops buf position f) = Inr (True, p, m)"
  shows "position < p" and "p \<le> length buf"
proof -
  obtain start h where r: "retrievePacketHeader buf position = Inr (Some (start, h))"
    and le: "position \<le> start" "start + unat (h_headerSize h) \<le> p" "p \<le> length buf"
    using extract_True [OF assms(4,2,3)] by blast
  have "0 < unat (h_headerSize h)"
    using retrievePacketHeader_Some [OF r assms(2,3)] assms(1) by (auto simp: headers_advance_def)
  then show "position < p" "p \<le> length buf" using le by auto
qed

lemma extraction_loop_ends:
  assumes "headers_advance buf" and "length buf < 2 ^ 32" and "position \<le> length buf"
  shows "\<exists>r. extraction_loop ops clock on_complete buf position noted f link = Some r"
  using assms(3)
proof (induction "length buf - position" arbitrary: position noted f link rule: less_induct)
  case less
  obtain f1 er where ex: "extractScanPacketFromByteRange ops buf position f = (f1, er)"
    by (cases "extractScanPacketFromByteRange ops buf position f")
  show ?case
  proof (cases er)
    case (Inl e)
    with ex show ?thesis by (subst extraction_loop.simps) simp
  next
    case (Inr x)
    obtain had p m where x: "x = (had, p, m)" by (cases x)
    show ?thesis
    proof (cases had)
      case False
      with ex Inr x show ?thesis by (subst extraction_loop.simps) (simp add: Let_def split: prod.split)
    next
      case True
      then have "snd (extractScanPacketFromByteRange ops buf position f) = Inr (True, p, m)"
        using ex Inr x by simp
      from extract_advances [OF assms(1) less.prems assms(2) this] less.hyps [of p]
      show ?thesis
        using ex Inr x True by (subst extraction_loop.simps) (auto simp: Let_def split: prod.split)
    qed
  qed
qed

section \<open>Induction over its rounds\<close>

text \<open>One round, by the outcome of the extraction.\<close>

lemma extraction_loop_fault:
  "extractScanPacketFromByteRange ops buf position f = (f1, Inl e) \<Longrightarrow>
   extraction_loop ops clock on_complete buf position noted f link = Some (f1, link, Inl e)"
  by (subst extraction_loop.simps) simp

lemma extraction_loop_last:
  "extractScanPacketFromByteRange ops buf position f = (f1, Inr (False, p, m)) \<Longrightarrow>
   publishIfComplete ops clock f1 link = (f2, link1) \<Longrightarrow>
   extraction_loop ops clock on_complete buf position noted f link =
     Some (f2, link1, Inr (p, m, if fo_isComplete ops f1 then on_complete f1 noted else noted))"
  by (subst extraction_loop.simps) (simp add: Let_def)

lemma extraction_loop_more:
  "extractScanPacketFromByteRange ops buf position f = (f1, Inr (True, p, m)) \<Longrightarrow>
   publishIfComplete ops clock f1 link = (f2, link1) \<Longrightarrow>
   extraction_loop ops clock on_complete buf position noted f link =
     extraction_loop ops clock on_complete buf p (if fo_isComplete ops f1 then on_complete f1 noted else noted) f2 link1"
  by (subst extraction_loop.simps) (simp add: Let_def)

lemma extraction_loop_induct [consumes 1, case_names fault last more]:
  assumes "extraction_loop ops clock on_complete buf position noted f link = Some r"
    and fault: "\<And>position noted f link f1 e.
      extractScanPacketFromByteRange ops buf position f = (f1, Inl e) \<Longrightarrow>
      P position noted f link (f1, link, Inl e)"
    and last: "\<And>position noted f link f1 p m f2 link1.
      extractScanPacketFromByteRange ops buf position f = (f1, Inr (False, p, m)) \<Longrightarrow>
      publishIfComplete ops clock f1 link = (f2, link1) \<Longrightarrow>
      P position noted f link (f2, link1, Inr (p, m, if fo_isComplete ops f1 then on_complete f1 noted else noted))"
    and more: "\<And>position noted f link f1 p m f2 link1 r.
      extractScanPacketFromByteRange ops buf position f = (f1, Inr (True, p, m)) \<Longrightarrow>
      publishIfComplete ops clock f1 link = (f2, link1) \<Longrightarrow>
      extraction_loop ops clock on_complete buf p (if fo_isComplete ops f1 then on_complete f1 noted else noted) f2 link1 = Some r \<Longrightarrow>
      P p (if fo_isComplete ops f1 then on_complete f1 noted else noted) f2 link1 r \<Longrightarrow>
      P position noted f link r"
  shows "P position noted f link r"
proof -
  let ?Q = "\<lambda>ops' clock' on_complete' buf' position noted f link r.
    ops' = ops \<longrightarrow> clock' = clock \<longrightarrow> on_complete' = on_complete \<longrightarrow> buf' = buf \<longrightarrow>
    extraction_loop ops clock on_complete buf position noted f link = Some r \<and> P position noted f link r"
  have "?Q ops clock on_complete buf position noted f link r"
  proof (rule extraction_loop.raw_induct [of ?Q, OF _ assms(1)], intro impI)
    fix loop ops' clock' on_complete' buf' position noted f link r
    assume IH: "\<And>ops' clock' on_complete' buf' position noted f link r.
        loop ops' clock' on_complete' buf' position noted f link = Some r \<Longrightarrow>
        ?Q ops' clock' on_complete' buf' position noted f link r"
      and body: "(case extractScanPacketFromByteRange ops' buf' position f of
          (f1, Inl e) \<Rightarrow> Some (f1, link, Inl e)
        | (f1, Inr (hadEnoughBytes, position1, numberOfMissingBytes)) \<Rightarrow>
            let noted1 = if fo_isComplete ops' f1 then on_complete' f1 noted else noted;
                (f2, link1) = publishIfComplete ops' clock' f1 link
            in if \<not> hadEnoughBytes then Some (f2, link1, Inr (position1, numberOfMissingBytes, noted1))
               else loop ops' clock' on_complete' buf' position1 noted1 f2 link1) = Some r"
      and eqs: "ops' = ops" "clock' = clock" "on_complete' = on_complete" "buf' = buf"
    obtain f1 er where ex: "extractScanPacketFromByteRange ops buf position f = (f1, er)"
      by (cases "extractScanPacketFromByteRange ops buf position f")
    obtain f2 link1 where pub: "publishIfComplete ops clock f1 link = (f2, link1)"
      by (cases "publishIfComplete ops clock f1 link")
    show "extraction_loop ops clock on_complete buf position noted f link = Some r \<and> P position noted f link r"
    proof (cases er)
      case (Inl e)
      then have r: "r = (f1, link, Inl e)" using body eqs ex by simp
      have ex': "extractScanPacketFromByteRange ops buf position f = (f1, Inl e)" using ex Inl by simp
      show ?thesis unfolding r using extraction_loop_fault [OF ex'] fault [OF ex'] by simp
    next
      case (Inr x)
      obtain had p m where x: "x = (had, p, m)" by (cases x)
      show ?thesis
      proof (cases had)
        case False
        then have r: "r = (f2, link1, Inr (p, m, if fo_isComplete ops f1 then on_complete f1 noted else noted))"
          using body eqs ex pub Inr x by (auto simp: Let_def)
        have ex': "extractScanPacketFromByteRange ops buf position f = (f1, Inr (False, p, m))"
          using ex Inr x False by simp
        show ?thesis unfolding r by (intro conjI extraction_loop_last [OF ex' pub] last [OF ex' pub])
      next
        case True
        then have "loop ops clock on_complete buf p (if fo_isComplete ops f1 then on_complete f1 noted else noted) f2 link1
            = Some r"
          using body eqs ex pub Inr x by (simp add: Let_def split: if_splits)
        from IH [OF this] have IH': "extraction_loop ops clock on_complete buf p
              (if fo_isComplete ops f1 then on_complete f1 noted else noted) f2 link1 = Some r"
          "P p (if fo_isComplete ops f1 then on_complete f1 noted else noted) f2 link1 r" by simp_all
        have ex': "extractScanPacketFromByteRange ops buf position f = (f1, Inr (True, p, m))"
          using ex Inr x True by simp
        show ?thesis
          unfolding extraction_loop_more [OF ex' pub]
          by (intro conjI IH'(1) more [OF ex' pub IH'])
      qed
    qed
  qed
  then show ?thesis by simp
qed

text \<open>A packet that does not move the position is extracted for ever.\<close>

lemma extraction_loop_stuck:
  assumes "\<And>g. \<exists>m. snd (extractScanPacketFromByteRange ops buf position g) = Inr (True, position, m)"
  shows "extraction_loop ops clock on_complete buf position noted f link = None"
proof -
  have "position' \<noteq> position"
    if "extraction_loop ops clock on_complete buf position' noted f link = Some r" for position' noted f link r
    using that by (induction rule: extraction_loop_induct) (use assms in \<open>metis Inr_inject prod.inject snd_conv sum.distinct(1)\<close>)+
  then show ?thesis by (metis not_None_eq)
qed

section \<open>What it publishes\<close>

text \<open>
  A sound scan: its packets carry one scan number, every point has an amplitude, and it has at least
  the points one of its packets announces. A link is sound when every scan it has handed out is.
\<close>

definition sound_scan :: "Scan \<Rightarrow> bool" where
  "sound_scan s \<longleftrightarrow>
     (\<forall>h \<in> set (sc_headers s). \<forall>h' \<in> set (sc_headers s). h_scanNumber h = h_scanNumber h') \<and>
     length (sc_amplitudes s) = length (sc_distances s) \<and>
     (\<exists>h \<in> set (sc_headers s). unat (h_numPointsScan h) \<le> length (sc_distances s))"

definition published_sound :: "DataLink \<Rightarrow> bool" where
  "published_sound link \<longleftrightarrow>
     (\<forall>callback s. New_Scan callback s \<in> set (dl_events link) \<longrightarrow> sound_scan s) \<and>
     (dl_lastScanReceived link = default_Scan \<or> sound_scan (dl_lastScanReceived link))"

text \<open>What no publication changes.\<close>

definition same_status :: "DataLink \<Rightarrow> DataLink \<Rightarrow> bool" where
  "same_status link link' \<longleftrightarrow>
     dl_isConnected link' = dl_isConnected link \<and> dl_interruptFlag link' = dl_interruptFlag link \<and>
     dl_isDataLinkStalled link' = dl_isDataLinkStalled link \<and>
     dl_onDataLinkConnectionLostCallbacks link' = dl_onDataLinkConnectionLostCallbacks link \<and>
     dl_onNewScanAvailableCallbacks link' = dl_onNewScanAvailableCallbacks link"

lemma same_status_refl [simp]: "same_status link link"
  by (simp add: same_status_def)

lemma same_status_trans: "same_status l1 l2 \<Longrightarrow> same_status l2 l3 \<Longrightarrow> same_status l1 l3"
  by (simp add: same_status_def)

lemmas publication_defs = setOutputScanFromCompletedFactory_def fireOnScanAvailableEvent_def

lemma setOutputScan_published:
  assumes "published_sound link" and "sound_scan scan"
  shows "published_sound (setOutputScanFromCompletedFactory scan link)"
  using assms by (auto simp: published_sound_def publication_defs Let_def)

text \<open>What the other operations of a link keep.\<close>

lemma published_sound_tasks [simp]:
  "published_sound (onStartScanCompleted result watchdogEnabled link) = published_sound link"
  "published_sound (watchdogTask_round outcome link) = published_sound link"
  "published_sound (stallMonitoringTask_round now link) = published_sound link"
  "published_sound (addOnDataLinkConnectionLostCallback callback link) = published_sound link"
  "published_sound (addOnNewScanAvailableCallback callback link) = published_sound link"
  "published_sound (fireDataLinkConnectionLostEvent link) = published_sound link"
  "published_sound (fst (DataLink_destroy link)) = published_sound link"
  "published_sound (link\<lparr>dl_isConnected := b\<rparr>) = published_sound link"
  "published_sound (DataLink_new queued)"
  by (auto simp: published_sound_def onStartScanCompleted_def watchdog_defs
      stallMonitoringTask_round_def addOnDataLinkConnectionLostCallback_def
      addOnNewScanAvailableCallback_def fireDataLinkConnectionLostEvent_def DataLink_destroy_def
      DataLink_new_def DataLink_initial_def Let_def split: option.splits)

lemma tasks_keep_scan [simp]:
  "dl_lastScanReceived (onStartScanCompleted result watchdogEnabled link) = dl_lastScanReceived link"
  "dl_lastScanReceived (watchdogTask_round outcome link) = dl_lastScanReceived link"
  "dl_lastScanReceived (stallMonitoringTask_round now link) = dl_lastScanReceived link"
  "dl_lastScanReceived (addOnDataLinkConnectionLostCallback callback link) = dl_lastScanReceived link"
  "dl_lastScanReceived (addOnNewScanAvailableCallback callback link) = dl_lastScanReceived link"
  "dl_lastScanReceived (fireDataLinkConnectionLostEvent link) = dl_lastScanReceived link"
  "dl_lastScanReceived (fst (DataLink_destroy link)) = dl_lastScanReceived link"
  by (auto simp: onStartScanCompleted_def watchdog_defs stallMonitoringTask_round_def
      addOnDataLinkConnectionLostCallback_def addOnNewScanAvailableCallback_def
      fireDataLinkConnectionLostEvent_def DataLink_destroy_def Let_def split: option.splits)

lemma tasks_keep_stalled [simp]:
  "dl_isDataLinkStalled (onStartScanCompleted result watchdogEnabled link) = dl_isDataLinkStalled link"
  "dl_isDataLinkStalled (watchdogTask_round outcome link) = dl_isDataLinkStalled link"
  "dl_isDataLinkStalled link \<Longrightarrow> dl_isDataLinkStalled (stallMonitoringTask_round now link)"
  "dl_isDataLinkStalled (addOnDataLinkConnectionLostCallback callback link) = dl_isDataLinkStalled link"
  "dl_isDataLinkStalled (addOnNewScanAvailableCallback callback link) = dl_isDataLinkStalled link"
  "dl_isDataLinkStalled (fireDataLinkConnectionLostEvent link) = dl_isDataLinkStalled link"
  "dl_isDataLinkStalled (fst (DataLink_destroy link)) = dl_isDataLinkStalled link"
  by (auto simp: onStartScanCompleted_def watchdog_defs stallMonitoringTask_round_def
      addOnDataLinkConnectionLostCallback_def addOnNewScanAvailableCallback_def
      fireDataLinkConnectionLostEvent_def DataLink_destroy_def Let_def split: option.splits)

lemma publishIfComplete_same_status:
  "publishIfComplete ops clock f link = (f', link') \<Longrightarrow> same_status link link'"
  by (auto simp: publishIfComplete_def publication_defs same_status_def Let_def
      split: if_splits prod.splits)

lemma extraction_loop_same_status:
  assumes "extraction_loop ops clock on_complete buf position noted f link = Some (f', link', r)"
  shows "same_status link link'"
proof -
  have "same_status link (fst (snd r))"
    if "extraction_loop ops clock on_complete buf position noted f link = Some r" for position noted f link r
    using that
    by (induction rule: extraction_loop_induct)
      (auto dest: publishIfComplete_same_status intro: same_status_trans)
  from this [OF assms] show ?thesis by simp
qed

lemma extraction_loop_position:
  assumes "extraction_loop ops clock on_complete buf position noted f link = Some (f', link', Inr (p, m, n))"
    and "position \<le> length buf" and "length buf < 2 ^ 32"
  shows "position \<le> p \<and> (p = length buf \<and> m = 0 \<or>
    (\<exists>from h. retrievePacketHeader buf from = Inr (Some (p, h)) \<and> payload_missing buf p h \<and> p < length buf \<and>
      m = word_of_int (int (p + unat (h_headerSize h) + payload_size h - length buf))))"
proof -
  let ?stop = "\<lambda>p m. p = length buf \<and> m = 0 \<or>
    (\<exists>from h. retrievePacketHeader buf from = Inr (Some (p, h)) \<and> payload_missing buf p h \<and> p < length buf \<and>
      m = word_of_int (int (p + unat (h_headerSize h) + payload_size h - length buf)))"
  have "\<forall>p m n. snd (snd r) = Inr (p, m, n) \<longrightarrow> position \<le> p \<and> ?stop p m"
    if "extraction_loop ops clock on_complete buf position noted f link = Some r" and "position \<le> length buf"
    for position noted f link r
    using that
  proof (induction rule: extraction_loop_induct)
    case (last position noted f link f1 p m f2 link1)
    then have "snd (extractScanPacketFromByteRange ops buf position f) = Inr (False, p, m)" by simp
    from extract_False [OF this last.prems assms(3)] show ?case
      using last.prems by auto
  next
    case (more position noted f link f1 p m f2 link1 r)
    then have "snd (extractScanPacketFromByteRange ops buf position f) = Inr (True, p, m)" by simp
    from extract_True [OF this more.prems assms(3)] have "position \<le> p" "p \<le> length buf" by auto
    then show ?case using more.IH by fastforce
  qed simp
  from this [OF assms(1,2)] show ?thesis by simp
qed

context scan_factory
begin

lemma not_complete_empty: "inv f \<Longrightarrow> hdrs f = [] \<Longrightarrow> \<not> fo_isComplete ops f"
  using complete_count by fastforce

lemma clearOnScanChange_not_complete:
  "inv f \<Longrightarrow> \<not> fo_isComplete ops f \<Longrightarrow> \<not> fo_isComplete ops (clearOnScanChange ops h f)"
  using not_complete_empty [OF inv_clear hdrs_clear] by (simp add: clearOnScanChange_def)

lemma assembled_sound:
  assumes "inv f" and "one_scan (hdrs f)" and "fo_isComplete ops f"
  shows "sound_scan (fst (fo_assemble ops t f))"
proof -
  have "set (sc_headers (fst (fo_assemble ops t f))) = set (hdrs f)"
    using scan_headers by (metis set_mset_mset)
  moreover have "h_scanNumber h = h_scanNumber (last (hdrs f))" if "h \<in> set (hdrs f)" for h
    using assms(2) that by (rule one_scan_last)
  ultimately show ?thesis
    using complete_count [OF assms(1,3)] scan_points [OF assms(1), of t] by (simp add: sound_scan_def)
qed

text \<open>The invariant of the loop: a factory within one scan, not complete, and a sound link.\<close>

lemma publish_invariant:
  assumes "publishIfComplete ops clock f link = (f', link')"
    and "inv f" and "one_scan (hdrs f)" and "published_sound link"
  shows "inv f' \<and> one_scan (hdrs f') \<and> \<not> fo_isComplete ops f' \<and> published_sound link'"
proof (cases "fo_isComplete ops f")
  case True
  let ?a = "fo_assemble ops (clock (dl_scanCounter link)) f"
  have "f' = snd ?a" "link' = setOutputScanFromCompletedFactory (fst ?a) link"
    using assms(1) True by (simp_all add: publishIfComplete_def split_beta)
  then show ?thesis
    using assms True assembled_sound hdrs_assemble inv_assemble not_complete_empty
    by (simp add: setOutputScan_published)
qed (use assms in \<open>auto simp: publishIfComplete_def\<close>)

lemma extract_invariant:
  assumes "extractScanPacketFromByteRange ops buf position f = (f', er)" and "length buf < 2 ^ 64"
    and "inv f" and "one_scan (hdrs f)"
  shows "inv f' \<and> one_scan (hdrs f')"
  using extract_factory_cases [OF assms(2), of ops position f] assms
  by (metis clearOnScanChange_inv clearOnScanChange_one_scan fst_conv store_inv store_one_scan)

lemma extraction_loop_invariant:
  assumes "extraction_loop ops clock on_complete buf position noted f link = Some (f', link', r)"
    and "length buf < 2 ^ 64" and "inv f" and "one_scan (hdrs f)" and "published_sound link"
  shows "inv f' \<and> one_scan (hdrs f') \<and> published_sound link' \<and> (\<forall>x. r = Inr x \<longrightarrow> \<not> fo_isComplete ops f')"
proof -
  have "inv (fst r) \<and> one_scan (hdrs (fst r)) \<and> published_sound (fst (snd r)) \<and>
      (\<forall>x. snd (snd r) = Inr x \<longrightarrow> \<not> fo_isComplete ops (fst r))"
    if "extraction_loop ops clock on_complete buf position noted f link = Some r"
      "inv f" "one_scan (hdrs f)" "published_sound link" for position noted f link r
    using that
  proof (induction rule: extraction_loop_induct)
    case (fault position noted f link f1 e)
    then show ?case using extract_invariant [OF _ assms(2)] by simp
  next
    case (last position noted f link f1 p m f2 link1)
    then show ?case using extract_invariant [OF _ assms(2)] publish_invariant by simp
  next
    case (more position noted f link f1 p m f2 link1 r)
    then show ?case using extract_invariant [OF _ assms(2)] publish_invariant by blast
  qed
  from this [OF assms(1,3,4,5)] show ?thesis by simp
qed

end

section \<open>A stream of packets\<close>

text \<open>
  The specification of the reception: what a stream of well-formed packets does to a factory and a
  link, one packet after the other, whatever the ranges the bytes come in.
\<close>

type_synonym sent_packet = "PACKET_TYPE \<times> Header \<times> byte list \<times> (u32 \<times> u16) list"

fun sent_bytes :: "sent_packet \<Rightarrow> byte list" where
  "sent_bytes (T, h, padding, pts) = packet_bytes T h padding pts"

fun sent_ok :: "sent_packet \<Rightarrow> bool" where
  "sent_ok (T, h, padding, pts) \<longleftrightarrow> well_formed T h padding pts \<and> 80 \<le> unat (h_packetSize h)"

definition stream_bytes :: "sent_packet list \<Rightarrow> byte list" where
  "stream_bytes packets = concat (map sent_bytes packets)"

fun receive_packet ::
  "'f factory_ops \<Rightarrow> clock \<Rightarrow> sent_packet \<Rightarrow> 'f \<times> DataLink \<Rightarrow> 'f \<times> DataLink" where
  "receive_packet ops clock (T, h, padding, pts) (f, link) =
     publishIfComplete ops clock
       (fo_addPacket ops h (map (fst \<circ> point_value T) pts) (map (snd \<circ> point_value T) pts)
          (clearOnScanChange ops h f)) link"

definition receive_packets ::
  "'f factory_ops \<Rightarrow> clock \<Rightarrow> sent_packet list \<Rightarrow> 'f \<times> DataLink \<Rightarrow> 'f \<times> DataLink" where
  "receive_packets ops clock packets = fold (receive_packet ops clock) packets"

lemma stream_bytes_simps [simp]:
  "stream_bytes [] = []"
  "stream_bytes (p # ps) = sent_bytes p @ stream_bytes ps"
  "stream_bytes (ps @ qs) = stream_bytes ps @ stream_bytes qs"
  by (simp_all add: stream_bytes_def)

lemma receive_packets_simps [simp]:
  "receive_packets ops clock [] s = s"
  "receive_packets ops clock (p # ps) s = receive_packets ops clock ps (receive_packet ops clock p s)"
  "receive_packets ops clock (ps @ qs) s = receive_packets ops clock qs (receive_packets ops clock ps s)"
  by (simp_all add: receive_packets_def)

lemma sent_ok_length: "sent_ok p \<Longrightarrow> 80 \<le> length (sent_bytes p)"
  by (cases p) (simp add: length_packet_bytes)

lemma extract_sent_packet:
  assumes "drop position buf = sent_bytes p @ rest" and "sent_ok p" and "length buf < 2 ^ 32"
  shows "\<exists>f1. extractScanPacketFromByteRange ops buf position f =
      (f1, Inr (True, position + length (sent_bytes p), 0)) \<and>
    publishIfComplete ops clock f1 link = receive_packet ops clock p (f, link)"
proof -
  obtain T h padding pts where p: "p = (T, h, padding, pts)" by (cases p)
  have "length buf - position = length (sent_bytes p) + length rest"
    using arg_cong [OF assms(1), of length] by simp
  then have "position + 80 \<le> length buf" using sent_ok_length [OF assms(2)] by linarith
  then show ?thesis
    using extract_complete_packet [of position buf T h padding pts rest ops f] assms
    by (simp add: p length_packet_bytes)
qed

lemma extraction_loop_packets:
  assumes "drop position buf = stream_bytes packets @ rest" and "\<forall>p \<in> set packets. sent_ok p"
    and "length buf < 2 ^ 32" and "receive_packets ops clock packets (f, link) = (f', link')"
  shows "\<exists>noted'. extraction_loop ops clock on_complete buf position noted f link =
    extraction_loop ops clock on_complete buf (position + length (stream_bytes packets)) noted' f' link'"
  using assms
proof (induction packets arbitrary: position noted f link)
  case Nil
  then show ?case by auto
next
  case (Cons p packets)
  have d: "drop position buf = sent_bytes p @ stream_bytes packets @ rest"
    using Cons.prems(1) by simp
  obtain f1 where ex: "extractScanPacketFromByteRange ops buf position f =
      (f1, Inr (True, position + length (sent_bytes p), 0))"
    and pub: "publishIfComplete ops clock f1 link = receive_packet ops clock p (f, link)"
    using extract_sent_packet [OF d] Cons.prems by fastforce
  obtain f2 link2 where r: "receive_packet ops clock p (f, link) = (f2, link2)"
    by (cases "receive_packet ops clock p (f, link)")
  have d2: "drop (position + length (sent_bytes p)) buf = stream_bytes packets @ rest"
    using d by (rule drop_advance)
  have "receive_packets ops clock packets (f2, link2) = (f', link')"
    using Cons.prems(4) r by simp
  from Cons.IH [OF d2 _ Cons.prems(3) this] Cons.prems(2)
  obtain noted' where "extraction_loop ops clock on_complete buf (position + length (sent_bytes p))
        (if fo_isComplete ops f1 then on_complete f1 noted else noted) f2 link2 =
      extraction_loop ops clock on_complete buf
        (position + length (sent_bytes p) + length (stream_bytes packets)) noted' f' link'"
    by fastforce
  then show ?case
    using extraction_loop_more [OF ex, of clock link f2 link2 on_complete noted] pub r
    by (intro exI [of _ noted']) (simp add: add.assoc)
qed

text \<open>
  The end of the range: less than 80 bytes are given up, a longer piece of a packet is kept and
  waited for.
\<close>

lemma extraction_loop_short:
  assumes "position \<le> length buf" and "length buf - position < 80" and "length buf < 2 ^ 32"
    and "\<not> fo_isComplete ops f"
  shows "extraction_loop ops clock on_complete buf position noted f link =
    Some (f, link, Inr (length buf, 0, noted))"
proof -
  have "extractScanPacketFromByteRange ops buf position f = (f, Inr (False, length buf, 0))"
    using assms(1-3) by (simp add: extractScanPacketFromByteRange_def retrievePacketHeader_short)
  from extraction_loop_last [OF this, of clock link f link] show ?thesis
    using assms(4) by (simp add: publishIfComplete_def)
qed

lemma extraction_loop_partial:
  assumes "drop position buf @ missing = sent_bytes p" and "sent_ok p" and "missing \<noteq> []"
    and "position + 80 \<le> length buf" and "length buf < 2 ^ 32"
    and "\<not> fo_isComplete ops (clearOnScanChange ops (fst (snd p)) f)"
  shows "extraction_loop ops clock on_complete buf position noted f link =
    Some (clearOnScanChange ops (fst (snd p)) f, link, Inr (position, of_nat (length missing), noted))"
proof -
  obtain T h padding pts where p: "p = (T, h, padding, pts)" by (cases p)
  have "extractScanPacketFromByteRange ops buf position f =
      (clearOnScanChange ops h f, Inr (False, position, of_nat (length missing)))"
    using assms by (intro extract_incomplete_packet [where missing = missing]) (auto simp: p)
  from extraction_loop_last [OF this, of clock link "clearOnScanChange ops h f" link] show ?thesis
    using assms(6) by (simp add: publishIfComplete_def p)
qed

definition sent_header :: "sent_packet \<Rightarrow> Header" where
  "sent_header p = fst (snd p)"

text \<open>A packet as the factory stores it, the scan the device sent, and its points.\<close>

fun decoded_packet :: "sent_packet \<Rightarrow> Packet" where
  "decoded_packet (T, h, padding, pts) =
     (h, map (fst \<circ> point_value T) pts, map (snd \<circ> point_value T) pts)"

definition sent_points :: "sent_packet \<Rightarrow> nat" where
  "sent_points p = length (fst (snd (decoded_packet p)))"

definition scan_of_packets :: "time_point \<Rightarrow> sent_packet list \<Rightarrow> Scan" where
  "scan_of_packets t packets =
     \<lparr>sc_distances = concat (map (\<lambda>p. fst (snd (decoded_packet p))) packets),
      sc_amplitudes = concat (map (\<lambda>p. snd (snd (decoded_packet p))) packets),
      sc_headers = map sent_header packets, sc_timestamp = t\<rparr>"

lemma fst_decoded_packet [simp]: "fst (decoded_packet p) = sent_header p"
  by (cases p) (simp add: sent_header_def)

text \<open>The packets of one scan: one scan number, the announced number of points, none without points.\<close>

definition packets_of_scan :: "u16 \<Rightarrow> sent_packet list \<Rightarrow> bool" where
  "packets_of_scan n packets \<longleftrightarrow>
     (\<forall>p \<in> set packets. h_scanNumber (sent_header p) = h_scanNumber (sent_header (hd packets)) \<and>
        h_numPointsScan (sent_header p) = n \<and> 0 < sent_points p) \<and>
     (\<Sum>p \<leftarrow> packets. sent_points p) = unat n"

text \<open>A piece of the next packet: nothing, or at least 80 of its bytes but not all.\<close>

definition waiting_piece :: "sent_packet \<Rightarrow> byte list \<Rightarrow> bool" where
  "waiting_piece p piece \<longleftrightarrow> sent_ok p \<and> 80 \<le> length piece \<and>
     (\<exists>missing. missing \<noteq> [] \<and> piece @ missing = sent_bytes p)"

context scan_factory
begin

lemma receive_packet_clear:
  "receive_packet ops clock p (clearOnScanChange ops (sent_header p) f, link) = receive_packet ops clock p (f, link)"
  by (cases p) (simp add: sent_header_def clearOnScanChange_idem)

lemma receive_packet_invariant:
  assumes "receive_packet ops clock p (f, link) = (f', link')"
    and "inv f" and "one_scan (hdrs f)" and "published_sound link"
  shows "inv f' \<and> one_scan (hdrs f') \<and> \<not> fo_isComplete ops f' \<and> published_sound link'"
proof -
  obtain T h padding pts where p: "p = (T, h, padding, pts)" by (cases p)
  show ?thesis
    by (rule publish_invariant [OF assms(1) [unfolded p receive_packet.simps]])
      (simp_all add: assms store_inv store_one_scan)
qed

lemma receive_packets_invariant:
  assumes "receive_packets ops clock packets (f, link) = (f', link')"
    and "inv f" and "one_scan (hdrs f)" and "published_sound link" and "\<not> fo_isComplete ops f"
  shows "inv f' \<and> one_scan (hdrs f') \<and> \<not> fo_isComplete ops f' \<and> published_sound link'"
  using assms
proof (induction packets arbitrary: f link)
  case (Cons p packets)
  obtain f1 link1 where r: "receive_packet ops clock p (f, link) = (f1, link1)"
    by (cases "receive_packet ops clock p (f, link)")
  then have "receive_packets ops clock packets (f1, link1) = (f', link')" using Cons.prems(1) by simp
  moreover have "inv f1 \<and> one_scan (hdrs f1) \<and> \<not> fo_isComplete ops f1 \<and> published_sound link1"
    using receive_packet_invariant [OF r] Cons.prems by blast
  ultimately show ?case using Cons.IH by blast
qed simp

text \<open>A range that holds packets and then nothing, or a piece of the next one.\<close>

lemma extraction_loop_whole:
  assumes "buf = before @ stream_bytes packets" and "\<forall>p \<in> set packets. sent_ok p"
    and "length buf < 2 ^ 32" and "inv f" and "one_scan (hdrs f)" and "published_sound link"
    and "\<not> fo_isComplete ops f" and "receive_packets ops clock packets (f, link) = (f', link')"
  shows "\<exists>noted'. extraction_loop ops clock on_complete buf (length before) noted f link =
    Some (f', link', Inr (length buf, 0, noted'))"
proof -
  have "\<not> fo_isComplete ops f'" using receive_packets_invariant [OF assms(8)] assms by blast
  then have last: "extraction_loop ops clock on_complete buf (length buf) noted' f' link' =
      Some (f', link', Inr (length buf, 0, noted'))" for noted'
    using assms by (intro extraction_loop_short) simp_all
  show ?thesis
    using extraction_loop_packets [of "length before" buf packets "[]" ops clock f link f' link' on_complete noted]
      assms last by simp
qed

lemma extraction_loop_piece:
  assumes "buf = stream_bytes packets @ piece" and "\<forall>p \<in> set packets. sent_ok p"
    and "waiting_piece q piece"
    and "length buf < 2 ^ 32" and "inv f" and "one_scan (hdrs f)" and "published_sound link"
    and "\<not> fo_isComplete ops f" and "receive_packets ops clock packets (f, link) = (f', link')"
  shows "\<exists>noted' m. extraction_loop ops clock on_complete buf 0 noted f link =
    Some (clearOnScanChange ops (sent_header q) f', link', Inr (length (stream_bytes packets), m, noted'))"
proof -
  let ?p = "length (stream_bytes packets)"
  have inv': "inv f' \<and> \<not> fo_isComplete ops f'"
    using receive_packets_invariant [OF assms(9)] assms by blast
  obtain missing where m: "missing \<noteq> []" "piece @ missing = sent_bytes q"
    and q: "sent_ok q" "80 \<le> length piece"
    using assms(3) by (auto simp: waiting_piece_def)
  have "\<not> fo_isComplete ops (clearOnScanChange ops (sent_header q) f')"
    using inv' clearOnScanChange_not_complete by blast
  then have last: "extraction_loop ops clock on_complete buf ?p noted' f' link' =
      Some (clearOnScanChange ops (sent_header q) f', link', Inr (?p, of_nat (length missing), noted'))" for noted'
    unfolding sent_header_def
    using assms m q by (intro extraction_loop_partial) simp_all
  show ?thesis
    using extraction_loop_packets [of 0 buf packets piece ops clock f link f' link' on_complete noted]
      assms last by fastforce
qed

end

end
