(* ===== verification/Scan_Streams.thy ===== *)
theory Scan_Streams
  imports Extraction_Loop
begin

text \<open>
  The packets of scans, one scan after the other, in a factory of either link: what a factory holds while the
  packets of a scan come in, and what a sequence of scans, of which some stay incomplete, leaves. The
  locale \<open>scan_store\<close> extends the contract of a factory by what it holds of the packets given to it.
\<close>

section \<open>The packets of a scan\<close>

definition points_of :: "sent_packet list \<Rightarrow> nat" where
  "points_of packets = (\<Sum>p \<leftarrow> packets. sent_points p)"

text \<open>The points the packets of a scan announce.\<close>

definition announced :: "sent_packet list \<Rightarrow> nat" where
  "announced packets = unat (h_numPointsScan (sent_header (hd packets)))"

definition scan_number :: "sent_packet list \<Rightarrow> u16" where
  "scan_number packets = h_scanNumber (sent_header (hd packets))"

definition same_scan :: "sent_packet list \<Rightarrow> bool" where
  "same_scan packets \<longleftrightarrow>
     (\<forall>p \<in> set packets. h_scanNumber (sent_header p) = h_scanNumber (sent_header (hd packets)) \<and>
        unat (h_numPointsScan (sent_header p)) = announced packets \<and> 0 < sent_points p)"

text \<open>
  Packets of one scan, all of them or only some, as they arrive: they carry one scan number and
  announce the same number of points, which they do not exceed, none is without points, and none after
  the first has packet number 1.
\<close>

definition scan_part :: "sent_packet list \<Rightarrow> bool" where
  "scan_part packets \<longleftrightarrow>
     packets \<noteq> [] \<and> same_scan packets \<and> points_of packets \<le> announced packets \<and>
     (\<forall>p \<in> set (tl packets). \<not> isNewScan (sent_header p))"

text \<open>The packets of one scan from its first one on.\<close>

definition begun_scan :: "sent_packet list \<Rightarrow> bool" where
  "begun_scan packets \<longleftrightarrow>
     packets \<noteq> [] \<and> same_scan packets \<and> points_of packets \<le> announced packets \<and>
     isNewScan (sent_header (hd packets)) \<and> (\<forall>p \<in> set (tl packets). \<not> isNewScan (sent_header p))"

lemma begun_scan_part: "begun_scan packets \<longleftrightarrow> scan_part packets \<and> isNewScan (sent_header (hd packets))"
  by (auto simp: begun_scan_def scan_part_def)

text \<open>
  Parts of scans that can be told apart: each starts with packet number 1, or has another scan number
  than the part before it; \<open>held\<close> is the scan number of what the factory holds before the first.
\<close>

fun separate :: "u16 option \<Rightarrow> sent_packet list list \<Rightarrow> bool" where
  "separate held [] \<longleftrightarrow> True"
| "separate held (packets # scans) \<longleftrightarrow>
     (isNewScan (sent_header (hd packets)) \<or> held \<noteq> Some (scan_number packets)) \<and> separate (Some (scan_number packets)) scans"

lemma begun_scans_separate: "\<forall>packets \<in> set scans. begun_scan packets \<Longrightarrow> separate held scans"
  by (induction scans arbitrary: held) (simp_all add: begun_scan_part)

lemma points_of_simps [simp]:
  "points_of [] = 0" "points_of (p # ps) = sent_points p + points_of ps" "points_of (ps @ qs) = points_of ps + points_of qs"
  by (simp_all add: points_of_def)

lemma points_of_positive: "\<forall>p \<in> set packets. 0 < sent_points p \<Longrightarrow> points_of packets = 0 \<longleftrightarrow> packets = []"
  by (cases packets) auto

lemma announced_append [simp]: "packets \<noteq> [] \<Longrightarrow> announced (packets @ later) = announced packets"
  by (simp add: announced_def)

lemma same_scan_prefix: "same_scan (packets @ later) \<Longrightarrow> packets \<noteq> [] \<Longrightarrow> same_scan packets"
  unfolding same_scan_def set_append by (metis UnI1 announced_append hd_append2)

lemma scan_part_prefix: "scan_part (packets @ later) \<Longrightarrow> packets \<noteq> [] \<Longrightarrow> scan_part packets"
  using same_scan_prefix [of packets later] by (simp add: scan_part_def)

lemma scan_part_open:
  assumes "scan_part (packets @ later)" and "packets \<noteq> []" and "later \<noteq> []"
  shows "points_of packets < announced packets"
proof -
  have "\<forall>p \<in> set later. 0 < sent_points p" using assms(1) unfolding scan_part_def same_scan_def by simp
  then have "0 < points_of later" using points_of_positive assms(3) by blast
  then show ?thesis using assms(1,2) by (simp add: scan_part_def)
qed

lemma scan_part_last:
  assumes "scan_part packets"
  shows "h_scanNumber (sent_header (last packets)) = scan_number packets"
    and "unat (h_numPointsScan (sent_header (last packets))) = announced packets"
proof -
  have "last packets \<in> set packets" using assms by (simp add: scan_part_def)
  then show "h_scanNumber (sent_header (last packets)) = scan_number packets"
    "unat (h_numPointsScan (sent_header (last packets))) = announced packets"
    using assms unfolding scan_part_def same_scan_def scan_number_def by blast+
qed

section \<open>What a factory holds of them\<close>

text \<open>Storing a packet, as \<open>extractScanPacketFromByteRange\<close> does.\<close>

definition store_packet :: "'f factory_ops \<Rightarrow> sent_packet \<Rightarrow> 'f \<Rightarrow> 'f" where
  "store_packet ops p f =
     fo_addPacket ops (sent_header p) (fst (snd (decoded_packet p))) (snd (snd (decoded_packet p)))
       (clearOnScanChange ops (sent_header p) f)"

lemma receive_packet_store: "receive_packet ops clock p (f, link) = publishIfComplete ops clock (store_packet ops p f) link"
  by (cases p) (simp add: store_packet_def sent_header_def)

text \<open>
  \<open>holding packets\<close> is the factory that holds these packets, \<open>arranged packets\<close> the order in which it puts
  them into a scan.
\<close>

locale scan_store = scan_factory ops new inv hdrs count
  for ops :: "'f factory_ops" and new inv hdrs count +
  fixes holding :: "sent_packet list \<Rightarrow> 'f"
    and arranged :: "sent_packet list \<Rightarrow> sent_packet list"
  assumes empty_new: "inv f \<Longrightarrow> hdrs f = [] \<Longrightarrow> f = new"
    and holding_Nil: "holding [] = new"
    and holding_add: "fo_addPacket ops (sent_header p) (fst (snd (decoded_packet p))) (snd (snd (decoded_packet p))) (holding packets) =
      holding (packets @ [p])"
    and holding_complete: "scan_part packets \<Longrightarrow> fo_isComplete ops (holding packets) \<longleftrightarrow> announced packets \<le> points_of packets"
    and holding_scan: "fst (fo_assemble ops t (holding packets)) = scan_of_packets t (arranged packets)"
begin

text \<open>The scan number of what a factory holds.\<close>

definition held :: "'f \<Rightarrow> u16 option" where
  "held f = (if hdrs f = [] then None else Some (h_scanNumber (last (hdrs f))))"

text \<open>What a part of a scan leaves: it is published when all its points are there, and kept otherwise.\<close>

definition after_part :: "clock \<Rightarrow> sent_packet list \<Rightarrow> DataLink \<Rightarrow> 'f \<times> DataLink" where
  "after_part clock packets link =
     (if points_of packets = announced packets
      then (new, setOutputScanFromCompletedFactory (scan_of_packets (clock (dl_scanCounter link)) (arranged packets)) link)
      else (holding packets, link))"

definition publish_part :: "clock \<Rightarrow> sent_packet list \<Rightarrow> DataLink \<Rightarrow> DataLink" where
  "publish_part clock packets link =
     (if points_of packets = announced packets
      then setOutputScanFromCompletedFactory (scan_of_packets (clock (dl_scanCounter link)) (arranged packets)) link else link)"

lemma hdrs_holding: "hdrs (holding packets) = map sent_header packets"
proof (induction packets rule: rev_induct)
  case (snoc p packets)
  then show ?case by (simp add: hdrs_add flip: holding_add)
qed (simp add: holding_Nil hdrs_new)

lemma inv_holding: "inv (holding packets)"
proof (induction packets rule: rev_induct)
  case (snoc p packets)
  have "length (snd (snd (decoded_packet p))) = length (fst (snd (decoded_packet p)))" by (cases p) simp
  from inv_add [OF snoc this, of "sent_header p"] show ?case by (simp add: holding_add)
qed (simp add: holding_Nil inv_new)

lemma store_first:
  assumes "inv f" and "isNewScan (sent_header p) \<or> held f \<noteq> Some (h_scanNumber (sent_header p))"
  shows "store_packet ops p f = holding [p]"
proof -
  have inj: "(ucast a :: u32) = ucast b \<longleftrightarrow> a = b" for a b :: u16 by (simp add: ucast_up_eq_iff)
  have "clearOnScanChange ops (sent_header p) f = new"
  proof (cases "hdrs f = []")
    case True
    then show ?thesis using empty_new [OF assms(1)] by (simp add: clearOnScanChange_def empty_iff)
  next
    case False
    then have "isNewScan (sent_header p) \<or> isDifferentScan ops f (sent_header p)"
      using assms(2) inj by (auto simp: held_def isDifferentScan_def differs_iff)
    then show ?thesis
      using False empty_new [OF inv_clear hdrs_clear] by (auto simp: clearOnScanChange_def empty_iff)
  qed
  then show ?thesis using holding_add [of p "[]"] by (simp add: store_packet_def holding_Nil)
qed

lemma store_next:
  assumes "scan_part (packets @ [p])" and "packets \<noteq> []"
  shows "store_packet ops p (holding packets) = holding (packets @ [p])"
proof -
  have part: "scan_part packets" by (rule scan_part_prefix [OF assms])
  have "h_scanNumber (sent_header p) = scan_number (packets @ [p])"
    using scan_part_last(1) [OF assms(1)] by simp
  then have "h_scanNumber (sent_header p) = h_scanNumber (sent_header (last packets))"
    using scan_part_last(1) [OF part] assms(2) by (simp add: scan_number_def)
  moreover have "\<not> isNewScan (sent_header p)" using assms by (simp add: scan_part_def)
  ultimately have "clearOnScanChange ops (sent_header p) (holding packets) = holding packets"
    using assms(2) by (simp add: clearOnScanChange_def isDifferentScan_def differs_iff hdrs_holding last_map)
  then show ?thesis by (simp add: store_packet_def holding_add)
qed

lemma publish_holding:
  assumes "scan_part packets"
  shows "publishIfComplete ops clock (holding packets) link = after_part clock packets link"
proof -
  have "snd (fo_assemble ops t (holding packets)) = new" for t
    by (rule empty_new [OF inv_assemble hdrs_assemble])
  moreover have "points_of packets \<le> announced packets" using assms by (simp add: scan_part_def)
  ultimately show ?thesis
    using holding_complete [OF assms]
    by (auto simp: publishIfComplete_def after_part_def split_beta holding_scan)
qed

lemma receive_rest:
  assumes "scan_part (received @ packets)" and "received \<noteq> []" and "points_of received < announced received"
  shows "receive_packets ops clock packets (holding received, link) = after_part clock (received @ packets) link"
  using assms
proof (induction packets arbitrary: received)
  case Nil
  then show ?case by (simp add: after_part_def)
next
  case (Cons p packets)
  have part: "scan_part ((received @ [p]) @ packets)" using Cons.prems(1) by simp
  have here: "scan_part (received @ [p])" by (rule scan_part_prefix [OF part]) simp
  have p: "receive_packet ops clock p (holding received, link) = after_part clock (received @ [p]) link"
    by (simp add: receive_packet_store store_next [OF here Cons.prems(2)] publish_holding [OF here])
  show ?case
  proof (cases "packets = []")
    case True
    then show ?thesis using p by simp
  next
    case False
    have still: "points_of (received @ [p]) < announced (received @ [p])" by (rule scan_part_open [OF part _ False]) simp
    then have "after_part clock (received @ [p]) link = (holding (received @ [p]), link)" by (simp add: after_part_def)
    then show ?thesis using Cons.IH [OF part _ still] p by simp
  qed
qed

lemma receive_part:
  assumes "inv f" and "scan_part packets"
    and "isNewScan (sent_header (hd packets)) \<or> held f \<noteq> Some (scan_number packets)"
  shows "receive_packets ops clock packets (f, link) = after_part clock packets link"
proof -
  obtain p rest where packets: "packets = [p] @ rest" using assms(2) by (cases packets) (auto simp: scan_part_def)
  then have part: "scan_part ([p] @ rest)" using assms(2) by simp
  have here: "scan_part [p]" by (rule scan_part_prefix [OF part]) simp
  have "store_packet ops p f = holding [p]"
    using assms(1,3) by (intro store_first) (simp_all add: packets scan_number_def)
  then have p: "receive_packet ops clock p (f, link) = after_part clock [p] link"
    by (simp add: receive_packet_store publish_holding [OF here])
  show ?thesis
  proof (cases "rest = []")
    case True
    then show ?thesis using p packets by simp
  next
    case False
    have still: "points_of [p] < announced [p]" by (rule scan_part_open [OF part _ False]) simp
    then have "after_part clock [p] link = (holding [p], link)" by (simp add: after_part_def)
    then show ?thesis using receive_rest [OF part _ still] p packets by simp
  qed
qed

text \<open>Any number of them: those that are not complete when the next one comes are dropped.\<close>

lemma separate_new: "separate (Some n) scans \<Longrightarrow> separate None scans"
  by (cases scans) simp_all

lemma receive_parts:
  assumes "inv f" and "\<forall>packets \<in> set scans. scan_part packets" and "separate (held f) scans"
  shows "snd (receive_packets ops clock (concat scans) (f, link)) = fold (publish_part clock) scans link"
  using assms
proof (induction scans arbitrary: f link)
  case (Cons packets scans)
  have part: "scan_part packets" using Cons.prems(2) by simp
  obtain f1 where after: "after_part clock packets link = (f1, publish_part clock packets link)" and f1: "f1 = new \<or> f1 = holding packets"
    by (cases "points_of packets = announced packets") (auto simp: after_part_def publish_part_def)
  have "packets \<noteq> []" using part by (simp add: scan_part_def)
  then have "held (holding packets) = Some (scan_number packets)"
    using scan_part_last(1) [OF part] by (simp add: held_def hdrs_holding last_map)
  moreover have "held new = None" by (simp add: held_def hdrs_new)
  ultimately have "separate (held f1) scans" using f1 Cons.prems(3) separate_new by auto
  moreover have "inv f1" using f1 inv_new inv_holding by blast
  moreover have "receive_packets ops clock packets (f, link) = (f1, publish_part clock packets link)"
    using receive_part [OF Cons.prems(1) part] Cons.prems(3) after by simp
  ultimately show ?case using Cons.IH [of f1] Cons.prems(2) by simp
qed simp

end

section \<open>The two factories\<close>

definition Tcp_holding :: "sent_packet list \<Rightarrow> TcpScanFactory" where
  "Tcp_holding packets =
     \<lparr>tf_distances = concat (map (\<lambda>p. fst (snd (decoded_packet p))) packets),
      tf_amplitudes = concat (map (\<lambda>p. snd (snd (decoded_packet p))) packets),
      tf_headers = map sent_header packets\<rparr>"

lemma Tcp_holding_points: "length (tf_distances (Tcp_holding packets)) = points_of packets"
  by (induction packets) (simp_all add: Tcp_holding_def sent_points_def)

interpretation tcp_store: scan_store tcp_ops TcpScanFactory_new Tcp_inv tf_headers "\<lambda>f. length (tf_distances f)"
    Tcp_holding "\<lambda>packets. packets"
proof unfold_locales
  show "fo_isComplete tcp_ops (Tcp_holding packets) \<longleftrightarrow> announced packets \<le> points_of packets"
    if "scan_part packets" for packets
    using that Tcp_holding_points [of packets]
    by (simp add: tcp_ops_def Tcp_isComplete_def Tcp_empty_def announced_def scan_part_def)
      (simp add: Tcp_holding_def hd_map)
qed (auto simp: Tcp_defs Tcp_holding_def scan_of_packets_def)

text \<open>The UDP factory keeps the packets in the order in which they arrive, and sorts them for a scan.\<close>

definition Udp_holding :: "sent_packet list \<Rightarrow> UdpScanFactory" where
  "Udp_holding packets =
     \<lparr>uf_packets = map decoded_packet packets, uf_numberOfPoints = of_nat (points_of packets)\<rparr>"

definition by_packet_number :: "sent_packet list \<Rightarrow> sent_packet list" where
  "by_packet_number packets = sort_key (\<lambda>p. unat (h_packetNumber (sent_header p))) packets"

lemma insort_key_map: "insort_key k (g x) (map g xs) = map g (insort_key (\<lambda>x. k (g x)) x xs)"
  by (induction xs) simp_all

lemma sort_key_map: "sort_key k (map g xs) = map g (sort_key (\<lambda>x. k (g x)) xs)"
  by (induction xs) (simp_all add: insort_key_map)

lemma Udp_sorted_decoded: "Udp_sorted (map decoded_packet packets) = map decoded_packet (by_packet_number packets)"
  by (simp add: Udp_sorted_def by_packet_number_def sort_key_map)

lemma by_packet_number_sent:
  assumes "mset received = mset sent"
    and "sorted_wrt (\<lambda>p q. h_packetNumber (sent_header p) < h_packetNumber (sent_header q)) sent"
  shows "by_packet_number received = sent"
proof -
  let ?n = "\<lambda>p. unat (h_packetNumber (sent_header p))"
  have "sorted_wrt (<) (map ?n sent)" using assms(2) by (simp add: sorted_wrt_map word_less_nat_alt)
  then have "distinct (map ?n sent)" "sorted (map ?n sent)" by (simp_all add: strict_sorted_iff)
  moreover from this assms(1) have "inj_on ?n (set received)"
    by (metis distinct_map mset_eq_setD)
  ultimately show ?thesis
    unfolding by_packet_number_def using assms(1) by (intro sort_key_inj_key_eq) simp_all
qed

interpretation udp_store: scan_store udp_ops UdpScanFactory_new Udp_inv "\<lambda>f. map fst (uf_packets f)" Udp_count
    Udp_holding by_packet_number
proof unfold_locales
  show "fo_isComplete udp_ops (Udp_holding packets) \<longleftrightarrow> announced packets \<le> points_of packets"
    if "scan_part packets" for packets
  proof -
    have "unat (h_numPointsScan (sent_header (last packets))) = announced packets" by (rule scan_part_last(2) [OF that])
    moreover have "unat (ucast n :: u32) = unat n" for n :: u16 by (simp add: unat_ucast_up)
    moreover have "announced packets < 65536" using unsigned_less [of "h_numPointsScan (sent_header (hd packets))"] by (simp add: announced_def)
    then have "unat (of_nat (points_of packets) :: u32) = points_of packets"
      using that by (intro unat_eq_of_nat) (simp add: scan_part_def)
    ultimately show ?thesis
      using that
      by (simp add: udp_ops_def Udp_isComplete_def Udp_empty_def Udp_holding_def scan_part_def last_map word_le_nat_alt Let_def)
  qed
  show "fst (fo_assemble udp_ops t (Udp_holding packets)) = scan_of_packets t (by_packet_number packets)" for t packets
    by (simp add: udp_ops_def Udp_assemble_def Udp_holding_def Udp_sorted_decoded scan_of_packets_def comp_def Let_def)
qed (auto simp: Udp_defs Udp_holding_def sent_points_def prod_eq_iff)

end
