(* ===== verification/UDP_Link.thy ===== *)
theory UDP_Link
  imports Scan_Streams
begin

text \<open>
  The UDP link (\<open>include/DataLink/UDPLink.hpp\<close> and \<open>src/DataLink/UDPLink.cpp\<close>), modelled like the TCP
  link: the outcomes of the socket operations are inputs, and the operation in flight is a field.
\<close>

section \<open>State\<close>

definition DATAGRAM_SIZE :: u32 where
  "DATAGRAM_SIZE = 65535"

datatype udp_operation = Receiving | No_Reception | Reception_Terminated fault

record UDPLink =
  ul_link :: DataLink
  ul_receptionByteBuffer :: "byte list"
  ul_extractionByteBuffer :: "byte list"
  ul_scanFactory :: UdpScanFactory
  ul_ioServiceTask :: bool
  ul_pending :: udp_operation

section \<open>Construction\<close>

text \<open>
  \<open>floor (DATAGRAM_SIZE * 1.5)\<close>: the product is exact in \<open>double\<close>. The vector is built with that many
  zero bytes, not with that capacity.
\<close>

definition UDP_EXTRACTION_SIZE :: nat where
  "UDP_EXTRACTION_SIZE = unat DATAGRAM_SIZE * 3 div 2"

definition Udp_setConnected :: "bool \<Rightarrow> UDPLink \<Rightarrow> UDPLink" where
  "Udp_setConnected b l = l\<lparr>ul_link := (ul_link l)\<lparr>dl_isConnected := b\<rparr>\<rparr>"

text \<open>
  \<open>queued\<close> is what the submission of the start of the stream returned; the other inputs are whether the
  socket is open already and whether opening, setting the option and binding fail.
\<close>

definition UDPLink_new :: "bool \<Rightarrow> bool \<Rightarrow> bool \<Rightarrow> bool \<Rightarrow> bool \<Rightarrow> UDPLink" where
  "UDPLink_new queued is_open openFails optionError bindError =
     (let l = \<lparr>ul_link = DataLink_new queued,
               ul_receptionByteBuffer = replicate (unat DATAGRAM_SIZE) 0,
               ul_extractionByteBuffer = replicate UDP_EXTRACTION_SIZE 0,
               ul_scanFactory = UdpScanFactory_new, ul_ioServiceTask = False,
               ul_pending = No_Reception\<rparr>;
          openError = (\<not> is_open \<and> openFails)
      in if openError \<or> optionError \<or> bindError
         then Udp_setConnected False l
         else (Udp_setConnected True l)\<lparr>ul_pending := Receiving, ul_ioServiceTask := True\<rparr>)"

section \<open>Reception\<close>

definition Udp_insertByteRangeIntoExtractionBuffer :: "byte list \<Rightarrow> UDPLink \<Rightarrow> UDPLink" where
  "Udp_insertByteRangeIntoExtractionBuffer bytes l =
     l\<lparr>ul_extractionByteBuffer := ul_extractionByteBuffer l @ bytes\<rparr>"

definition Udp_removeUsedByteRangeFromExtractionBufferBeginningUntil :: "nat \<Rightarrow> UDPLink \<Rightarrow> UDPLink" where
  "Udp_removeUsedByteRangeFromExtractionBufferBeginningUntil position l =
     (let remainingBytes = int (length (ul_extractionByteBuffer l)) - int position
      in if remainingBytes \<noteq> 0
         then l\<lparr>ul_extractionByteBuffer := drop position (ul_extractionByteBuffer l)\<rparr>
         else l\<lparr>ul_extractionByteBuffer := []\<rparr>)"

definition Udp_tryExtractingScanFromByteRange :: "clock \<Rightarrow> UDPLink \<Rightarrow> (UDPLink \<times> nat result) option" where
  "Udp_tryExtractingScanFromByteRange clock l =
     (case extraction_loop udp_ops clock (\<lambda>f u. u) (ul_extractionByteBuffer l) 0 ()
             (ul_scanFactory l) (ul_link l) of
        None \<Rightarrow> None
      | Some (f1, link1, r) \<Rightarrow>
          Some (l\<lparr>ul_scanFactory := f1, ul_link := link1\<rparr>,
                bind_result r (\<lambda>(position, numberOfMissingBytes, u). Inr position)))"

text \<open>\<open>None\<close> is a handler that never returns; an error of the socket is \<open>failed\<close>.\<close>

definition Udp_onBytesReceived :: "clock \<Rightarrow> bool \<Rightarrow> nat \<Rightarrow> UDPLink \<Rightarrow> UDPLink option" where
  "Udp_onBytesReceived clock failed byteTransferred l =
     (if failed
      then let l1 = Udp_setConnected False l
           in Some (l1\<lparr>ul_link := fireDataLinkConnectionLostEvent (ul_link l1), ul_pending := No_Reception\<rparr>)
      else let l1 = Udp_insertByteRangeIntoExtractionBuffer (take byteTransferred (ul_receptionByteBuffer l)) l
           in case Udp_tryExtractingScanFromByteRange clock l1 of
                None \<Rightarrow> None
              | Some (l2, Inl e) \<Rightarrow> Some (l2\<lparr>ul_pending := Reception_Terminated e\<rparr>)
              | Some (l2, Inr position) \<Rightarrow>
                  Some ((Udp_removeUsedByteRangeFromExtractionBufferBeginningUntil position l2)
                    \<lparr>ul_pending := Receiving\<rparr>))"

definition Udp_transfer :: "byte list \<Rightarrow> UDPLink \<Rightarrow> UDPLink" where
  "Udp_transfer bytes l =
     l\<lparr>ul_receptionByteBuffer := bytes @ drop (length bytes) (ul_receptionByteBuffer l)\<rparr>"

definition Udp_receive :: "clock \<Rightarrow> byte list \<Rightarrow> UDPLink \<Rightarrow> UDPLink option" where
  "Udp_receive clock bytes l =
     Udp_onBytesReceived clock False (length bytes) (Udp_transfer bytes l)"

section \<open>Destruction\<close>

text \<open>
  The io service is stopped once its run has returned because no operation was left. Otherwise the
  destructor waits for the task that runs it; waiting on a future without a task is undefined.
\<close>

definition Udp_ioService_stopped :: "UDPLink \<Rightarrow> bool" where
  "Udp_ioService_stopped l \<longleftrightarrow> ul_ioServiceTask l \<and> ul_pending l = No_Reception"

definition UDPLink_destroy :: "UDPLink \<Rightarrow> (UDPLink \<times> final_command list) result" where
  "UDPLink_destroy l =
     (if \<not> Udp_ioService_stopped l \<and> \<not> ul_ioServiceTask l then Inl Undefined_Behaviour
      else let (link1, commands) = DataLink_destroy (ul_link l)
           in Inr (l\<lparr>ul_link := link1, ul_pending := No_Reception\<rparr>, commands))"

section \<open>One reception\<close>

definition Udp_loop ::
  "clock \<Rightarrow> byte list \<Rightarrow> UDPLink \<Rightarrow> (UdpScanFactory \<times> DataLink \<times> (nat \<times> u32 \<times> unit) result) option" where
  "Udp_loop clock bytes l = extraction_loop udp_ops clock (\<lambda>f u. u) (ul_extractionByteBuffer l @ bytes) 0 ()
     (ul_scanFactory l) (ul_link l)"

lemma Udp_receive_eq:
  "Udp_receive clock bytes l =
    (case Udp_loop clock bytes l of
       None \<Rightarrow> None
     | Some (f1, link1, r) \<Rightarrow>
         Some (l\<lparr>ul_receptionByteBuffer := ul_receptionByteBuffer (Udp_transfer bytes l),
                 ul_scanFactory := f1, ul_link := link1,
                 ul_extractionByteBuffer :=
                   drop (case r of Inl e \<Rightarrow> 0 | Inr (p, m, u) \<Rightarrow> p) (ul_extractionByteBuffer l @ bytes),
                 ul_pending := (case r of Inl e \<Rightarrow> Reception_Terminated e | Inr x \<Rightarrow> Receiving)\<rparr>))"
  by (simp add: Udp_receive_def Udp_onBytesReceived_def Udp_transfer_def Let_def Udp_loop_def
      Udp_insertByteRangeIntoExtractionBuffer_def Udp_tryExtractingScanFromByteRange_def
      Udp_removeUsedByteRangeFromExtractionBufferBeginningUntil_def split: option.splits sum.splits)

section \<open>Datagrams of whole packets\<close>

text \<open>
  The extraction buffer between two such datagrams: empty, or the zero bytes it was built with. A search
  runs over bytes that start no magic.
\<close>

lemma retrievePacketHeader_skip:
  assumes "\<forall>b \<in> set junk. b \<noteq> 0x5C" and "80 \<le> length rest" and "length (junk @ rest) < 2 ^ 32"
  shows "retrievePacketHeader (junk @ rest) 0 = retrievePacketHeader (junk @ rest) (length junk)"
proof -
  let ?buf = "junk @ rest"
  have "\<not> magic_at ?buf i" if "i < length junk" for i
    using that assms(1) by (auto simp: magic_at_def nth_append)
  then have "find (magic_at ?buf) [0..<length junk] = None" by (auto simp: find_None_iff)
  moreover have "[0..<length ?buf - 1] = [0..<length junk] @ [length junk..<length ?buf - 1]"
    using assms(2) upt_add_eq_append [of 0 "length junk" "length rest - 1"] by auto
  moreover have "find P (xs @ ys) = (case find P xs of None \<Rightarrow> find P ys | Some x \<Rightarrow> Some x)"
    for P :: "nat \<Rightarrow> bool" and xs ys by (induction xs) auto
  ultimately have "find (magic_at ?buf) [0..<length ?buf - 1] =
      find (magic_at ?buf) [length junk..<length ?buf - 1]" by simp
  then show ?thesis using assms(2,3) by (simp add: retrievePacketHeader_eq)
qed

lemma extraction_loop_skip:
  assumes "\<forall>b \<in> set junk. b \<noteq> 0x5C" and "80 \<le> length rest" and "length (junk @ rest) < 2 ^ 32"
  shows "extraction_loop ops clock on_complete (junk @ rest) 0 noted f link =
    extraction_loop ops clock on_complete (junk @ rest) (length junk) noted f link"
proof -
  have "extractScanPacketFromByteRange ops (junk @ rest) 0 f =
      extractScanPacketFromByteRange ops (junk @ rest) (length junk) f"
    unfolding extractScanPacketFromByteRange_def retrievePacketHeader_skip [OF assms] ..
  then show ?thesis
    by (subst (1 2) extraction_loop.simps) simp
qed

definition Udp_ready :: "UDPLink \<Rightarrow> bool" where
  "Udp_ready l \<longleftrightarrow>
     (\<forall>b \<in> set (ul_extractionByteBuffer l). b \<noteq> 0x5C) \<and> length (ul_extractionByteBuffer l) \<le> 98302 \<and>
     Udp_inv (ul_scanFactory l) \<and> one_scan (map fst (uf_packets (ul_scanFactory l))) \<and>
     \<not> Udp_isComplete (ul_scanFactory l) \<and> published_sound (ul_link l)"

definition datagram_ok :: "sent_packet list \<Rightarrow> bool" where
  "datagram_ok packets \<longleftrightarrow> packets \<noteq> [] \<and> (\<forall>p \<in> set packets. sent_ok p) \<and>
     length (stream_bytes packets) \<le> 65535"

lemma Udp_receive_datagram:
  assumes "Udp_ready l" and "datagram_ok packets"
  shows "\<exists>l'. Udp_receive clock (stream_bytes packets) l = Some l' \<and> Udp_ready l' \<and>
    ul_extractionByteBuffer l' = [] \<and> ul_pending l' = Receiving \<and>
    (ul_scanFactory l', ul_link l') = receive_packets udp_ops clock packets (ul_scanFactory l, ul_link l)"
proof -
  let ?ext = "ul_extractionByteBuffer l" and ?b = "stream_bytes packets"
  obtain f' link' where spec:
      "receive_packets udp_ops clock packets (ul_scanFactory l, ul_link l) = (f', link')"
    by (cases "receive_packets udp_ops clock packets (ul_scanFactory l, ul_link l)")
  have small: "length (?ext @ ?b) < 2 ^ 32" and ok: "\<forall>p \<in> set packets. sent_ok p"
    using assms by (simp_all add: Udp_ready_def datagram_ok_def)
  obtain p ps where "packets = p # ps" using assms(2) by (cases packets) (auto simp: datagram_ok_def)
  then have long: "80 \<le> length ?b" using ok sent_ok_length [of p] by simp
  have r: "Udp_inv (ul_scanFactory l)" "one_scan (map fst (uf_packets (ul_scanFactory l)))"
    "\<not> fo_isComplete udp_ops (ul_scanFactory l)" "published_sound (ul_link l)"
    using assms(1) by (simp_all add: Udp_ready_def udp_ops_def)
  have "Udp_loop clock ?b l = extraction_loop udp_ops clock (\<lambda>f u. u) (?ext @ ?b) (length ?ext) ()
      (ul_scanFactory l) (ul_link l)"
    unfolding Udp_loop_def
    using assms(1) long small by (intro extraction_loop_skip) (simp_all add: Udp_ready_def)
  then obtain m u where "Udp_loop clock ?b l = Some (f', link', Inr (length (?ext @ ?b), m, u))"
    using udp_factory.extraction_loop_whole [OF refl ok small r(1,2,4,3) spec] by metis
  moreover have "Udp_inv f' \<and> one_scan (map fst (uf_packets f')) \<and> \<not> Udp_isComplete f' \<and> published_sound link'"
    using udp_factory.receive_packets_invariant [OF spec r(1,2,4,3)] by (simp add: udp_ops_def)
  ultimately show ?thesis
    using spec by (simp add: Udp_receive_eq Udp_ready_def)
qed

fun Udp_receive_all :: "clock \<Rightarrow> byte list list \<Rightarrow> UDPLink \<Rightarrow> UDPLink option" where
  "Udp_receive_all clock [] l = Some l"
| "Udp_receive_all clock (datagram # datagrams) l =
     (case Udp_receive clock datagram l of None \<Rightarrow> None | Some l1 \<Rightarrow> Udp_receive_all clock datagrams l1)"

lemma Udp_receive_all_datagrams:
  assumes "Udp_ready l" and "\<forall>packets \<in> set datagrams. datagram_ok packets"
  shows "\<exists>l'. Udp_receive_all clock (map stream_bytes datagrams) l = Some l' \<and> Udp_ready l' \<and>
    (ul_scanFactory l', ul_link l') =
      receive_packets udp_ops clock (concat datagrams) (ul_scanFactory l, ul_link l)"
  using assms
proof (induction datagrams arbitrary: l)
  case (Cons packets datagrams)
  then obtain l1 where l1: "Udp_receive clock (stream_bytes packets) l = Some l1" "Udp_ready l1"
      "(ul_scanFactory l1, ul_link l1) = receive_packets udp_ops clock packets (ul_scanFactory l, ul_link l)"
    using Udp_receive_datagram [of l packets clock] by auto
  from Cons.IH [OF l1(2)] Cons.prems(2) l1 show ?case by auto
qed simp

section \<open>One scan in datagrams out of order\<close>

lemma one_scan_part:
  assumes "packets_of_scan n sent" and "sent \<noteq> []" and "mset received = mset sent"
    and "\<forall>p \<in> set (tl received). \<not> isNewScan (sent_header p)"
  shows "scan_part received" and "points_of received = announced received"
proof -
  have set: "set received = set sent" using assms(3) by (rule mset_eq_setD)
  have ne: "received \<noteq> []" using assms(2,3) by auto
  then have hd: "hd received \<in> set sent" using set hd_in_set by blast
  have "points_of received = points_of sent" using assms(3) by (metis points_of_def mset_map sum_mset_sum_list)
  moreover have "announced received = unat n" "same_scan received"
    using assms(1) set hd by (simp_all add: packets_of_scan_def announced_def same_scan_def)
  ultimately show "scan_part received" "points_of received = announced received"
    using assms(1,4) ne by (simp_all add: scan_part_def packets_of_scan_def points_of_def)
qed

lemma receive_one_scan:
  assumes "Udp_inv f" and "uf_packets f = []" and "packets_of_scan n sent" and "sent \<noteq> []"
    and "sorted_wrt (\<lambda>p q. h_packetNumber (sent_header p) < h_packetNumber (sent_header q)) sent"
    and "mset received = mset sent" and "\<forall>p \<in> set (tl received). \<not> isNewScan (sent_header p)"
  shows "receive_packets udp_ops clock received (f, link) =
    (UdpScanFactory_new, setOutputScanFromCompletedFactory (scan_of_packets (clock (dl_scanCounter link)) sent) link)"
proof -
  have "udp_store.held f = None" using assms(2) by (simp add: udp_store.held_def)
  then show ?thesis
    using udp_store.receive_part [OF assms(1) one_scan_part(1) [OF assms(3,4,6,7)], of clock link]
      one_scan_part(2) [OF assms(3,4,6,7)] by_packet_number_sent [OF assms(6,5)]
    by (simp add: udp_store.after_part_def)
qed

section \<open>The link as a transition system\<close>

text \<open>What can happen to a link; the handlers run only while a reception is in flight.\<close>

inductive udp_step :: "clock \<Rightarrow> UDPLink \<Rightarrow> UDPLink \<Rightarrow> bool" for clock :: clock where
  started: "udp_step clock l (l\<lparr>ul_link := onStartScanCompleted result watchdogEnabled (ul_link l)\<rparr>)"
| watchdog: "dl_watchdogTask (ul_link l) \<Longrightarrow>
    udp_step clock l (l\<lparr>ul_link := watchdogTask_round outcome (ul_link l)\<rparr>)"
| stall_monitor: "dl_stallMonitoring (ul_link l) \<Longrightarrow>
    udp_step clock l (l\<lparr>ul_link := stallMonitoringTask_round now (ul_link l)\<rparr>)"
| lost_callback: "udp_step clock l (l\<lparr>ul_link := addOnDataLinkConnectionLostCallback callback (ul_link l)\<rparr>)"
| scan_callback: "udp_step clock l (l\<lparr>ul_link := addOnNewScanAvailableCallback callback (ul_link l)\<rparr>)"
| failed: "ul_pending l = Receiving \<Longrightarrow> Udp_onBytesReceived clock True transferred l = Some l' \<Longrightarrow>
    udp_step clock l l'"
| received: "ul_pending l = Receiving \<Longrightarrow> length bytes \<le> length (ul_receptionByteBuffer l) \<Longrightarrow>
    length (ul_extractionByteBuffer l) + length bytes < 2 ^ 32 \<Longrightarrow>
    Udp_receive clock bytes l = Some l' \<Longrightarrow> udp_step clock l l'"
| destroyed: "UDPLink_destroy l = Inr (l', commands) \<Longrightarrow> udp_step clock l l'"

inductive udp_reachable :: "clock \<Rightarrow> UDPLink \<Rightarrow> bool" for clock :: clock where
  constructed: "udp_reachable clock (UDPLink_new queued is_open openFails optionError bindError)"
| reached: "udp_reachable clock l \<Longrightarrow> udp_step clock l l' \<Longrightarrow> udp_reachable clock l'"

definition Udp_link_inv :: "UDPLink \<Rightarrow> bool" where
  "Udp_link_inv l \<longleftrightarrow> length (ul_receptionByteBuffer l) = 65535 \<and> Udp_inv (ul_scanFactory l) \<and>
     one_scan (map fst (uf_packets (ul_scanFactory l))) \<and> published_sound (ul_link l)"

lemma Udp_link_inv_new: "Udp_link_inv (UDPLink_new queued is_open openFails optionError bindError)"
  using udp_factory.inv_new
  by (simp add: Udp_link_inv_def UDPLink_new_def Udp_setConnected_def DATAGRAM_SIZE_def UdpScanFactory_new_def
      Let_def)

lemma Udp_link_inv_receive:
  assumes "Udp_link_inv l" and "length bytes \<le> length (ul_receptionByteBuffer l)"
    and "length (ul_extractionByteBuffer l) + length bytes < 2 ^ 32" and "Udp_receive clock bytes l = Some l'"
  shows "Udp_link_inv l'"
proof -
  have inv: "Udp_inv (ul_scanFactory l)" "one_scan (map fst (uf_packets (ul_scanFactory l)))"
    "published_sound (ul_link l)" "length (ul_receptionByteBuffer l) = 65535"
    using assms(1) by (simp_all add: Udp_link_inv_def)
  obtain f1 link1 r where loop: "Udp_loop clock bytes l = Some (f1, link1, r)"
    using assms(4) by (auto simp: Udp_receive_eq split: option.splits)
  have "length (ul_extractionByteBuffer l @ bytes) < 2 ^ 64" using assms(3) by simp
  from udp_factory.extraction_loop_invariant [OF loop [unfolded Udp_loop_def] this inv(1-3)]
  show ?thesis
    using assms(4) loop inv(4) assms(2) by (auto simp: Udp_receive_eq Udp_link_inv_def Udp_transfer_def)
qed

lemma Udp_link_inv_step:
  assumes "udp_step clock l l'" and "Udp_link_inv l"
  shows "Udp_link_inv l'"
  using assms
proof (cases rule: udp_step.cases)
  case (received bytes)
  then show ?thesis using assms(2) Udp_link_inv_receive by blast
next
  case (failed transferred)
  then show ?thesis using assms(2)
    by (auto simp: Udp_link_inv_def Udp_onBytesReceived_def Udp_setConnected_def Let_def)
next
  case (destroyed commands)
  then show ?thesis
    using assms(2) published_sound_tasks(7) [of "ul_link l"]
    by (auto simp: Udp_link_inv_def UDPLink_destroy_def split_beta Let_def split: if_splits)
qed (use assms(2) in \<open>auto simp: Udp_link_inv_def\<close>)

lemma Udp_link_inv_reachable: "udp_reachable clock l \<Longrightarrow> Udp_link_inv l"
  by (induction rule: udp_reachable.induct) (auto intro: Udp_link_inv_new Udp_link_inv_step)

section \<open>Properties\<close>

text \<open>
  The UDP link tolerates reordering. The packets of one scan, each in a datagram of its own and with
  increasing packet numbers as sent, are received in any order that does not put packet number 1 after
  another: exactly one scan is published, when the last of them arrives, and it is the scan as sent.
\<close>

theorem udp_scan_in_any_order:
  assumes "Udp_ready l" and "uf_packets (ul_scanFactory l) = []"
    and "packets_of_scan n sent" and "sent \<noteq> []"
    and "sorted_wrt (\<lambda>p q. h_packetNumber (sent_header p) < h_packetNumber (sent_header q)) sent"
    and "mset received = mset sent" and "\<forall>p \<in> set (tl received). \<not> isNewScan (sent_header p)"
    and "\<forall>p \<in> set sent. datagram_ok [p]"
  shows "\<exists>l'. Udp_receive_all clock (map sent_bytes received) l = Some l' \<and>
    ul_scanFactory l' = UdpScanFactory_new \<and>
    ul_link l' = setOutputScanFromCompletedFactory
      (scan_of_packets (clock (dl_scanCounter (ul_link l))) sent) (ul_link l)"
proof -
  have set: "set received = set sent" using assms(6) by (rule mset_eq_setD)
  have bytes: "map stream_bytes (map (\<lambda>p. [p]) received) = map sent_bytes received"
    and whole: "concat (map (\<lambda>p. [p]) received) = received" by simp_all
  have "\<forall>packets \<in> set (map (\<lambda>p. [p]) received). datagram_ok packets" using assms(8) set by simp
  from Udp_receive_all_datagrams [OF assms(1) this, of clock, unfolded bytes whole]
  obtain l' where l': "Udp_receive_all clock (map sent_bytes received) l = Some l'"
      "(ul_scanFactory l', ul_link l') =
        receive_packets udp_ops clock received (ul_scanFactory l, ul_link l)"
    by blast
  have "Udp_inv (ul_scanFactory l)" using assms(1) by (simp add: Udp_ready_def)
  from receive_one_scan [OF this assms(2-7), of clock "ul_link l"] l' show ?thesis by auto
qed

text \<open>Two packets of one scan, and the link after construction.\<close>

definition example_part :: "u16 \<Rightarrow> sent_packet" where
  "example_part packetNumber = (PT_C, example_header 3 packetNumber 4, [], example_points)"

lemma example_part_ok [simp]:
  "sent_header (example_part k) = example_header 3 k 4" "sent_points (example_part k) = 2"
  "datagram_ok [example_part k]"
  "fst (snd (decoded_packet (example_part k))) = [1234, 0]"
  by (simp_all add: example_part_def sent_header_def sent_points_def example_points_def datagram_ok_def
      example_well_formed [unfolded example_points_def] measure_of_def uint32_quiet_NaN_def)
    (simp add: packet_bytes_def)

lemma example_udp_ready: "Udp_ready (UDPLink_new True True False False False)"
  using udp_factory.inv_new
  by (simp add: Udp_ready_def UDPLink_new_def Udp_setConnected_def UDP_EXTRACTION_SIZE_def DATAGRAM_SIZE_def
      UdpScanFactory_new_def Udp_isComplete_def Udp_empty_def Let_def)

theorem udp_scan_in_any_order_witness:
  "\<exists>l'. Udp_receive_all (\<lambda>_. 77) [sent_bytes (example_part 3), sent_bytes (example_part 2)]
      (UDPLink_new True True False False False) = Some l' \<and>
    sc_distances (getLastScan (ul_link l')) = [1234, 0, 1234, 0] \<and>
    map h_packetNumber (sc_headers (getLastScan (ul_link l'))) = [2, 3]"
proof -
  let ?l = "UDPLink_new True True False False False"
  have empty: "uf_packets (ul_scanFactory ?l) = []"
    by (simp add: UDPLink_new_def Udp_setConnected_def UdpScanFactory_new_def Let_def)
  have "\<exists>l'. Udp_receive_all (\<lambda>_. 77) (map sent_bytes [example_part 3, example_part 2]) ?l = Some l' \<and>
    ul_scanFactory l' = UdpScanFactory_new \<and>
    ul_link l' = setOutputScanFromCompletedFactory
      (scan_of_packets 77 [example_part 2, example_part 3]) (ul_link ?l)"
    by (rule udp_scan_in_any_order [OF example_udp_ready empty, where n = 4])
      (simp_all add: packets_of_scan_def isNewScan_def)
  then show ?thesis
    by (auto simp: getLastScan_def publication_defs scan_of_packets_def Let_def)
qed

text \<open>
  Every scan a UDP link has handed to a callback, in any history of the link, is sound: its packets
  carry one scan number, there are as many amplitudes as distances, and at least as many points as
  one of its headers announces for the scan.
\<close>

theorem udp_published_scans_sound:
  assumes "udp_reachable clock l" and "New_Scan callback scan \<in> set (dl_events (ul_link l))"
  shows "(\<forall>h \<in> set (sc_headers scan). \<forall>h' \<in> set (sc_headers scan). h_scanNumber h = h_scanNumber h') \<and>
    length (sc_amplitudes scan) = length (sc_distances scan) \<and>
    (\<exists>h \<in> set (sc_headers scan). unat (h_numPointsScan h) \<le> length (sc_distances scan))"
proof -
  have "published_sound (ul_link l)"
    using Udp_link_inv_reachable [OF assms(1)] unfolding Udp_link_inv_def by blast
  then have "sound_scan scan" using assms(2) unfolding published_sound_def by blast
  then show ?thesis unfolding sound_scan_def .
qed

lemma example_udp_published:
  "\<exists>l. udp_reachable (\<lambda>_. 77) l \<and>
    New_Scan 1 (scan_of_packets 77 [(PT_C, example_header 3 1 2, [], example_points)]) \<in> set (dl_events (ul_link l))"
proof -
  let ?p = "(PT_C, example_header 3 1 2, [], example_points) :: sent_packet"
  let ?new = "UDPLink_new True True False False False"
  let ?l = "?new\<lparr>ul_link := addOnNewScanAvailableCallback 1 (ul_link ?new)\<rparr>"
  have fields: "ul_pending ?l = Receiving" "length (ul_receptionByteBuffer ?l) = 65535"
    "length (ul_extractionByteBuffer ?l) = 98302" "ul_scanFactory ?l = UdpScanFactory_new"
    "dl_onNewScanAvailableCallbacks (ul_link ?l) = [1]"
    by (simp_all add: UDPLink_new_def Udp_setConnected_def DATAGRAM_SIZE_def UDP_EXTRACTION_SIZE_def
        addOnNewScanAvailableCallback_def DataLink_new_def DataLink_initial_def Let_def)
  have reach: "udp_reachable (\<lambda>_. 77) ?l" by (rule reached [OF constructed scan_callback])
  have ready: "Udp_ready ?l" using example_udp_ready by (simp add: Udp_ready_def)
  have ok: "datagram_ok [?p]" by (simp add: datagram_ok_def example_well_formed)
  obtain l' where l': "Udp_receive (\<lambda>_. 77) (stream_bytes [?p]) ?l = Some l'"
      "(ul_scanFactory l', ul_link l') =
        receive_packets udp_ops (\<lambda>_. 77) [?p] (ul_scanFactory ?l, ul_link ?l)"
    using Udp_receive_datagram [OF ready ok] by blast
  have "udp_step (\<lambda>_. 77) ?l l'"
    by (rule received [OF fields(1) _ _ l'(1)]) (use fields(2,3) in simp_all)
  then have "udp_reachable (\<lambda>_. 77) l'" by (rule reached [OF reach])
  moreover have "receive_packets udp_ops (\<lambda>_. 77) [?p] (UdpScanFactory_new, ul_link ?l) =
      (UdpScanFactory_new, setOutputScanFromCompletedFactory (scan_of_packets 77 [?p]) (ul_link ?l))"
    using udp_factory.inv_new
    by (intro receive_one_scan [where n = 2])
      (simp_all add: UdpScanFactory_new_def packets_of_scan_def sent_header_def sent_points_def example_points_def)
  ultimately have "ul_link l' = setOutputScanFromCompletedFactory (scan_of_packets 77 [?p]) (ul_link ?l)"
    and "udp_reachable (\<lambda>_. 77) l'"
    using l'(2) unfolding fields(4) by (metis prod.inject)+
  then show ?thesis
    by (intro exI [of _ l']) (simp add: publication_defs Let_def, simp add: fields(5) [simplified])
qed

theorem udp_published_scans_sound_witness:
  "length (sc_amplitudes (scan_of_packets 77 [(PT_C, example_header 3 1 2, [], example_points)])) = 2"
proof -
  let ?s = "scan_of_packets 77 [(PT_C, example_header 3 1 2, [], example_points)]"
  obtain l where "udp_reachable (\<lambda>_. 77) l" "New_Scan 1 ?s \<in> set (dl_events (ul_link l))"
    using example_udp_published by blast
  from udp_published_scans_sound [OF this] have "length (sc_amplitudes ?s) = length (sc_distances ?s)" by blast
  then show ?thesis by (simp add: scan_of_packets_def example_points_def)
qed

text \<open>
  Packet number 1 discards on UDP what was received of its scan: when it comes after other packets, the
  factory holds packet number 1 alone, and the scan is complete only if the others are sent again.
\<close>

theorem udp_late_first_packet_discards:
  assumes "Udp_ready l" and "datagram_ok [p]" and "h_packetNumber (sent_header p) = 1"
    and "sent_points p < unat (h_numPointsScan (sent_header p))"
  shows "\<exists>l'. Udp_receive clock (sent_bytes p) l = Some l' \<and> ul_link l' = ul_link l \<and>
    uf_packets (ul_scanFactory l') = [decoded_packet p]"
proof -
  have "Udp_inv (ul_scanFactory l)" using assms(1) by (simp add: Udp_ready_def)
  from udp_store.store_first [OF this, of p] assms(3)
  have store: "store_packet udp_ops p (ul_scanFactory l) = Udp_holding [p]" by (simp add: isNewScan_def)
  have "unat (h_numPointsScan (sent_header p)) < 65536"
    using unsigned_less [of "h_numPointsScan (sent_header p)"] by simp
  then have "unat (of_nat (sent_points p) :: u32) = sent_points p" using assms(4) by (intro unat_eq_of_nat) simp
  then have "\<not> Udp_isComplete (Udp_holding [p])"
    using assms(4) by (simp add: Udp_isComplete_def Udp_holding_def word_le_nat_alt unat_ucast_up Let_def)
  then have "receive_packets udp_ops clock [p] (ul_scanFactory l, ul_link l) = (Udp_holding [p], ul_link l)"
    by (simp add: receive_packet_store store publishIfComplete_def) (simp add: udp_ops_def)
  with Udp_receive_datagram [OF assms(1,2), of clock] show ?thesis by (auto simp: Udp_holding_def)
qed

theorem udp_late_first_packet_discards_witness:
  "\<exists>l'. Udp_receive (\<lambda>_. 77) (sent_bytes (example_part 1)) (UDPLink_new True True False False False) = Some l' \<and>
    uf_packets (ul_scanFactory l') = [decoded_packet (example_part 1)]"
  using udp_late_first_packet_discards [OF example_udp_ready, of "example_part 1" "\<lambda>_. 77"] by auto

text \<open>
  The constructor of the UDP link reports the state of its socket only: when the start of the stream could
  not even be submitted, the link is alive and waits for datagrams as soon as the socket is bound.
\<close>

theorem udp_alive_without_stream:
  "isAlive (ul_link (UDPLink_new queued is_open openFails optionError bindError)) \<longleftrightarrow>
     \<not> (\<not> is_open \<and> openFails \<or> optionError \<or> bindError)"
  by (simp add: UDPLink_new_def Udp_setConnected_def isAlive_def Let_def)

text \<open>
  Destroying a UDP link whose socket could not be set up is undefined: the destructor waits for the
  task of the io service, which the constructor started only if the set-up succeeded. Destroying any
  other new link stops the stream and releases the handle.
\<close>

theorem udp_destroy_after_failed_setup:
  "(UDPLink_destroy (UDPLink_new queued is_open openFails optionError bindError) = Inl Undefined_Behaviour
     \<longleftrightarrow> \<not> is_open \<and> openFails \<or> optionError \<or> bindError) \<and>
   (\<exists>l. UDPLink_destroy (UDPLink_new queued is_open openFails False False) =
      (if \<not> is_open \<and> openFails then Inl Undefined_Behaviour
       else Inr (l, [StopScanCommand, ReleaseHandleCommand])))"
  by (simp add: UDPLink_destroy_def UDPLink_new_def Udp_ioService_stopped_def Udp_setConnected_def
      DataLink_destroy_def DataLink_new_def DataLink_initial_def Let_def)

end
