(* ===== verification/UDP_Scans.thy ===== *)
theory UDP_Scans
  imports UDP_Link
begin

text \<open>
  The UDP link from the datagrams it receives to the scans it publishes, for a network that loses datagrams
  and delivers those of a scan in any order.
\<close>

section \<open>Scans as they are sent and as they arrive\<close>

text \<open>A scan as the device sends it: complete, its packets with increasing numbers.\<close>

definition sent_scan :: "sent_packet list \<Rightarrow> bool" where
  "sent_scan sent \<longleftrightarrow>
     same_scan sent \<and> points_of sent = announced sent \<and>
     sorted_wrt (\<lambda>p q. h_packetNumber (sent_header p) < h_packetNumber (sent_header q)) sent"

text \<open>
  What arrives of it: some of its packets, each once and in any order, but packet number 1, if it arrives, before
  the others.
\<close>

definition arrives :: "sent_packet list \<Rightarrow> sent_packet list \<Rightarrow> bool" where
  "arrives sent received \<longleftrightarrow>
     received \<noteq> [] \<and> mset received \<subseteq># mset sent \<and> (\<forall>p \<in> set (tl received). \<not> isNewScan (sent_header p))"

lemma points_of_mset: "points_of packets = (\<Sum>p \<in># mset packets. sent_points p)"
  by (simp add: points_of_def flip: sum_mset_sum_list)

lemma arrived_points:
  assumes "same_scan sent" and "mset received \<subseteq># mset sent"
  shows "points_of received \<le> points_of sent" and "points_of received = points_of sent \<longleftrightarrow> mset received = mset sent"
proof -
  obtain lost where lost: "mset sent = mset (received @ lost)"
    using assms(2) by (metis ex_mset mset_append subset_mset.add_diff_inverse)
  then have points: "points_of sent = points_of received + points_of lost" by (simp add: points_of_mset)
  have "set lost \<subseteq> set sent" using lost by (metis Un_upper2 mset_eq_setD set_append)
  then have "\<forall>p \<in> set lost. 0 < sent_points p" using assms(1) by (auto simp: same_scan_def)
  then have "points_of lost = 0 \<longleftrightarrow> lost = []" by (rule points_of_positive)
  then show "points_of received \<le> points_of sent" "points_of received = points_of sent \<longleftrightarrow> mset received = mset sent"
    using points lost by auto
qed

lemma arrived_part:
  assumes "sent_scan sent" and "arrives sent received"
  shows "scan_part received" and "announced received = announced sent"
proof -
  have sub: "set received \<subseteq> set sent" using assms(2) set_mset_mono [of "mset received" "mset sent"] by (simp add: arrives_def)
  have same: "same_scan sent" using assms(1) by (simp add: sent_scan_def)
  have "hd received \<in> set sent" using assms(2) sub by (auto simp: arrives_def)
  then have hd: "h_scanNumber (sent_header (hd received)) = h_scanNumber (sent_header (hd sent))"
    "announced received = announced sent"
    using same unfolding same_scan_def announced_def by blast+
  then show "announced received = announced sent" by blast
  have "same_scan received" using same sub unfolding same_scan_def hd by blast
  moreover have "points_of received \<le> announced received"
    using arrived_points(1) [OF same] assms hd(2) by (simp add: arrives_def sent_scan_def)
  ultimately show "scan_part received" using assms(2) by (simp add: scan_part_def arrives_def)
qed

lemma publish_arrived:
  assumes "sent_scan sent" and "arrives sent received"
  shows "udp_store.publish_part clock received link =
    (if length received = length sent
     then setOutputScanFromCompletedFactory (scan_of_packets (clock (dl_scanCounter link)) sent) link else link)"
proof -
  have same: "same_scan sent" and sub: "mset received \<subseteq># mset sent"
    using assms by (simp_all add: sent_scan_def arrives_def)
  have "mset received = mset sent \<longleftrightarrow> length received = length sent"
    using sub by (metis mset_subset_eq_exists_conv nat_add_left_cancel_less mset_subset_size size_mset subset_mset.le_imp_less_or_eq less_irrefl)
  moreover have "by_packet_number received = sent" if "mset received = mset sent"
    using by_packet_number_sent that assms(1) by (simp add: sent_scan_def)
  ultimately show ?thesis
    using arrived_points(2) [OF same sub] arrived_part(2) [OF assms] assms(1)
    by (simp add: udp_store.publish_part_def sent_scan_def)
qed

lemma udp_parts:
  assumes "Udp_ready l" and "\<forall>packets \<in> set scans. scan_part packets"
    and "separate (udp_store.held (ul_scanFactory l)) scans"
    and "\<forall>packets \<in> set datagrams. datagram_ok packets" and "concat datagrams = concat scans"
  shows "\<exists>l'. Udp_receive_all clock (map stream_bytes datagrams) l = Some l' \<and>
    ul_link l' = fold (udp_store.publish_part clock) scans (ul_link l)"
proof -
  obtain l' where l': "Udp_receive_all clock (map stream_bytes datagrams) l = Some l'"
    "(ul_scanFactory l', ul_link l') = receive_packets udp_ops clock (concat scans) (ul_scanFactory l, ul_link l)"
    using Udp_receive_all_datagrams [OF assms(1,4), of clock] assms(5) by auto
  have "Udp_inv (ul_scanFactory l)" using assms(1) by (simp add: Udp_ready_def)
  from udp_store.receive_parts [OF this assms(2,3), of clock "ul_link l"] l'(2)
  have "ul_link l' = fold (udp_store.publish_part clock) scans (ul_link l)" by (metis snd_conv)
  with l'(1) show ?thesis by blast
qed

lemma publish_all_arrived:
  assumes "\<forall>(sent, received) \<in> set scans. sent_scan sent \<and> arrives sent received"
  shows "fold (udp_store.publish_part clock) (map snd scans) link =
    fold (\<lambda>(sent, received) link. if length received = length sent
      then setOutputScanFromCompletedFactory (scan_of_packets (clock (dl_scanCounter link)) sent) link
      else link) scans link"
  using assms
proof (induction scans arbitrary: link)
  case (Cons scan scans)
  obtain sent received where scan: "scan = (sent, received)" by (cases scan)
  show ?case using Cons publish_arrived [of sent received] by (simp add: scan)
qed simp

section \<open>Properties\<close>

text \<open>
  C3: The UDP link publishes the scans that arrive. Of each scan the device sends, complete and with increasing
  packet numbers, some packets arrive, in any datagrams and in any order that does not put packet number 1
  after another, and consecutive scans can be told apart, by their numbers or because the later one starts with
  its packet number 1: exactly the scans of which no packet is lost are published, one by one, each with
  its packets in the order in which they were sent.
\<close>

theorem udp_scans_published:
  assumes "Udp_ready l" and "\<forall>(sent, received) \<in> set scans. sent_scan sent \<and> arrives sent received"
    and "separate (if uf_packets (ul_scanFactory l) = [] then None
                   else Some (h_scanNumber (fst (last (uf_packets (ul_scanFactory l)))))) (map snd scans)"
    and "\<forall>packets \<in> set datagrams. datagram_ok packets" and "concat datagrams = concat (map snd scans)"
  shows "\<exists>l'. Udp_receive_all clock (map stream_bytes datagrams) l = Some l' \<and>
    ul_link l' = fold (\<lambda>(sent, received) link.
      if length received = length sent
      then setOutputScanFromCompletedFactory (scan_of_packets (clock (dl_scanCounter link)) sent) link
      else link) scans (ul_link l)"
proof -
  have "separate (udp_store.held (ul_scanFactory l)) (map snd scans)"
    using assms(3) by (simp add: udp_store.held_def last_map split: if_splits)
  moreover have "\<forall>packets \<in> set (map snd scans). scan_part packets" using assms(2) arrived_part(1) by auto
  ultimately show ?thesis
    using udp_parts [OF assms(1) _ _ assms(4,5), of clock] unfolding publish_all_arrived [OF assms(2)] by blast
qed

text \<open>
  Three scans of two packets: of the first, packet 1 is lost, the second arrives in the wrong order, and of the
  third the last packet is lost; the last datagram holds packets of two scans.
\<close>

definition example_lossy :: "u16 \<Rightarrow> u16 \<Rightarrow> sent_packet" where
  "example_lossy scanNumber packetNumber = (PT_C, example_header scanNumber packetNumber 4, [], example_points)"

lemma example_lossy_packet [simp]:
  "sent_header (example_lossy s k) = example_header s k 4" "sent_points (example_lossy s k) = 2"
  "sent_ok (example_lossy s k)" "length (sent_bytes (example_lossy s k)) = 84"
  "fst (snd (decoded_packet (example_lossy s k))) = [1234, 0]"
  by (simp_all add: example_lossy_def sent_header_def sent_points_def example_points_def
      example_well_formed [unfolded example_points_def] measure_of_def uint32_quiet_NaN_def)
    (simp_all add: packet_bytes_def)

theorem udp_scans_published_witness:
  "\<exists>l'. Udp_receive_all (\<lambda>_. 77)
      [sent_bytes (example_lossy 1 2), sent_bytes (example_lossy 2 3), sent_bytes (example_lossy 2 2) @ sent_bytes (example_lossy 3 1)]
      (UDPLink_new True True False False False) = Some l' \<and>
    dl_scanCounter (ul_link l') = 1 \<and> map h_packetNumber (sc_headers (getLastScan (ul_link l'))) = [2, 3]"
proof -
  let ?l = "UDPLink_new True True False False False"
  let ?scans = "[([example_lossy 1 1, example_lossy 1 2], [example_lossy 1 2]),
    ([example_lossy 2 2, example_lossy 2 3], [example_lossy 2 3, example_lossy 2 2]),
    ([example_lossy 3 1, example_lossy 3 2], [example_lossy 3 1])]"
  let ?datagrams = "[[example_lossy 1 2], [example_lossy 2 3], [example_lossy 2 2, example_lossy 3 1]]"
  have empty: "uf_packets (ul_scanFactory ?l) = []" "dl_scanCounter (ul_link ?l) = 0"
    by (simp_all add: UDPLink_new_def Udp_setConnected_def UdpScanFactory_new_def DataLink_new_def DataLink_initial_def Let_def)
  have "\<exists>l'. Udp_receive_all (\<lambda>_. 77) (map stream_bytes ?datagrams) ?l = Some l' \<and>
    ul_link l' = fold (\<lambda>(sent, received) link. if length received = length sent
      then setOutputScanFromCompletedFactory (scan_of_packets 77 sent) link else link) ?scans (ul_link ?l)"
    by (rule udp_scans_published [OF example_udp_ready, where clock = "\<lambda>_. 77"])
      (simp_all add: empty sent_scan_def arrives_def same_scan_def announced_def scan_number_def isNewScan_def datagram_ok_def)
  then show ?thesis
    using empty(2) by (auto simp: getLastScan_def publication_defs scan_of_packets_def Let_def)
qed

end
