(* ===== verification/Scan_Consumers.thy ===== *)
theory Scan_Consumers
  imports Extraction_Loop
begin

text \<open>
  A thread that waits for scans while the io task of the link publishes them. \<open>Data_Link\<close> takes
  \<open>setOutputScanFromCompletedFactory\<close> and \<open>waitForNextScan\<close> as one step each; here both are cut where
  the code releases its lock or reads without it, and the steps of the two threads are interleaved.
\<close>

section \<open>The steps of a publication and of a wait\<close>

definition store_scan :: "Scan \<Rightarrow> DataLink \<Rightarrow> DataLink" where
  "store_scan scan link = link\<lparr>dl_lastScanReceived := scan\<rparr>"

definition count_scan :: "DataLink \<Rightarrow> DataLink" where
  "count_scan link = link\<lparr>dl_scanCounter := dl_scanCounter link + 1\<rparr>"

text \<open>\<open>None\<close>: the link is not connected, and the wait returns at once.\<close>

definition wait_begin :: "DataLink \<Rightarrow> u64 option" where
  "wait_begin link = (if \<not> dl_isConnected link then None else Some (dl_scanCounter link))"

definition wait_satisfied :: "u64 \<Rightarrow> DataLink \<Rightarrow> bool" where
  "wait_satisfied scanCountBeforeWaiting link \<longleftrightarrow> dl_interruptFlag link \<or> scanCountBeforeWaiting \<noteq> dl_scanCounter link"

lemma publication_steps: "setOutputScanFromCompletedFactory scan link = fireOnScanAvailableEvent scan (count_scan (store_scan scan link))"
  by (simp add: setOutputScanFromCompletedFactory_def count_scan_def store_scan_def)

lemma wait_steps:
  "waitForNextScan link observed =
     (case wait_begin link of
        None \<Rightarrow> None
      | Some scanCountBeforeWaiting \<Rightarrow> map_option getLastScan (find (wait_satisfied scanCountBeforeWaiting) observed))"
  by (auto simp: waitForNextScan_def wait_begin_def wait_satisfied_def [abs_def] Let_def split: option.split)

section \<open>Two threads\<close>

datatype publisher = Not_Publishing | Stored Scan | Counted Scan
datatype consumer = Not_Waiting | Waits u64 | Takes

text \<open>
  \<open>dv_results\<close> are the scans the waits have returned. \<open>dv_stored\<close> are the scans the publisher has stored so
  far, and \<open>dv_taken\<close> how many they were at each result.
\<close>

record delivery =
  dv_link :: DataLink
  dv_publisher :: publisher
  dv_consumer :: consumer
  dv_results :: "Scan list"
  dv_stored :: "Scan list"
  dv_taken :: "nat list"

definition delivery_new :: "DataLink \<Rightarrow> delivery" where
  "delivery_new link =
     \<lparr>dv_link = link, dv_publisher = Not_Publishing, dv_consumer = Not_Waiting, dv_results = [], dv_stored = [], dv_taken = []\<rparr>"

text \<open>The other operations on a link leave its scan and the count alone.\<close>

inductive other_step :: "DataLink \<Rightarrow> DataLink \<Rightarrow> bool" where
  "other_step link (onStartScanCompleted result watchdogEnabled link)"
| "other_step link (watchdogTask_round outcome link)"
| "other_step link (stallMonitoringTask_round now link)"
| "other_step link (addOnDataLinkConnectionLostCallback callback link)"
| "other_step link (addOnNewScanAvailableCallback callback link)"
| "other_step link (fst (DataLink_destroy link))"

lemma other_step_keeps:
  assumes "other_step link link'"
  shows "dl_lastScanReceived link' = dl_lastScanReceived link" and "dl_scanCounter link' = dl_scanCounter link"
    and "dl_interruptFlag link \<Longrightarrow> dl_interruptFlag link'"
  using assms
  by (induction rule: other_step.induct)
    (auto simp: onStartScanCompleted_def watchdog_defs stallMonitoringTask_round_def
      addOnDataLinkConnectionLostCallback_def addOnNewScanAvailableCallback_def
      fireDataLinkConnectionLostEvent_def DataLink_destroy_def Let_def split: option.splits)

inductive delivery_step :: "delivery \<Rightarrow> delivery \<Rightarrow> bool" where
  store: "dv_publisher s = Not_Publishing \<Longrightarrow>
    delivery_step s (s\<lparr>dv_link := store_scan scan (dv_link s), dv_publisher := Stored scan, dv_stored := dv_stored s @ [scan]\<rparr>)"
| count: "dv_publisher s = Stored scan \<Longrightarrow>
    delivery_step s (s\<lparr>dv_link := count_scan (dv_link s), dv_publisher := Counted scan\<rparr>)"
| fire: "dv_publisher s = Counted scan \<Longrightarrow>
    delivery_step s (s\<lparr>dv_link := fireOnScanAvailableEvent scan (dv_link s), dv_publisher := Not_Publishing\<rparr>)"
| wait: "dv_consumer s = Not_Waiting \<Longrightarrow> wait_begin (dv_link s) = Some before \<Longrightarrow>
    delivery_step s (s\<lparr>dv_consumer := Waits before\<rparr>)"
| satisfied: "dv_consumer s = Waits before \<Longrightarrow> wait_satisfied before (dv_link s) \<Longrightarrow>
    delivery_step s (s\<lparr>dv_consumer := Takes\<rparr>)"
| timed_out: "dv_consumer s = Waits before \<Longrightarrow> \<not> wait_satisfied before (dv_link s) \<Longrightarrow>
    delivery_step s (s\<lparr>dv_consumer := Not_Waiting\<rparr>)"
| take_scan: "dv_consumer s = Takes \<Longrightarrow>
    delivery_step s (s\<lparr>dv_consumer := Not_Waiting, dv_results := dv_results s @ [getLastScan (dv_link s)],
                       dv_taken := dv_taken s @ [length (dv_stored s)]\<rparr>)"
| other: "other_step (dv_link s) link \<Longrightarrow> delivery_step s (s\<lparr>dv_link := link\<rparr>)"

inductive delivery_run :: "delivery \<Rightarrow> bool" where
  start: "delivery_run (delivery_new (DataLink_new queued))"
| step: "delivery_run s \<Longrightarrow> delivery_step s s' \<Longrightarrow> delivery_run s'"

section \<open>What the waits return\<close>

definition counted :: "delivery \<Rightarrow> nat" where
  "counted s = length (dv_stored s) - (case dv_publisher s of Stored scan \<Rightarrow> 1 | _ \<Rightarrow> 0)"

text \<open>A wait that has seen \<open>k\<close> scans counted can meet, of the scans taken before, the last one once more.\<close>

definition taken_before :: "nat list \<Rightarrow> nat \<Rightarrow> bool" where
  "taken_before taken k \<longleftrightarrow> (\<forall>n \<in> set taken. n \<le> Suc k) \<and> (\<forall>n \<in> set (butlast taken). n \<le> k)"

definition in_order :: "nat list \<Rightarrow> bool" where
  "in_order taken \<longleftrightarrow> sorted taken \<and> (\<forall>i. i + 2 < length taken \<longrightarrow> taken ! i < taken ! (i + 2))"

lemma taken_before_mono: "taken_before taken k \<Longrightarrow> k \<le> m \<Longrightarrow> taken_before taken m"
  by (auto simp: taken_before_def intro: order_trans)

lemma in_order_snoc:
  assumes "in_order taken" and "taken_before taken k" and "k < n"
  shows "in_order (taken @ [n])"
proof -
  have "(taken @ [n]) ! i < (taken @ [n]) ! (i + 2)" if "i + 2 < length (taken @ [n])" for i
  proof (cases "i + 2 < length taken")
    case True
    then show ?thesis using assms(1) by (simp add: in_order_def nth_append)
  next
    case False
    then have "i < length (butlast taken)" "i + 2 = length taken" using that by simp_all
    then have "taken ! i \<in> set (butlast taken)" by (metis nth_butlast nth_mem)
    then have "taken ! i \<le> k" using assms(2) by (simp add: taken_before_def)
    then show ?thesis using \<open>i + 2 = length taken\<close> assms(3) by (simp add: nth_append)
  qed
  moreover have "sorted (taken @ [n])"
    using assms by (fastforce simp: in_order_def taken_before_def sorted_append)
  ultimately show ?thesis unfolding in_order_def by blast
qed

lemma taken_before_snoc:
  assumes "taken_before taken k" and "Suc k \<le> m" and "n \<le> Suc m"
  shows "taken_before (taken @ [n]) m"
  using assms by (auto simp: taken_before_def intro: order_trans)

text \<open>The scans, in every run; and the counts, as long as the link is not destroyed and no count wraps.\<close>

definition results_stored :: "delivery \<Rightarrow> bool" where
  "results_stored s \<longleftrightarrow> getLastScan (dv_link s) = last (default_Scan # dv_stored s) \<and>
     list_all2 (\<lambda>n scan. n \<le> length (dv_stored s) \<and> scan = (default_Scan # dv_stored s) ! n) (dv_taken s) (dv_results s)"

definition waits_in_order :: "delivery \<Rightarrow> bool" where
  "waits_in_order s \<longleftrightarrow>
     dl_scanCounter (dv_link s) = of_nat (counted s) \<and> in_order (dv_taken s) \<and> 0 \<notin> set (dv_taken s) \<and>
     (\<forall>scan. dv_publisher s = Stored scan \<longrightarrow> dv_stored s \<noteq> []) \<and>
     (case dv_consumer s of
        Not_Waiting \<Rightarrow> taken_before (dv_taken s) (counted s)
      | Waits before \<Rightarrow> unat before \<le> counted s \<and> taken_before (dv_taken s) (unat before)
      | Takes \<Rightarrow> \<exists>k. k < counted s \<and> taken_before (dv_taken s) k)"

definition in_use :: "delivery \<Rightarrow> bool" where
  "in_use s \<longleftrightarrow> \<not> dl_interruptFlag (dv_link s) \<and> length (dv_stored s) < 2 ^ 64"

lemma step_in_use: "delivery_step s s' \<Longrightarrow> in_use s' \<Longrightarrow> in_use s"
  by (induction rule: delivery_step.induct)
    (auto simp: in_use_def store_scan_def count_scan_def fireOnScanAvailableEvent_def dest: other_step_keeps(3))

lemma results_stored_step:
  assumes "delivery_step s s'" and "results_stored s"
  shows "results_stored s'"
  using assms
proof (induction rule: delivery_step.induct)
  case (store s scan)
  then show ?case
    by (auto simp: results_stored_def store_scan_def getLastScan_def nth_append
        simp flip: append_Cons elim!: list_all2_mono)
next
  case (take_scan s)
  have "last (default_Scan # dv_stored s) = (default_Scan # dv_stored s) ! length (dv_stored s)"
    by (simp add: last_conv_nth)
  with take_scan show ?case by (simp add: results_stored_def list_all2_appendI)
next
  case (other s link)
  then show ?case using other_step_keeps(1) by (simp add: results_stored_def getLastScan_def)
qed (simp_all add: results_stored_def count_scan_def fireOnScanAvailableEvent_def getLastScan_def)

lemma counted_bound: "counted s \<le> length (dv_stored s)" "length (dv_stored s) \<le> Suc (counted s)"
  by (auto simp: counted_def split: publisher.split)

lemma waits_same:
  assumes "waits_in_order s" and "counted s' = counted s" and "dl_scanCounter (dv_link s') = dl_scanCounter (dv_link s)"
    and "dv_taken s' = dv_taken s" and "dv_consumer s' = dv_consumer s"
    and "\<forall>scan. dv_publisher s' = Stored scan \<longrightarrow> dv_stored s' \<noteq> []"
  shows "waits_in_order s'"
  using assms(1,6) unfolding waits_in_order_def assms(2-5) by blast

lemma waits_in_order_step:
  assumes "delivery_step s s'" and "in_use s" and "waits_in_order s"
  shows "waits_in_order s'"
proof -
  have small: "unat (of_nat (counted s) :: u64) = counted s"
    using assms(2) counted_bound(1) [of s] by (intro unat_eq_of_nat) (simp add: in_use_def)
  show ?thesis
    using assms(1)
  proof cases
    case (store scan)
    then have "counted s' = counted s" by (simp add: counted_def)
    then show ?thesis using waits_same [OF assms(3)] store by (simp add: store_scan_def)
  next
    case (count scan)
    then have more: "counted s' = Suc (counted s)" using assms(3) by (cases "dv_stored s") (simp_all add: counted_def waits_in_order_def)
    show ?thesis
      using assms(3) count more taken_before_mono [of "dv_taken s" "counted s" "Suc (counted s)"]
      by (auto simp: waits_in_order_def count_scan_def intro: less_SucI split: consumer.splits)
  next
    case (fire scan)
    then have "counted s' = counted s" by (simp add: counted_def)
    then show ?thesis using waits_same [OF assms(3)] fire by (simp add: fireOnScanAvailableEvent_def)
  next
    case (wait before)
    then have "counted s' = counted s" "unat before = counted s"
      using assms(3) small by (auto simp: counted_def waits_in_order_def wait_begin_def split: if_splits)
    then show ?thesis using assms(3) wait by (simp add: waits_in_order_def)
  next
    case (satisfied before)
    then have "counted s' = counted s" by (simp add: counted_def)
    moreover have "before \<noteq> of_nat (counted s)"
      using satisfied(3) assms(2,3) by (auto simp: wait_satisfied_def in_use_def waits_in_order_def)
    then have "unat before \<noteq> counted s" by (metis of_nat_unat ucast_id)
    then have "unat before < counted s" using assms(3) satisfied(2) by (simp add: waits_in_order_def)
    ultimately show ?thesis using assms(3) satisfied(1,2) by (auto simp: waits_in_order_def)
  next
    case (timed_out before)
    then have "counted s' = counted s" by (simp add: counted_def)
    then show ?thesis
      using assms(3) timed_out taken_before_mono by (auto simp: waits_in_order_def)
  next
    case take_scan
    then have same: "counted s' = counted s" by (simp add: counted_def)
    obtain k where k: "k < counted s" "taken_before (dv_taken s) k"
      using assms(3) take_scan(2) by (auto simp: waits_in_order_def)
    have "in_order (dv_taken s')"
      using in_order_snoc [OF _ k(2), of "length (dv_stored s)"] k(1) counted_bound(1) [of s] assms(3) take_scan(1)
      by (simp add: waits_in_order_def)
    moreover have "taken_before (dv_taken s') (counted s')"
      using taken_before_snoc [OF k(2), of "counted s" "length (dv_stored s)"] k(1) counted_bound(2) [of s] same take_scan(1)
      by simp
    moreover have "0 < length (dv_stored s)" using k(1) counted_bound(1) [of s] by linarith
    ultimately show ?thesis using assms(3) take_scan(1) same by (simp add: waits_in_order_def)
  next
    case (other link)
    then have "counted s' = counted s" by (simp add: counted_def)
    moreover have "\<forall>scan. dv_publisher s = Stored scan \<longrightarrow> dv_stored s \<noteq> []" using assms(3) by (simp add: waits_in_order_def)
    ultimately show ?thesis using waits_same [OF assms(3)] other other_step_keeps(2) [OF other(2)] by simp
  qed
qed

lemma delivery_results: "delivery_run s \<Longrightarrow> results_stored s"
proof (induction rule: delivery_run.induct)
  case (start queued)
  show ?case by (simp add: results_stored_def delivery_new_def DataLink_new_def DataLink_initial_def getLastScan_def)
next
  case (step s s')
  then show ?case using results_stored_step by blast
qed

lemma delivery_waits: "delivery_run s \<Longrightarrow> in_use s \<Longrightarrow> waits_in_order s"
proof (induction rule: delivery_run.induct)
  case (start queued)
  show ?case
    by (simp add: waits_in_order_def delivery_new_def DataLink_new_def DataLink_initial_def counted_def in_order_def taken_before_def)
next
  case (step s s')
  then show ?case using waits_in_order_step step_in_use by blast
qed

text \<open>A wait that a publication has ended, and what two waits can take after it.\<close>

lemmas delivery_parts = store_scan_def count_scan_def fireOnScanAvailableEvent_def wait_begin_def wait_satisfied_def getLastScan_def

lemma next_count: "c \<noteq> c + 1" for c :: u64
  by (metis add_cancel_right_right one_neq_zero)

lemma wait_ends:
  assumes "dv_publisher s = Not_Publishing" and "dv_consumer s = Not_Waiting" and "dl_isConnected (dv_link s)"
  shows "\<exists>s'. delivery_step\<^sup>*\<^sup>* s s' \<and> dv_publisher s' = Not_Publishing \<and> dv_consumer s' = Takes \<and>
    dl_isConnected (dv_link s') \<and> dl_interruptFlag (dv_link s') = dl_interruptFlag (dv_link s) \<and>
    dv_stored s' = dv_stored s @ [first] \<and> dv_results s' = dv_results s"
proof -
  let ?n = "dl_scanCounter (dv_link s)"
  let ?s1 = "s\<lparr>dv_consumer := Waits ?n\<rparr>"
  let ?s2 = "?s1\<lparr>dv_link := store_scan first (dv_link ?s1), dv_publisher := Stored first, dv_stored := dv_stored ?s1 @ [first]\<rparr>"
  let ?s3 = "?s2\<lparr>dv_link := count_scan (dv_link ?s2), dv_publisher := Counted first\<rparr>"
  let ?s4 = "?s3\<lparr>dv_link := fireOnScanAvailableEvent first (dv_link ?s3), dv_publisher := Not_Publishing\<rparr>"
  let ?s5 = "?s4\<lparr>dv_consumer := Takes\<rparr>"
  have "delivery_step s ?s1" by (rule wait) (simp_all add: assms delivery_parts)
  moreover have "delivery_step ?s1 ?s2" by (rule store) (simp add: assms(1))
  moreover have "delivery_step ?s2 ?s3" by (rule count) simp
  moreover have "delivery_step ?s3 ?s4" by (rule fire) simp
  moreover have "delivery_step ?s4 ?s5"
    by (rule satisfied [where before = ?n]) (use next_count in \<open>simp_all add: delivery_parts\<close>)
  ultimately have "delivery_step\<^sup>*\<^sup>* s ?s5" by (meson converse_rtranclp_into_rtranclp r_into_rtranclp)
  then show ?thesis by (intro exI [of _ ?s5]) (simp add: assms(3) delivery_parts)
qed

lemma takes_twice:
  assumes "dv_publisher s = Not_Publishing" and "dv_consumer s = Takes" and "dl_isConnected (dv_link s)"
  shows "\<exists>s'. delivery_step\<^sup>*\<^sup>* s s' \<and> dl_interruptFlag (dv_link s') = dl_interruptFlag (dv_link s) \<and>
    dv_stored s' = dv_stored s @ [second] \<and> dv_results s' = dv_results s @ [second, second]"
proof -
  let ?n = "dl_scanCounter (dv_link s)"
  let ?s1 = "s\<lparr>dv_link := store_scan second (dv_link s), dv_publisher := Stored second, dv_stored := dv_stored s @ [second]\<rparr>"
  let ?s2 = "?s1\<lparr>dv_consumer := Not_Waiting, dv_results := dv_results ?s1 @ [getLastScan (dv_link ?s1)],
    dv_taken := dv_taken ?s1 @ [length (dv_stored ?s1)]\<rparr>"
  let ?s3 = "?s2\<lparr>dv_consumer := Waits ?n\<rparr>"
  let ?s4 = "?s3\<lparr>dv_link := count_scan (dv_link ?s3), dv_publisher := Counted second\<rparr>"
  let ?s5 = "?s4\<lparr>dv_consumer := Takes\<rparr>"
  let ?s6 = "?s5\<lparr>dv_consumer := Not_Waiting, dv_results := dv_results ?s5 @ [getLastScan (dv_link ?s5)],
    dv_taken := dv_taken ?s5 @ [length (dv_stored ?s5)]\<rparr>"
  have "delivery_step s ?s1" by (rule store) (simp add: assms(1))
  moreover have "delivery_step ?s1 ?s2" by (rule take_scan) (simp add: assms(2))
  moreover have "delivery_step ?s2 ?s3" by (rule wait) (simp_all add: assms(3) delivery_parts)
  moreover have "delivery_step ?s3 ?s4" by (rule count) simp
  moreover have "delivery_step ?s4 ?s5"
    by (rule satisfied [where before = ?n]) (use next_count in \<open>simp_all add: delivery_parts\<close>)
  moreover have "delivery_step ?s5 ?s6" by (rule take_scan) simp
  ultimately have "delivery_step\<^sup>*\<^sup>* s ?s6" by (meson converse_rtranclp_into_rtranclp r_into_rtranclp)
  then show ?thesis by (intro exI [of _ ?s6]) (simp add: delivery_parts)
qed

lemma delivery_run_steps: "delivery_step\<^sup>*\<^sup>* s s' \<Longrightarrow> delivery_run s \<Longrightarrow> delivery_run s'"
  by (induction rule: rtranclp_induct) (auto intro: delivery_run.step)

text \<open>Two publications and two waits on a new link.\<close>

lemma example_delivery:
  "\<exists>s. delivery_run s \<and> \<not> dl_interruptFlag (dv_link s) \<and> dv_stored s = [first, second] \<and> dv_results s = [second, second]"
proof -
  let ?s = "delivery_new (DataLink_new True)"
  have new: "dv_publisher ?s = Not_Publishing" "dv_consumer ?s = Not_Waiting" "dl_isConnected (dv_link ?s)"
    "\<not> dl_interruptFlag (dv_link ?s)" "dv_stored ?s = []" "dv_results ?s = []"
    by (simp_all add: delivery_new_def DataLink_new_def DataLink_initial_def)
  obtain s1 where s1: "delivery_step\<^sup>*\<^sup>* ?s s1" "dv_publisher s1 = Not_Publishing" "dv_consumer s1 = Takes"
    "dl_isConnected (dv_link s1)" "\<not> dl_interruptFlag (dv_link s1)" "dv_stored s1 = [first]" "dv_results s1 = []"
    using wait_ends [OF new(1-3), of first] new(4-6) by auto
  obtain s2 where "delivery_step\<^sup>*\<^sup>* s1 s2" "\<not> dl_interruptFlag (dv_link s2)" "dv_stored s2 = [first, second]"
    "dv_results s2 = [second, second]"
    using takes_twice [OF s1(2-4), of second] s1(5-7) by auto
  with delivery_run_steps [OF rtranclp_trans [OF s1(1) this(1)] start] show ?thesis by blast
qed

section \<open>Properties\<close>

text \<open>
  C5: A thread that calls \<open>waitForNextScan\<close> again and again, with any time-outs and in any interleaving with
  the publications, gets published scans only and in the order of their publication, unless the link is
  destroyed: it may miss scans, and it gets no scan more than twice.
\<close>

theorem waits_return_scans_in_order:
  assumes "delivery_run s" and "\<not> dl_interruptFlag (dv_link s)" and "length (dv_stored s) < 2 ^ 64"
  shows "\<exists>indices. length indices = length (dv_results s) \<and>
    (\<forall>i < length indices. indices ! i < length (dv_stored s) \<and> dv_results s ! i = dv_stored s ! (indices ! i)) \<and>
    sorted indices \<and> (\<forall>i. i + 2 < length indices \<longrightarrow> indices ! i < indices ! (i + 2))"
proof -
  let ?indices = "map (\<lambda>n. n - 1) (dv_taken s)"
  have order: "in_order (dv_taken s)" "0 \<notin> set (dv_taken s)"
    using delivery_waits [OF assms(1)] assms(2,3) by (simp_all add: in_use_def waits_in_order_def)
  have pos: "0 < dv_taken s ! i" if "i < length (dv_taken s)" for i using that order(2) by (metis gr0I nth_mem)
  have results: "list_all2 (\<lambda>n scan. n \<le> length (dv_stored s) \<and> scan = (default_Scan # dv_stored s) ! n) (dv_taken s) (dv_results s)"
    using delivery_results [OF assms(1)] by (simp add: results_stored_def)
  have "?indices ! i < length (dv_stored s) \<and> dv_results s ! i = dv_stored s ! (?indices ! i)" if "i < length ?indices" for i
    using that list_all2_nthD [OF results, of i] pos [of i] by (cases "dv_taken s ! i") simp_all
  moreover have "sorted ?indices" using order(1) by (auto simp: in_order_def sorted_iff_nth_mono intro: diff_le_mono)
  moreover have "?indices ! i < ?indices ! (i + 2)" if "i + 2 < length ?indices" for i
    using that order(1) pos [of i] by (simp add: in_order_def diff_less_mono)
  ultimately show ?thesis using list_all2_lengthD [OF results] by (intro exI [of _ ?indices]) simp
qed

theorem waits_return_scans_in_order_witness:
  "\<exists>s indices. delivery_run s \<and> length (dv_results s) = 2 \<and> length indices = 2 \<and> sorted indices \<and>
     (\<forall>i < 2. indices ! i < 2 \<and> dv_results s ! i = dv_stored s ! (indices ! i))"
proof -
  obtain s where s: "delivery_run s" "\<not> dl_interruptFlag (dv_link s)" "dv_stored s = [default_Scan, default_Scan]"
    "dv_results s = [default_Scan, default_Scan]"
    using example_delivery by blast
  have "length (dv_stored s) < 2 ^ 64" by (simp add: s(3))
  from waits_return_scans_in_order [OF s(1,2) this] obtain indices where
    i: "length indices = length (dv_results s)" "sorted indices"
    "\<forall>i < length indices. indices ! i < length (dv_stored s) \<and> dv_results s ! i = dv_stored s ! (indices ! i)" by blast
  moreover have "length (dv_results s) = 2" "length (dv_stored s) = 2" by (simp_all add: s(3,4))
  ultimately show ?thesis using s(1) by (intro exI [of _ s] exI [of _ indices]) simp
qed

text \<open>
  C6: And a scan can be returned twice: the scan is stored before it is counted, so that a wait that an earlier
  scan has ended takes the new one already, and the next wait, begun before it is counted, takes it again.
  Whatever the link has published, from a moment when neither thread is at work this can happen with the
  next two scans.
\<close>

theorem scan_returned_twice:
  assumes "dv_publisher s = Not_Publishing" and "dv_consumer s = Not_Waiting"
    and "isAlive (dv_link s)"
  shows "\<exists>s'. delivery_step\<^sup>*\<^sup>* s s' \<and> dv_stored s' = dv_stored s @ [first, second] \<and>
    dv_results s' = dv_results s @ [second, second]"
proof -
  obtain s1 where s1: "delivery_step\<^sup>*\<^sup>* s s1" "dv_publisher s1 = Not_Publishing" "dv_consumer s1 = Takes"
    "dl_isConnected (dv_link s1)" "dv_stored s1 = dv_stored s @ [first]" "dv_results s1 = dv_results s"
    using wait_ends [OF assms(1,2)] assms(3) unfolding isAlive_def by blast
  obtain s2 where "delivery_step\<^sup>*\<^sup>* s1 s2" "dv_stored s2 = dv_stored s1 @ [second]" "dv_results s2 = dv_results s1 @ [second, second]"
    using takes_twice [OF s1(2-4)] by blast
  with rtranclp_trans [OF s1(1) this(1)] s1(5,6) show ?thesis by auto
qed

text \<open>From a new link.\<close>

theorem scan_returned_twice_witness:
  "\<exists>s. delivery_run s \<and> dv_stored s = [default_Scan, default_Scan\<lparr>sc_timestamp := 7\<rparr>] \<and>
     map sc_timestamp (dv_results s) = [7, 7]"
proof -
  obtain s where "delivery_step\<^sup>*\<^sup>* (delivery_new (DataLink_new True)) s"
    "dv_stored s = [default_Scan, default_Scan\<lparr>sc_timestamp := 7\<rparr>]"
    "dv_results s = [default_Scan\<lparr>sc_timestamp := 7\<rparr>, default_Scan\<lparr>sc_timestamp := 7\<rparr>]"
    using scan_returned_twice [of "delivery_new (DataLink_new True)" default_Scan "default_Scan\<lparr>sc_timestamp := 7\<rparr>"]
    by (auto simp: delivery_new_def DataLink_new_def DataLink_initial_def isAlive_def)
  with delivery_run_steps [OF this(1) start] show ?thesis by auto
qed

end
