(* ===== verification/Parameters.thy ===== *)
theory Parameters
  imports Parameter_Types "HOL-Library.AList"
begin

text \<open>
  The request parameters of the device (\<open>include/Control/Parameters.hpp\<close>): the parameter names and the
  request builders.

  Every builder class is a datatype with one constructor per builder method, and a function that
  gives the effect of a method on the collected parameters, as the \<open>ADD_...\<close> macros define it. The
  method returns \<open>*this\<close>, so a chain of calls is a list of constructors.
\<close>

section \<open>Parameters\<close>

type_synonym ParametersList = "string list"

text \<open>
  A \<open>ParametersMap\<close> is a \<open>std::unordered_map\<close>: a list of entries with distinct keys, in the order
  an iteration visits them. The standard leaves that order open; a new key is put last here, and
  what is proved of requests holds for every order. \<open>operator[]\<close> with an assignment overwrites;
  \<open>insert\<close> keeps an entry that is already there.
\<close>

type_synonym ParametersMap = "(string \<times> string) list"

definition pm_assign :: "string \<Rightarrow> string \<Rightarrow> ParametersMap \<Rightarrow> ParametersMap" where
  "pm_assign key value parameters = AList.update key value parameters"

definition pm_insert :: "string \<times> string \<Rightarrow> ParametersMap \<Rightarrow> ParametersMap" where
  "pm_insert entry parameters =
     (if fst entry \<in> fst ` set parameters then parameters else parameters @ [entry])"

definition pm_insert_range :: "ParametersMap \<Rightarrow> ParametersMap \<Rightarrow> ParametersMap" where
  "pm_insert_range entries parameters = fold pm_insert entries parameters"

definition pm_count :: "ParametersMap \<Rightarrow> string \<Rightarrow> bool" where
  "pm_count parameters key \<longleftrightarrow> key \<in> fst ` set parameters"

text \<open>\<open>at\<close> throws \<open>std::out_of_range\<close> where there is no entry.\<close>

definition pm_at :: "ParametersMap \<Rightarrow> string \<Rightarrow> string result" where
  "pm_at parameters key =
     (case map_of parameters key of None \<Rightarrow> Inl Out_Of_Range | Some v \<Rightarrow> Inr v)"

definition pm_distinct :: "ParametersMap \<Rightarrow> bool" where
  "pm_distinct parameters \<longleftrightarrow> distinct (map fst parameters)"

lemma pm_assign_distinct [intro]: "pm_distinct ps \<Longrightarrow> pm_distinct (pm_assign k v ps)"
  by (simp add: pm_distinct_def pm_assign_def distinct_update)

lemma map_of_pm_assign [simp]: "map_of (pm_assign k v ps) = (map_of ps)(k \<mapsto> v)"
  by (simp add: pm_assign_def update_conv')

lemma pm_count_iff: "pm_count ps k \<longleftrightarrow> map_of ps k \<noteq> None"
  by (simp add: pm_count_def map_of_eq_None_iff)

lemma pm_insert_distinct [intro]: "pm_distinct ps \<Longrightarrow> pm_distinct (pm_insert e ps)"
  by (auto simp: pm_distinct_def pm_insert_def)

lemma map_of_pm_insert:
  "map_of (pm_insert (k, v) ps) = (if map_of ps k = None then (map_of ps)(k \<mapsto> v) else map_of ps)"
proof (cases "k \<in> fst ` set ps")
  case True
  then have "map_of ps k \<noteq> None" by (simp add: map_of_eq_None_iff)
  with True show ?thesis by (auto simp: pm_insert_def)
next
  case False
  then have "map_of ps k = None" by (simp add: map_of_eq_None_iff)
  with False show ?thesis
    by (auto simp: pm_insert_def map_of_append fun_eq_iff map_add_def split: option.splits)
qed

text \<open>Inserting a range: the entries that were there win over the new ones.\<close>

lemma map_of_pm_insert_range:
  "map_of (pm_insert_range es ps) = map_of es ++ map_of ps"
proof (induction es arbitrary: ps)
  case Nil
  show ?case by (simp add: pm_insert_range_def)
next
  case (Cons e es)
  obtain k v where e: "e = (k, v)" by (cases e)
  have "map_of (pm_insert_range (e # es) ps) = map_of es ++ map_of (pm_insert (k, v) ps)"
    using Cons by (simp add: pm_insert_range_def e)
  then show ?case
    by (auto simp: e map_of_pm_insert fun_eq_iff map_add_def split: option.splits)
qed

lemma pm_insert_range_distinct: "pm_distinct ps \<Longrightarrow> pm_distinct (pm_insert_range es ps)"
  by (induction es arbitrary: ps) (auto simp: pm_insert_range_def)

section \<open>Names\<close>

definition BOOL_PARAMETER_TRUE :: string where [simp]: "BOOL_PARAMETER_TRUE = ''on''"
definition BOOL_PARAMETER_FALSE :: string where [simp]: "BOOL_PARAMETER_FALSE = ''off''"

definition COMMAND_GET_PROTOCOL_INFO :: string where [simp]: "COMMAND_GET_PROTOCOL_INFO = ''get_protocol_info''"
definition COMMAND_RELEASE_HANDLE :: string where [simp]: "COMMAND_RELEASE_HANDLE = ''release_handle''"
definition COMMAND_START_SCAN_OUTPUT :: string where [simp]: "COMMAND_START_SCAN_OUTPUT = ''start_scanoutput''"
definition COMMAND_STOP_SCAN_OUTPUT :: string where [simp]: "COMMAND_STOP_SCAN_OUTPUT = ''stop_scanoutput''"
definition COMMAND_FEED_WATCHDOG :: string where [simp]: "COMMAND_FEED_WATCHDOG = ''feed_watchdog''"
definition COMMAND_REBOOT_DEVICE :: string where [simp]: "COMMAND_REBOOT_DEVICE = ''reboot_device''"
definition COMMAND_LIST_PARAMETERS :: string where [simp]: "COMMAND_LIST_PARAMETERS = ''list_parameters''"
definition COMMAND_GET_PARAMETER :: string where [simp]: "COMMAND_GET_PARAMETER = ''get_parameter''"
definition COMMAND_SET_PARAMETER :: string where [simp]: "COMMAND_SET_PARAMETER = ''set_parameter''"
definition COMMAND_RESET_PARAMETERS :: string where [simp]: "COMMAND_RESET_PARAMETERS = ''reset_parameter''"
definition COMMAND_FACTORY_RESET :: string where [simp]: "COMMAND_FACTORY_RESET = ''factory_reset''"
definition COMMAND_REQUEST_TCP_HANDLE :: string where [simp]: "COMMAND_REQUEST_TCP_HANDLE = ''request_handle_tcp''"
definition COMMAND_REQUEST_UDP_HANDLE :: string where [simp]: "COMMAND_REQUEST_UDP_HANDLE = ''request_handle_udp''"
definition COMMAND_SET_SCAN_OUTPUT_CONFIG :: string where [simp]: "COMMAND_SET_SCAN_OUTPUT_CONFIG = ''set_scanoutput_config''"
definition COMMAND_GET_SCAN_OUTPUT_CONFIG :: string where [simp]: "COMMAND_GET_SCAN_OUTPUT_CONFIG = ''get_scanoutput_config''"
definition PARAMETER_NAME_HANDLE :: string where [simp]: "PARAMETER_NAME_HANDLE = ''handle''"
definition PARAMETER_NAME_LIST :: string where [simp]: "PARAMETER_NAME_LIST = ''list''"
definition ERROR_CODE :: string where [simp]: "ERROR_CODE = ''error_code''"
definition ERROR_TEXT :: string where [simp]: "ERROR_TEXT = ''error_text''"
definition PARAMETER_PROTOCOL_NAME :: string where [simp]: "PARAMETER_PROTOCOL_NAME = ''protocol_name''"
definition PARAMETER_PROTOCOL_VERSION_MAJOR :: string where [simp]: "PARAMETER_PROTOCOL_VERSION_MAJOR = ''version_major''"
definition PARAMETER_PROTOCOL_VERSION_MINOR :: string where [simp]: "PARAMETER_PROTOCOL_VERSION_MINOR = ''version_minor''"
definition PARAMETER_AVAILABLE_COMMANDS :: string where [simp]: "PARAMETER_AVAILABLE_COMMANDS = ''commands''"
definition PARAMETER_DEVICE_FAMILY :: string where [simp]: "PARAMETER_DEVICE_FAMILY = ''device_family''"
definition PARAMETER_VENDOR :: string where [simp]: "PARAMETER_VENDOR = ''vendor''"
definition PARAMETER_PRODUCT :: string where [simp]: "PARAMETER_PRODUCT = ''product''"
definition PARAMETER_PART :: string where [simp]: "PARAMETER_PART = ''part''"
definition PARAMETER_SERIAL :: string where [simp]: "PARAMETER_SERIAL = ''serial''"
definition PARAMETER_REVISION_FW :: string where [simp]: "PARAMETER_REVISION_FW = ''revision_fw''"
definition PARAMETER_REVISION_HW :: string where [simp]: "PARAMETER_REVISION_HW = ''revision_hw''"
definition PARAMETER_FEATURE_FLAGS :: string where [simp]: "PARAMETER_FEATURE_FLAGS = ''feature_flags''"
definition PARAMETER_EMITTER_TYPE :: string where [simp]: "PARAMETER_EMITTER_TYPE = ''emitter_type''"
definition PARAMETER_RADIAL_RANGE_MIN :: string where [simp]: "PARAMETER_RADIAL_RANGE_MIN = ''radial_range_min''"
definition PARAMETER_RADIAL_RANGE_MAX :: string where [simp]: "PARAMETER_RADIAL_RANGE_MAX = ''radial_range_max''"
definition PARAMETER_RADIAL_RESOLUTION :: string where [simp]: "PARAMETER_RADIAL_RESOLUTION = ''radial_resolution''"
definition PARAMETER_ANGULAR_FOV :: string where [simp]: "PARAMETER_ANGULAR_FOV = ''angular_fov''"
definition PARAMETER_SCAN_FREQUENCY_MIN :: string where [simp]: "PARAMETER_SCAN_FREQUENCY_MIN = ''scan_frequency_min''"
definition PARAMETER_SCAN_FREQUENCY_MAX :: string where [simp]: "PARAMETER_SCAN_FREQUENCY_MAX = ''scan_frequency_max''"
definition PARAMETER_SAMPLING_RATE_MIN :: string where [simp]: "PARAMETER_SAMPLING_RATE_MIN = ''sampling_rate_min''"
definition PARAMETER_SAMPLING_RATE_MAX :: string where [simp]: "PARAMETER_SAMPLING_RATE_MAX = ''angular_fov''"
definition PARAMETER_ANGULAR_RESOLUTION :: string where [simp]: "PARAMETER_ANGULAR_RESOLUTION = ''sampling_rate_max''"
definition PARAMETER_MAX_CONNECTIONS :: string where [simp]: "PARAMETER_MAX_CONNECTIONS = ''max_connections''"
definition PARAMETER_IP_MODE :: string where [simp]: "PARAMETER_IP_MODE = ''ip_mode''"
definition PARAMETER_IP_ADDRESS :: string where [simp]: "PARAMETER_IP_ADDRESS = ''ip_address''"
definition PARAMETER_SUBNET_MASK :: string where [simp]: "PARAMETER_SUBNET_MASK = ''subnet_mask''"
definition PARAMETER_GATEWAY :: string where [simp]: "PARAMETER_GATEWAY = ''gateway''"
definition PARAMETER_IP_MODE_CURRENT :: string where [simp]: "PARAMETER_IP_MODE_CURRENT = ''ip_mode_current''"
definition PARAMETER_IP_ADDRESS_CURRENT :: string where [simp]: "PARAMETER_IP_ADDRESS_CURRENT = ''ip_address_current''"
definition PARAMETER_SUBNET_MASK_CURRENT :: string where [simp]: "PARAMETER_SUBNET_MASK_CURRENT = ''subnet_mask_current''"
definition PARAMETER_GATEWAY_CURRENT :: string where [simp]: "PARAMETER_GATEWAY_CURRENT = ''gateway_current''"
definition PARAMETER_MAC_ADDRESS :: string where [simp]: "PARAMETER_MAC_ADDRESS = ''mac_address''"
definition PARAMETER_OPERATING_MODE :: string where [simp]: "PARAMETER_OPERATING_MODE = ''operating_mode''"
definition PARAMETER_SCAN_FREQUENCY :: string where [simp]: "PARAMETER_SCAN_FREQUENCY = ''scan_frequency''"
definition PARAMETER_SCAN_DIRECTION :: string where [simp]: "PARAMETER_SCAN_DIRECTION = ''scan_direction''"
definition PARAMETER_SAMPLES_PER_SCAN :: string where [simp]: "PARAMETER_SAMPLES_PER_SCAN = ''samples_per_scan''"
definition PARAMETER_SCAN_FREQUENCY_MEASURED :: string where [simp]: "PARAMETER_SCAN_FREQUENCY_MEASURED = ''scan_frequency_measured''"
definition PARAMETER_HMI_DISPLAY_MODE :: string where [simp]: "PARAMETER_HMI_DISPLAY_MODE = ''hmi_display_mode''"
definition PARAMETER_HMI_LANGUAGE :: string where [simp]: "PARAMETER_HMI_LANGUAGE = ''hmi_language''"
definition PARAMETER_HMI_BUTTON_LOCK :: string where [simp]: "PARAMETER_HMI_BUTTON_LOCK = ''hmi_button_lock''"
definition PARAMETER_HMI_PARAMETER_LOCK :: string where [simp]: "PARAMETER_HMI_PARAMETER_LOCK = ''hmi_parameter_lock''"
definition PARAMETER_LOCATOR_INDICATION :: string where [simp]: "PARAMETER_LOCATOR_INDICATION = ''locator_indication''"
definition PARAMETER_HMI_STATIC_LOGO :: string where [simp]: "PARAMETER_HMI_STATIC_LOGO = ''hmi_static_logo''"
definition PARAMETER_HMI_STATIC_TEXT_1 :: string where [simp]: "PARAMETER_HMI_STATIC_TEXT_1 = ''hmi_static_text_1''"
definition PARAMETER_HMI_STATIC_TEXT_2 :: string where [simp]: "PARAMETER_HMI_STATIC_TEXT_2 = ''hmi_static_text_2''"
definition PARAMETER_HMI_APPLICATION_BITMAP :: string where [simp]: "PARAMETER_HMI_APPLICATION_BITMAP = ''hmi_application_bitmap''"
definition PARAMETER_HMI_APPLICATION_TEXT_1 :: string where [simp]: "PARAMETER_HMI_APPLICATION_TEXT_1 = ''hmi_application_text_1''"
definition PARAMETER_HMI_APPLICATION_TEXT_2 :: string where [simp]: "PARAMETER_HMI_APPLICATION_TEXT_2 = ''hmi_application_text_2''"
definition PARAMETER_USER_TAG :: string where [simp]: "PARAMETER_USER_TAG = ''user_tag''"
definition PARAMETER_USER_NOTES :: string where [simp]: "PARAMETER_USER_NOTES = ''user_notes''"
definition PARAMETER_STATUS_FLAGS :: string where [simp]: "PARAMETER_STATUS_FLAGS = ''status_flags''"
definition PARAMETER_LOAD_INDICATION :: string where [simp]: "PARAMETER_LOAD_INDICATION = ''load_indication''"
definition PARAMETER_SYSTEM_TIME_RAW :: string where [simp]: "PARAMETER_SYSTEM_TIME_RAW = ''system_time_raw''"
definition PARAMETER_UP_TIME :: string where [simp]: "PARAMETER_UP_TIME = ''up_time''"
definition PARAMETER_POWER_CYCLES :: string where [simp]: "PARAMETER_POWER_CYCLES = ''power_cycles''"
definition PARAMETER_OPERATION_TIME :: string where [simp]: "PARAMETER_OPERATION_TIME = ''operation_time''"
definition PARAMETER_OPERATION_TIME_SCALED :: string where [simp]: "PARAMETER_OPERATION_TIME_SCALED = ''operation_time_scaled''"
definition PARAMETER_TEMPERATURE_CURRENT :: string where [simp]: "PARAMETER_TEMPERATURE_CURRENT = ''temperature_current''"
definition PARAMETER_TEMPERATURE_MIN :: string where [simp]: "PARAMETER_TEMPERATURE_MIN = ''temperature_min''"
definition PARAMETER_TEMPERATURE_MAX :: string where [simp]: "PARAMETER_TEMPERATURE_MAX = ''temperature_max''"
definition PARAMETER_LCM_DETECTION_SENSITIVITY :: string where [simp]: "PARAMETER_LCM_DETECTION_SENSITIVITY = ''lcm_detection_sensitivity''"
definition PARAMETER_LCM_DETECTION_PERIOD :: string where [simp]: "PARAMETER_LCM_DETECTION_PERIOD = ''lcm_detection_period''"
definition PARAMETER_LCM_SECTOR_ENABLE :: string where [simp]: "PARAMETER_LCM_SECTOR_ENABLE = ''lcm_sector_enable''"
definition PARAMETER_LCM_SECTOR_WARN_FLAGS :: string where [simp]: "PARAMETER_LCM_SECTOR_WARN_FLAGS = ''lcm_sector_warn_flags''"
definition PARAMETER_LCM_SECTOR_ERROR_FLAGS :: string where [simp]: "PARAMETER_LCM_SECTOR_ERROR_FLAGS = ''lcm_sector_error_flags''"
definition PARAMETER_HANDLE_ADDRESS :: string where [simp]: "PARAMETER_HANDLE_ADDRESS = ''address''"
definition PARAMETER_HANDLE_PORT :: string where [simp]: "PARAMETER_HANDLE_PORT = ''port''"
definition PARAMETER_HANDLE_WATCHDOG :: string where [simp]: "PARAMETER_HANDLE_WATCHDOG = ''watchdog''"
definition PARAMETER_HANDLE_WATCHDOG_TIMEOUT :: string where [simp]: "PARAMETER_HANDLE_WATCHDOG_TIMEOUT = ''watchdogtimeout''"
definition PARAMETER_HANDLE_PACKET_TYPE :: string where [simp]: "PARAMETER_HANDLE_PACKET_TYPE = ''packet_type''"
definition PARAMETER_HANDLE_PACKET_CRC :: string where [simp]: "PARAMETER_HANDLE_PACKET_CRC = ''packet_crc''"
definition PARAMETER_HANDLE_START_ANGLE :: string where [simp]: "PARAMETER_HANDLE_START_ANGLE = ''start_angle''"
definition PARAMETER_HANDLE_MAX_NUM_POINTS_SCAN :: string where [simp]: "PARAMETER_HANDLE_MAX_NUM_POINTS_SCAN = ''max_num_points_scan''"
definition PARAMETER_HANDLE_SKIP_SCANS :: string where [simp]: "PARAMETER_HANDLE_SKIP_SCANS = ''skip_scans''"

section \<open>Builder methods\<close>

definition ADD_RO_PARAMETER_BUILDER_METHOD :: "string \<Rightarrow> ParametersList \<Rightarrow> ParametersList" where
  "ADD_RO_PARAMETER_BUILDER_METHOD name parameters = parameters @ [name]"

definition ADD_RW_PARAMETER_BUILDER_METHOD :: "string \<Rightarrow> string \<Rightarrow> ParametersMap \<Rightarrow> ParametersMap" where
  "ADD_RW_PARAMETER_BUILDER_METHOD name argument parameters = pm_assign name argument parameters"

definition ADD_RW_PARAMETER_BUILDER_METHOD_ON :: "string \<Rightarrow> ParametersMap \<Rightarrow> ParametersMap" where
  "ADD_RW_PARAMETER_BUILDER_METHOD_ON name parameters = pm_assign name BOOL_PARAMETER_TRUE parameters"

definition ADD_RW_PARAMETER_BUILDER_METHOD_OFF :: "string \<Rightarrow> ParametersMap \<Rightarrow> ParametersMap" where
  "ADD_RW_PARAMETER_BUILDER_METHOD_OFF name parameters = pm_assign name BOOL_PARAMETER_FALSE parameters"

lemmas builder_methods = ADD_RW_PARAMETER_BUILDER_METHOD_def ADD_RW_PARAMETER_BUILDER_METHOD_ON_def
  ADD_RW_PARAMETER_BUILDER_METHOD_OFF_def

subsection \<open>Read-write sections\<close>

datatype RwBasicInformation =
    RwBasicInformation_withUserTag string
  | RwBasicInformation_withUserNotes string

fun RwBasicInformation_method :: "RwBasicInformation \<Rightarrow> ParametersMap \<Rightarrow> ParametersMap" where
  "RwBasicInformation_method (RwBasicInformation_withUserTag userTag) = ADD_RW_PARAMETER_BUILDER_METHOD PARAMETER_USER_TAG userTag"
| "RwBasicInformation_method (RwBasicInformation_withUserNotes userNotes) = ADD_RW_PARAMETER_BUILDER_METHOD PARAMETER_USER_NOTES userNotes"

datatype RwEthernet =
    RwEthernet_withIpMode IpMode
  | RwEthernet_withIpAddress string
  | RwEthernet_withSubnetMask string
  | RwEthernet_withGateway string

fun RwEthernet_method :: "RwEthernet \<Rightarrow> ParametersMap \<Rightarrow> ParametersMap" where
  "RwEthernet_method (RwEthernet_withIpMode mode) = ADD_RW_PARAMETER_BUILDER_METHOD PARAMETER_IP_ADDRESS (IpModeToString mode)"
| "RwEthernet_method (RwEthernet_withIpAddress ipAddress) = ADD_RW_PARAMETER_BUILDER_METHOD PARAMETER_IP_ADDRESS ipAddress"
| "RwEthernet_method (RwEthernet_withSubnetMask subnetMask) = ADD_RW_PARAMETER_BUILDER_METHOD PARAMETER_SUBNET_MASK subnetMask"
| "RwEthernet_method (RwEthernet_withGateway gateway) = ADD_RW_PARAMETER_BUILDER_METHOD PARAMETER_GATEWAY gateway"

datatype RwMeasuring =
    RwMeasuring_withOperatingMode OPERATING_MODE
  | RwMeasuring_withScanFrequency u32
  | RwMeasuring_withSamplesPerScan u32
  | RwMeasuring_withScanDirection SCAN_DIRECTION

fun RwMeasuring_method :: "RwMeasuring \<Rightarrow> ParametersMap \<Rightarrow> ParametersMap" where
  "RwMeasuring_method (RwMeasuring_withOperatingMode operatingMode) = ADD_RW_PARAMETER_BUILDER_METHOD PARAMETER_OPERATING_MODE (operatingModeToString operatingMode)"
| "RwMeasuring_method (RwMeasuring_withScanFrequency scanFrequency) = ADD_RW_PARAMETER_BUILDER_METHOD PARAMETER_SCAN_FREQUENCY (u32_to_string scanFrequency)"
| "RwMeasuring_method (RwMeasuring_withSamplesPerScan samplesPerScan) = ADD_RW_PARAMETER_BUILDER_METHOD PARAMETER_SAMPLES_PER_SCAN (u32_to_string samplesPerScan)"
| "RwMeasuring_method (RwMeasuring_withScanDirection scanDirection) = ADD_RW_PARAMETER_BUILDER_METHOD PARAMETER_SCAN_DIRECTION (scanDirectionToString scanDirection)"

datatype RwHmiDisplay =
    RwHmiDisplay_withHmiDisplayMode HMI_DISPLAY_MODE
  | RwHmiDisplay_withHmiLanguage Language
  | RwHmiDisplay_lockHmiButton
  | RwHmiDisplay_unlockHmiButton
  | RwHmiDisplay_lockHmiParameters
  | RwHmiDisplay_unlockHmiParameters
  | RwHmiDisplay_enableLEDLocatorIndication
  | RwHmiDisplay_disableLEDLocatorIndication
  | RwHmiDisplay_withHmiStaticLogo string
  | RwHmiDisplay_withHmiStaticText1 string
  | RwHmiDisplay_withHmiStaticText2 string
  | RwHmiDisplay_withHmiApplicationBitmap string
  | RwHmiDisplay_withHmiApplicationText1 string
  | RwHmiDisplay_withHmiApplicationText2 string

fun RwHmiDisplay_method :: "RwHmiDisplay \<Rightarrow> ParametersMap \<Rightarrow> ParametersMap" where
  "RwHmiDisplay_method (RwHmiDisplay_withHmiDisplayMode displayMode) = ADD_RW_PARAMETER_BUILDER_METHOD PARAMETER_HMI_DISPLAY_MODE (HmiDisplayModeToString displayMode)"
| "RwHmiDisplay_method (RwHmiDisplay_withHmiLanguage language) = ADD_RW_PARAMETER_BUILDER_METHOD PARAMETER_HMI_LANGUAGE (LanguageToString language)"
| "RwHmiDisplay_method RwHmiDisplay_lockHmiButton = ADD_RW_PARAMETER_BUILDER_METHOD_ON PARAMETER_HMI_BUTTON_LOCK"
| "RwHmiDisplay_method RwHmiDisplay_unlockHmiButton = ADD_RW_PARAMETER_BUILDER_METHOD_OFF PARAMETER_HMI_BUTTON_LOCK"
| "RwHmiDisplay_method RwHmiDisplay_lockHmiParameters = ADD_RW_PARAMETER_BUILDER_METHOD_ON PARAMETER_HMI_PARAMETER_LOCK"
| "RwHmiDisplay_method RwHmiDisplay_unlockHmiParameters = ADD_RW_PARAMETER_BUILDER_METHOD_OFF PARAMETER_HMI_PARAMETER_LOCK"
| "RwHmiDisplay_method RwHmiDisplay_enableLEDLocatorIndication = ADD_RW_PARAMETER_BUILDER_METHOD_ON PARAMETER_LOCATOR_INDICATION"
| "RwHmiDisplay_method RwHmiDisplay_disableLEDLocatorIndication = ADD_RW_PARAMETER_BUILDER_METHOD_OFF PARAMETER_LOCATOR_INDICATION"
| "RwHmiDisplay_method (RwHmiDisplay_withHmiStaticLogo base64Logo) = ADD_RW_PARAMETER_BUILDER_METHOD PARAMETER_HMI_STATIC_LOGO base64Logo"
| "RwHmiDisplay_method (RwHmiDisplay_withHmiStaticText1 line) = ADD_RW_PARAMETER_BUILDER_METHOD PARAMETER_HMI_STATIC_TEXT_1 (encoreSpaceInUrl line)"
| "RwHmiDisplay_method (RwHmiDisplay_withHmiStaticText2 line) = ADD_RW_PARAMETER_BUILDER_METHOD PARAMETER_HMI_STATIC_TEXT_2 (encoreSpaceInUrl line)"
| "RwHmiDisplay_method (RwHmiDisplay_withHmiApplicationBitmap base64Bitmap) = ADD_RW_PARAMETER_BUILDER_METHOD PARAMETER_HMI_APPLICATION_BITMAP base64Bitmap"
| "RwHmiDisplay_method (RwHmiDisplay_withHmiApplicationText1 line) = ADD_RW_PARAMETER_BUILDER_METHOD PARAMETER_HMI_APPLICATION_TEXT_1 (encoreSpaceInUrl line)"
| "RwHmiDisplay_method (RwHmiDisplay_withHmiApplicationText2 line) = ADD_RW_PARAMETER_BUILDER_METHOD PARAMETER_HMI_APPLICATION_TEXT_2 (encoreSpaceInUrl line)"

datatype RwHandleTcp =
    RwHandleTcp_withWatchdog
  | RwHandleTcp_withoutWatchdog
  | RwHandleTcp_withWatchdogTimeout u32
  | RwHandleTcp_withPacketType PACKET_TYPE
  | RwHandleTcp_withPacketCrc CRC
  | RwHandleTcp_withStartAngle i32
  | RwHandleTcp_withNumberOfPointsPerScan u32
  | RwHandleTcp_withNumberOfScanToSkip u32

fun RwHandleTcp_method :: "RwHandleTcp \<Rightarrow> ParametersMap \<Rightarrow> ParametersMap" where
  "RwHandleTcp_method RwHandleTcp_withWatchdog = ADD_RW_PARAMETER_BUILDER_METHOD_ON PARAMETER_HANDLE_WATCHDOG"
| "RwHandleTcp_method RwHandleTcp_withoutWatchdog = ADD_RW_PARAMETER_BUILDER_METHOD_OFF PARAMETER_HANDLE_WATCHDOG"
| "RwHandleTcp_method (RwHandleTcp_withWatchdogTimeout watchdogtimeout) = ADD_RW_PARAMETER_BUILDER_METHOD PARAMETER_HANDLE_WATCHDOG_TIMEOUT (u32_to_string watchdogtimeout)"
| "RwHandleTcp_method (RwHandleTcp_withPacketType packetType) = ADD_RW_PARAMETER_BUILDER_METHOD PARAMETER_HANDLE_PACKET_TYPE (scanPacketString packetType)"
| "RwHandleTcp_method (RwHandleTcp_withPacketCrc crcType) = ADD_RW_PARAMETER_BUILDER_METHOD PARAMETER_HANDLE_PACKET_CRC (crcToString crcType)"
| "RwHandleTcp_method (RwHandleTcp_withStartAngle startAngle) = ADD_RW_PARAMETER_BUILDER_METHOD PARAMETER_HANDLE_START_ANGLE (i32_to_string startAngle)"
| "RwHandleTcp_method (RwHandleTcp_withNumberOfPointsPerScan numberOfPointsPerScan) = ADD_RW_PARAMETER_BUILDER_METHOD PARAMETER_HANDLE_MAX_NUM_POINTS_SCAN (u32_to_string numberOfPointsPerScan)"
| "RwHandleTcp_method (RwHandleTcp_withNumberOfScanToSkip numberOfScanToSkip) = ADD_RW_PARAMETER_BUILDER_METHOD PARAMETER_HANDLE_SKIP_SCANS (u32_to_string numberOfScanToSkip)"

datatype RwHandleUdp =
    RwHandleUdp_withHostname string
  | RwHandleUdp_withPort u16
  | RwHandleUdp_withWatchdog
  | RwHandleUdp_withoutWatchdog
  | RwHandleUdp_withWatchdogTimeout u32
  | RwHandleUdp_withPacketType PACKET_TYPE
  | RwHandleUdp_withPacketCrc CRC
  | RwHandleUdp_withStartAngle i32
  | RwHandleUdp_withNumberOfPointsPerScan u32
  | RwHandleUdp_withNumberOfScanToSkip u32

fun RwHandleUdp_method :: "RwHandleUdp \<Rightarrow> ParametersMap \<Rightarrow> ParametersMap" where
  "RwHandleUdp_method (RwHandleUdp_withHostname hostname) = ADD_RW_PARAMETER_BUILDER_METHOD PARAMETER_HANDLE_ADDRESS hostname"
| "RwHandleUdp_method (RwHandleUdp_withPort port) = ADD_RW_PARAMETER_BUILDER_METHOD PARAMETER_HANDLE_PORT (u16_to_string port)"
| "RwHandleUdp_method RwHandleUdp_withWatchdog = ADD_RW_PARAMETER_BUILDER_METHOD_ON PARAMETER_HANDLE_WATCHDOG"
| "RwHandleUdp_method RwHandleUdp_withoutWatchdog = ADD_RW_PARAMETER_BUILDER_METHOD_OFF PARAMETER_HANDLE_WATCHDOG"
| "RwHandleUdp_method (RwHandleUdp_withWatchdogTimeout watchdogtimeout) = ADD_RW_PARAMETER_BUILDER_METHOD PARAMETER_HANDLE_WATCHDOG_TIMEOUT (u32_to_string watchdogtimeout)"
| "RwHandleUdp_method (RwHandleUdp_withPacketType packetType) = ADD_RW_PARAMETER_BUILDER_METHOD PARAMETER_HANDLE_PACKET_TYPE (scanPacketString packetType)"
| "RwHandleUdp_method (RwHandleUdp_withPacketCrc crcType) = ADD_RW_PARAMETER_BUILDER_METHOD PARAMETER_HANDLE_PACKET_CRC (crcToString crcType)"
| "RwHandleUdp_method (RwHandleUdp_withStartAngle startAngle) = ADD_RW_PARAMETER_BUILDER_METHOD PARAMETER_HANDLE_START_ANGLE (i32_to_string startAngle)"
| "RwHandleUdp_method (RwHandleUdp_withNumberOfPointsPerScan numberOfPointsPerScan) = ADD_RW_PARAMETER_BUILDER_METHOD PARAMETER_HANDLE_MAX_NUM_POINTS_SCAN (u32_to_string numberOfPointsPerScan)"
| "RwHandleUdp_method (RwHandleUdp_withNumberOfScanToSkip numberOfScanToSkip) = ADD_RW_PARAMETER_BUILDER_METHOD PARAMETER_HANDLE_SKIP_SCANS (u32_to_string numberOfScanToSkip)"

datatype RwLensContaminationMonitor =
    RwLensContaminationMonitor_withSensitivity LCM_SENSITIVITY
  | RwLensContaminationMonitor_withDetectionPeriod int
  | RwLensContaminationMonitor_withLcmEnabled
  | RwLensContaminationMonitor_withLcmDisabled

fun RwLensContaminationMonitor_method :: "RwLensContaminationMonitor \<Rightarrow> ParametersMap \<Rightarrow> ParametersMap" where
  "RwLensContaminationMonitor_method (RwLensContaminationMonitor_withSensitivity sensitivity) = ADD_RW_PARAMETER_BUILDER_METHOD PARAMETER_LCM_DETECTION_SENSITIVITY (LCMSensitivityToString sensitivity)"
| "RwLensContaminationMonitor_method (RwLensContaminationMonitor_withDetectionPeriod period) = ADD_RW_PARAMETER_BUILDER_METHOD PARAMETER_LCM_DETECTION_PERIOD (int_to_string period)"
| "RwLensContaminationMonitor_method RwLensContaminationMonitor_withLcmEnabled = ADD_RW_PARAMETER_BUILDER_METHOD_ON PARAMETER_LCM_SECTOR_ENABLE"
| "RwLensContaminationMonitor_method RwLensContaminationMonitor_withLcmDisabled = ADD_RW_PARAMETER_BUILDER_METHOD_OFF PARAMETER_LCM_SECTOR_ENABLE"

subsection \<open>Read-only sections\<close>

datatype RoBasicInformation =
    RoBasicInformation_requestDeviceFamily
  | RoBasicInformation_requestVendor
  | RoBasicInformation_requestProduct
  | RoBasicInformation_requestPart
  | RoBasicInformation_requestSerial
  | RoBasicInformation_requestFirmwareRevision
  | RoBasicInformation_requestHardwareRevision
  | RoBasicInformation_withUserTag
  | RoBasicInformation_withUserNotes

fun RoBasicInformation_method :: "RoBasicInformation \<Rightarrow> ParametersList \<Rightarrow> ParametersList" where
  "RoBasicInformation_method RoBasicInformation_requestDeviceFamily = ADD_RO_PARAMETER_BUILDER_METHOD PARAMETER_DEVICE_FAMILY"
| "RoBasicInformation_method RoBasicInformation_requestVendor = ADD_RO_PARAMETER_BUILDER_METHOD PARAMETER_VENDOR"
| "RoBasicInformation_method RoBasicInformation_requestProduct = ADD_RO_PARAMETER_BUILDER_METHOD PARAMETER_PRODUCT"
| "RoBasicInformation_method RoBasicInformation_requestPart = ADD_RO_PARAMETER_BUILDER_METHOD PARAMETER_PART"
| "RoBasicInformation_method RoBasicInformation_requestSerial = ADD_RO_PARAMETER_BUILDER_METHOD PARAMETER_SERIAL"
| "RoBasicInformation_method RoBasicInformation_requestFirmwareRevision = ADD_RO_PARAMETER_BUILDER_METHOD PARAMETER_REVISION_FW"
| "RoBasicInformation_method RoBasicInformation_requestHardwareRevision = ADD_RO_PARAMETER_BUILDER_METHOD PARAMETER_REVISION_HW"
| "RoBasicInformation_method RoBasicInformation_withUserTag = ADD_RO_PARAMETER_BUILDER_METHOD PARAMETER_USER_TAG"
| "RoBasicInformation_method RoBasicInformation_withUserNotes = ADD_RO_PARAMETER_BUILDER_METHOD PARAMETER_USER_NOTES"

datatype RoCapabilities =
    RoCapabilities_requestFeatureFlags
  | RoCapabilities_requestEmitterType
  | RoCapabilities_requestRadialMinRange
  | RoCapabilities_requestRadialMaxRange
  | RoCapabilities_requestRadialResolution
  | RoCapabilities_requestAngularFov
  | RoCapabilities_requestAngularResolution
  | RoCapabilities_requestMinimalScanFrequency
  | RoCapabilities_requestMaximalScanFrequency
  | RoCapabilities_requestMinimalSamplingRate
  | RoCapabilities_requestMaximalSamplingRate
  | RoCapabilities_requestMaximalConnections

fun RoCapabilities_method :: "RoCapabilities \<Rightarrow> ParametersList \<Rightarrow> ParametersList" where
  "RoCapabilities_method RoCapabilities_requestFeatureFlags = ADD_RO_PARAMETER_BUILDER_METHOD PARAMETER_FEATURE_FLAGS"
| "RoCapabilities_method RoCapabilities_requestEmitterType = ADD_RO_PARAMETER_BUILDER_METHOD PARAMETER_EMITTER_TYPE"
| "RoCapabilities_method RoCapabilities_requestRadialMinRange = ADD_RO_PARAMETER_BUILDER_METHOD PARAMETER_RADIAL_RANGE_MIN"
| "RoCapabilities_method RoCapabilities_requestRadialMaxRange = ADD_RO_PARAMETER_BUILDER_METHOD PARAMETER_RADIAL_RANGE_MAX"
| "RoCapabilities_method RoCapabilities_requestRadialResolution = ADD_RO_PARAMETER_BUILDER_METHOD PARAMETER_RADIAL_RESOLUTION"
| "RoCapabilities_method RoCapabilities_requestAngularFov = ADD_RO_PARAMETER_BUILDER_METHOD PARAMETER_ANGULAR_FOV"
| "RoCapabilities_method RoCapabilities_requestAngularResolution = ADD_RO_PARAMETER_BUILDER_METHOD PARAMETER_ANGULAR_RESOLUTION"
| "RoCapabilities_method RoCapabilities_requestMinimalScanFrequency = ADD_RO_PARAMETER_BUILDER_METHOD PARAMETER_SCAN_FREQUENCY_MIN"
| "RoCapabilities_method RoCapabilities_requestMaximalScanFrequency = ADD_RO_PARAMETER_BUILDER_METHOD PARAMETER_SCAN_FREQUENCY_MAX"
| "RoCapabilities_method RoCapabilities_requestMinimalSamplingRate = ADD_RO_PARAMETER_BUILDER_METHOD PARAMETER_SAMPLING_RATE_MIN"
| "RoCapabilities_method RoCapabilities_requestMaximalSamplingRate = ADD_RO_PARAMETER_BUILDER_METHOD PARAMETER_SAMPLING_RATE_MAX"
| "RoCapabilities_method RoCapabilities_requestMaximalConnections = ADD_RO_PARAMETER_BUILDER_METHOD PARAMETER_MAX_CONNECTIONS"

datatype RoEthernet =
    RoEthernet_requestCurrentIpMode
  | RoEthernet_requestCurrentIpAddress
  | RoEthernet_requestCurrentSubnetMask
  | RoEthernet_requestCurrentGateway
  | RoEthernet_requestMacAddress
  | RoEthernet_withIpMode
  | RoEthernet_withIpAddress
  | RoEthernet_withSubnetMask
  | RoEthernet_withGateway

fun RoEthernet_method :: "RoEthernet \<Rightarrow> ParametersList \<Rightarrow> ParametersList" where
  "RoEthernet_method RoEthernet_requestCurrentIpMode = ADD_RO_PARAMETER_BUILDER_METHOD PARAMETER_IP_MODE_CURRENT"
| "RoEthernet_method RoEthernet_requestCurrentIpAddress = ADD_RO_PARAMETER_BUILDER_METHOD PARAMETER_IP_ADDRESS_CURRENT"
| "RoEthernet_method RoEthernet_requestCurrentSubnetMask = ADD_RO_PARAMETER_BUILDER_METHOD PARAMETER_SUBNET_MASK_CURRENT"
| "RoEthernet_method RoEthernet_requestCurrentGateway = ADD_RO_PARAMETER_BUILDER_METHOD PARAMETER_GATEWAY_CURRENT"
| "RoEthernet_method RoEthernet_requestMacAddress = ADD_RO_PARAMETER_BUILDER_METHOD PARAMETER_MAC_ADDRESS"
| "RoEthernet_method RoEthernet_withIpMode = ADD_RO_PARAMETER_BUILDER_METHOD PARAMETER_IP_MODE"
| "RoEthernet_method RoEthernet_withIpAddress = ADD_RO_PARAMETER_BUILDER_METHOD PARAMETER_IP_ADDRESS"
| "RoEthernet_method RoEthernet_withSubnetMask = ADD_RO_PARAMETER_BUILDER_METHOD PARAMETER_SUBNET_MASK"
| "RoEthernet_method RoEthernet_withGateway = ADD_RO_PARAMETER_BUILDER_METHOD PARAMETER_GATEWAY"

datatype RoMeasuring =
    RoMeasuring_requestMeasuredFrequency
  | RoMeasuring_withOperatingMode
  | RoMeasuring_withScanFrequency
  | RoMeasuring_withScanDirection
  | RoMeasuring_withSamplesPerScan

fun RoMeasuring_method :: "RoMeasuring \<Rightarrow> ParametersList \<Rightarrow> ParametersList" where
  "RoMeasuring_method RoMeasuring_requestMeasuredFrequency = ADD_RO_PARAMETER_BUILDER_METHOD PARAMETER_SCAN_FREQUENCY_MEASURED"
| "RoMeasuring_method RoMeasuring_withOperatingMode = ADD_RO_PARAMETER_BUILDER_METHOD PARAMETER_OPERATING_MODE"
| "RoMeasuring_method RoMeasuring_withScanFrequency = ADD_RO_PARAMETER_BUILDER_METHOD PARAMETER_SCAN_FREQUENCY"
| "RoMeasuring_method RoMeasuring_withScanDirection = ADD_RO_PARAMETER_BUILDER_METHOD PARAMETER_SCAN_DIRECTION"
| "RoMeasuring_method RoMeasuring_withSamplesPerScan = ADD_RO_PARAMETER_BUILDER_METHOD PARAMETER_SAMPLES_PER_SCAN"

datatype RoHmiDisplay =
    RoHmiDisplay_withHmiDisplayMode
  | RoHmiDisplay_withHmiLanguage
  | RoHmiDisplay_withLockHmiButton
  | RoHmiDisplay_withLockHmiParameters
  | RoHmiDisplay_withLEDLocatorIndication
  | RoHmiDisplay_withHmiStaticLogo
  | RoHmiDisplay_withHmiStaticText1
  | RoHmiDisplay_withHmiStaticText2
  | RoHmiDisplay_withHmiApplicationBitmap
  | RoHmiDisplay_withHmiApplicationText1
  | RoHmiDisplay_withHmiApplicationText2

fun RoHmiDisplay_method :: "RoHmiDisplay \<Rightarrow> ParametersList \<Rightarrow> ParametersList" where
  "RoHmiDisplay_method RoHmiDisplay_withHmiDisplayMode = ADD_RO_PARAMETER_BUILDER_METHOD PARAMETER_HMI_DISPLAY_MODE"
| "RoHmiDisplay_method RoHmiDisplay_withHmiLanguage = ADD_RO_PARAMETER_BUILDER_METHOD PARAMETER_HMI_LANGUAGE"
| "RoHmiDisplay_method RoHmiDisplay_withLockHmiButton = ADD_RO_PARAMETER_BUILDER_METHOD PARAMETER_HMI_BUTTON_LOCK"
| "RoHmiDisplay_method RoHmiDisplay_withLockHmiParameters = ADD_RO_PARAMETER_BUILDER_METHOD PARAMETER_HMI_PARAMETER_LOCK"
| "RoHmiDisplay_method RoHmiDisplay_withLEDLocatorIndication = ADD_RO_PARAMETER_BUILDER_METHOD PARAMETER_LOCATOR_INDICATION"
| "RoHmiDisplay_method RoHmiDisplay_withHmiStaticLogo = ADD_RO_PARAMETER_BUILDER_METHOD PARAMETER_HMI_STATIC_LOGO"
| "RoHmiDisplay_method RoHmiDisplay_withHmiStaticText1 = ADD_RO_PARAMETER_BUILDER_METHOD PARAMETER_HMI_STATIC_TEXT_1"
| "RoHmiDisplay_method RoHmiDisplay_withHmiStaticText2 = ADD_RO_PARAMETER_BUILDER_METHOD PARAMETER_HMI_STATIC_TEXT_2"
| "RoHmiDisplay_method RoHmiDisplay_withHmiApplicationBitmap = ADD_RO_PARAMETER_BUILDER_METHOD PARAMETER_HMI_APPLICATION_BITMAP"
| "RoHmiDisplay_method RoHmiDisplay_withHmiApplicationText1 = ADD_RO_PARAMETER_BUILDER_METHOD PARAMETER_HMI_APPLICATION_TEXT_1"
| "RoHmiDisplay_method RoHmiDisplay_withHmiApplicationText2 = ADD_RO_PARAMETER_BUILDER_METHOD PARAMETER_HMI_APPLICATION_TEXT_2"

datatype RoSystemStatus =
    RoSystemStatus_requestStatusFlags
  | RoSystemStatus_requestLoadIndication
  | RoSystemStatus_requestSystemTimeRaw
  | RoSystemStatus_requestUpTime
  | RoSystemStatus_requestPowerCycles
  | RoSystemStatus_requestOperationTime
  | RoSystemStatus_requestOperationTimeScaled
  | RoSystemStatus_requestCurrentTemperature
  | RoSystemStatus_requestMinimalTemperature
  | RoSystemStatus_requestMaximalTemperature

fun RoSystemStatus_method :: "RoSystemStatus \<Rightarrow> ParametersList \<Rightarrow> ParametersList" where
  "RoSystemStatus_method RoSystemStatus_requestStatusFlags = ADD_RO_PARAMETER_BUILDER_METHOD PARAMETER_STATUS_FLAGS"
| "RoSystemStatus_method RoSystemStatus_requestLoadIndication = ADD_RO_PARAMETER_BUILDER_METHOD PARAMETER_LOAD_INDICATION"
| "RoSystemStatus_method RoSystemStatus_requestSystemTimeRaw = ADD_RO_PARAMETER_BUILDER_METHOD PARAMETER_SYSTEM_TIME_RAW"
| "RoSystemStatus_method RoSystemStatus_requestUpTime = ADD_RO_PARAMETER_BUILDER_METHOD PARAMETER_UP_TIME"
| "RoSystemStatus_method RoSystemStatus_requestPowerCycles = ADD_RO_PARAMETER_BUILDER_METHOD PARAMETER_POWER_CYCLES"
| "RoSystemStatus_method RoSystemStatus_requestOperationTime = ADD_RO_PARAMETER_BUILDER_METHOD PARAMETER_OPERATION_TIME"
| "RoSystemStatus_method RoSystemStatus_requestOperationTimeScaled = ADD_RO_PARAMETER_BUILDER_METHOD PARAMETER_OPERATION_TIME_SCALED"
| "RoSystemStatus_method RoSystemStatus_requestCurrentTemperature = ADD_RO_PARAMETER_BUILDER_METHOD PARAMETER_TEMPERATURE_CURRENT"
| "RoSystemStatus_method RoSystemStatus_requestMinimalTemperature = ADD_RO_PARAMETER_BUILDER_METHOD PARAMETER_TEMPERATURE_MIN"
| "RoSystemStatus_method RoSystemStatus_requestMaximalTemperature = ADD_RO_PARAMETER_BUILDER_METHOD PARAMETER_TEMPERATURE_MAX"

datatype RoLensContaminationMonitor =
    RoLensContaminationMonitor_requestLcmSectorWarningFlag
  | RoLensContaminationMonitor_requestLcmSectorErrorFlag
  | RoLensContaminationMonitor_withSensitivity
  | RoLensContaminationMonitor_withDetectionPeriod
  | RoLensContaminationMonitor_withLcmState

fun RoLensContaminationMonitor_method :: "RoLensContaminationMonitor \<Rightarrow> ParametersList \<Rightarrow> ParametersList" where
  "RoLensContaminationMonitor_method RoLensContaminationMonitor_requestLcmSectorWarningFlag = ADD_RO_PARAMETER_BUILDER_METHOD PARAMETER_LCM_SECTOR_WARN_FLAGS"
| "RoLensContaminationMonitor_method RoLensContaminationMonitor_requestLcmSectorErrorFlag = ADD_RO_PARAMETER_BUILDER_METHOD PARAMETER_LCM_SECTOR_ERROR_FLAGS"
| "RoLensContaminationMonitor_method RoLensContaminationMonitor_withSensitivity = ADD_RO_PARAMETER_BUILDER_METHOD PARAMETER_LCM_DETECTION_SENSITIVITY"
| "RoLensContaminationMonitor_method RoLensContaminationMonitor_withDetectionPeriod = ADD_RO_PARAMETER_BUILDER_METHOD PARAMETER_LCM_DETECTION_PERIOD"
| "RoLensContaminationMonitor_method RoLensContaminationMonitor_withLcmState = ADD_RO_PARAMETER_BUILDER_METHOD PARAMETER_LCM_SECTOR_ENABLE"

section \<open>Builders\<close>

text \<open>
  A builder is a chain of method calls on a fresh object; \<open>build\<close> returns the collected parameters. The
  constructors of the two handle builders call \<open>withoutWatchdog\<close>.
\<close>

definition build_rw :: "('m \<Rightarrow> ParametersMap \<Rightarrow> ParametersMap) \<Rightarrow> ParametersMap \<Rightarrow> 'm list \<Rightarrow> ParametersMap" where
  "build_rw method fresh calls = fold method calls fresh"

definition build_ro :: "('m \<Rightarrow> ParametersList \<Rightarrow> ParametersList) \<Rightarrow> 'm list \<Rightarrow> ParametersList" where
  "build_ro method calls = fold method calls []"

definition RwHandleTcp_new :: ParametersMap where
  "RwHandleTcp_new = RwHandleTcp_method RwHandleTcp_withoutWatchdog []"

definition RwHandleUdp_new :: ParametersMap where
  "RwHandleUdp_new = RwHandleUdp_method RwHandleUdp_withoutWatchdog []"

definition TcpHandle :: "RwHandleTcp list \<Rightarrow> ParametersMap" where
  "TcpHandle calls = build_rw RwHandleTcp_method RwHandleTcp_new calls"

definition UdpHandle :: "RwHandleUdp list \<Rightarrow> ParametersMap" where
  "UdpHandle calls = build_rw RwHandleUdp_method RwHandleUdp_new calls"

end
