(* ===== verification/Http_Request.thy ===== *)
theory Http_Request
  imports Request_Result Parameters Std_Strings
begin

text \<open>
  The requests to the device (\<open>include/R2000.hpp\<close>, \<open>src/R2000.cpp\<close>): the text of a request, the reading
  of the answer from a connected socket, and the blocking commands. Boost's property tree and its JSON
  parser are the parameter \<open>ptree_ops\<close>; what the socket and the resolver answer are inputs.
\<close>

section \<open>Data\<close>

record DeviceConfiguration =
  cf_name :: string
  cf_deviceAddress :: string
  cf_httpServicePort :: u16

record 'tree DeviceAnswer =
  da_requestResult :: RequestResult
  da_propertyTree :: 'tree

text \<open>
  The operations of \<open>boost::property_tree\<close> that the sources call: the empty tree, \<open>read_json\<close>,
  \<open>get_optional\<close> and \<open>get\<close> at a path for strings and integers, \<open>get_child_optional\<close>, and the children
  of a node in order.
\<close>

record 'tree ptree_ops =
  pt_empty :: 'tree
  pt_read_json :: "string \<Rightarrow> 'tree result"
  pt_get_optional_string :: "'tree \<Rightarrow> string \<Rightarrow> string option"
  pt_get_optional_int :: "'tree \<Rightarrow> string \<Rightarrow> int option"
  pt_get_string :: "'tree \<Rightarrow> string \<Rightarrow> string result"
  pt_get_int :: "'tree \<Rightarrow> string \<Rightarrow> int result"
  pt_get_child_optional :: "'tree \<Rightarrow> string \<Rightarrow> 'tree option"
  pt_children :: "'tree \<Rightarrow> (string \<times> 'tree) list"

definition DeviceAnswer_of :: "'tree ptree_ops \<Rightarrow> RequestResult \<Rightarrow> 'tree DeviceAnswer" where
  "DeviceAnswer_of ops res = \<lparr>da_requestResult = res, da_propertyTree = pt_empty ops\<rparr>"

definition DeviceAnswer_with :: "RequestResult \<Rightarrow> 'tree \<Rightarrow> 'tree DeviceAnswer" where
  "DeviceAnswer_with res tree = \<lparr>da_requestResult = res, da_propertyTree = tree\<rparr>"

definition DeviceAnswer_bool :: "'tree DeviceAnswer \<Rightarrow> bool" where
  "DeviceAnswer_bool answer \<longleftrightarrow> da_requestResult answer = SUCCESS"

definition DeviceAnswer_equals :: "'tree DeviceAnswer \<Rightarrow> RequestResult \<Rightarrow> bool" where
  "DeviceAnswer_equals answer rhs \<longleftrightarrow> da_requestResult answer = rhs"

definition DeviceAnswer_differs :: "'tree DeviceAnswer \<Rightarrow> RequestResult \<Rightarrow> bool" where
  "DeviceAnswer_differs answer rhs \<longleftrightarrow> \<not> rhs = da_requestResult answer"

lemma DeviceAnswer_differs_iff: "DeviceAnswer_differs answer rhs \<longleftrightarrow> \<not> DeviceAnswer_equals answer rhs"
  by (auto simp: DeviceAnswer_differs_def DeviceAnswer_equals_def)

section \<open>The text of a request\<close>

definition pop_back_if :: "char \<Rightarrow> string \<Rightarrow> string" where
  "pop_back_if c s = (if last s = c then butlast s else s)"

definition makeRequestFromParameters :: "string \<Rightarrow> ParametersMap \<Rightarrow> string" where
  "makeRequestFromParameters command parameters =
     (let request1 = ''/cmd/'' @ command;
          request2 = (if parameters \<noteq> [] then request1 @ ''?'' else request1);
          request3 = fold (\<lambda>parameter request. request @ fst parameter @ ''='' @ snd parameter @ ''&'')
                       parameters request2
      in pop_back_if CHR ''&'' request3)"

section \<open>The input stream\<close>

text \<open>
  \<open>std::istream\<close> over the response buffer: the characters left and the bits \<open>eofbit\<close> and \<open>failbit\<close>.
\<close>

definition CR :: char where "CR = CHR 0x0D"
definition LF :: char where "LF = CHR 0x0A"

record istream =
  is_buffer :: string
  is_eof :: bool
  is_fail :: bool

definition is_good :: "istream \<Rightarrow> bool" where
  "is_good s \<longleftrightarrow> \<not> is_eof s \<and> \<not> is_fail s"

definition read_token :: "istream \<Rightarrow> string \<times> istream" where
  "read_token s =
     (let rest = dropWhile is_space (is_buffer s)
      in if \<not> is_good s then ([], s\<lparr>is_fail := True\<rparr>)
         else if rest = [] then ([], s\<lparr>is_buffer := [], is_eof := True, is_fail := True\<rparr>)
         else let rest' = dropWhile (\<lambda>c. \<not> is_space c) rest
              in (takeWhile (\<lambda>c. \<not> is_space c) rest, s\<lparr>is_buffer := rest', is_eof := rest' = []\<rparr>))"

text \<open>A number that does not fit in \<open>int\<close> sets \<open>failbit\<close>; what is stored then is not used by the callers.\<close>

definition read_int :: "istream \<Rightarrow> int \<times> istream" where
  "read_int s =
     (let rest = dropWhile is_space (is_buffer s);
          signed = rest \<noteq> [] \<and> (hd rest = CHR ''-'' \<or> hd rest = CHR ''+'');
          digits = takeWhile is_digit (if signed then tl rest else rest);
          rest' = dropWhile is_digit (if signed then tl rest else rest);
          v = (if signed \<and> hd rest = CHR ''-'' then - int (decimal_value digits) else int (decimal_value digits))
      in if \<not> is_good s then (0, s\<lparr>is_fail := True\<rparr>)
         else if digits = [] \<or> v < - (2 ^ 31) \<or> 2 ^ 31 \<le> v
         then (0, s\<lparr>is_buffer := rest', is_eof := rest' = [], is_fail := True\<rparr>)
         else (v, s\<lparr>is_buffer := rest', is_eof := rest' = []\<rparr>))"

definition getline :: "istream \<Rightarrow> string \<times> istream" where
  "getline s =
     (if \<not> is_good s then ([], s\<lparr>is_fail := True\<rparr>)
      else if is_buffer s = [] then ([], s\<lparr>is_eof := True, is_fail := True\<rparr>)
      else let line = takeWhile (\<lambda>c. c \<noteq> LF) (is_buffer s);
               rest = dropWhile (\<lambda>c. c \<noteq> LF) (is_buffer s)
           in if rest = [] then (line, s\<lparr>is_buffer := [], is_eof := True\<rparr>)
              else (line, s\<lparr>is_buffer := tl rest\<rparr>))"

text \<open>The size of a stream is what is left to read: the measure of the loops over its lines.\<close>

instantiation istream_ext :: (type) size
begin

definition size_istream_ext :: "'a istream_ext \<Rightarrow> nat" where
  "size_istream_ext s = length (is_buffer s)"

instance ..

end

lemma length_tl_dropWhile_less: "xs \<noteq> [] \<Longrightarrow> length (tl (dropWhile P xs)) < length xs"
  by (metis diff_less_mono2 length_dropWhile_le length_greater_0_conv length_tl less_imp_diff_less
      order_le_less_trans diff_less zero_less_one list.sel(2) le_less)

lemma getline_shorter:
  assumes "getline s = (line, s')" and "\<not> is_fail s'"
  shows "size s' < size s"
  using assms length_tl_dropWhile_less [of "is_buffer s" "\<lambda>c. c \<noteq> LF"]
  by (auto simp: getline_def size_istream_ext_def Let_def split: if_splits)

section \<open>Reading the answer\<close>

text \<open>The loop over the header lines ends at the line that holds a carriage return alone.\<close>

function skip_headers :: "istream \<Rightarrow> istream" where
  "skip_headers s =
     (case getline s of (line, s1) \<Rightarrow>
        if is_fail s1 \<or> line = [CR] then s1 else skip_headers s1)"
  by pat_completeness auto
termination by (relation "measure size") (auto dest!: getline_shorter[OF sym])

text \<open>The loop that appends the lines left in the buffer, without their line feeds, to the content.\<close>

function append_lines :: "string \<Rightarrow> istream \<Rightarrow> string \<times> istream" where
  "append_lines content s =
     (case getline s of (line, s1) \<Rightarrow>
        if is_fail s1 then (content, s1) else append_lines (content @ line) s1)"
  by pat_completeness auto
termination by (relation "measure (\<lambda>(_, s). size s)") (auto dest!: getline_shorter[OF sym])

declare skip_headers.simps [simp del] append_lines.simps [simp del]

text \<open>
  What the socket does during one request: whether the request is written; the bytes that the two
  calls of \<open>read_until\<close> leave in the buffer, \<open>None\<close> for an error; the bytes of each further read; and
  whether the read that transfers nothing reports the end of the stream.
\<close>

record http_exchange =
  hx_written :: bool
  hx_status :: "string option"
  hx_headers :: "string option"
  hx_body :: "string list"
  hx_eof :: bool

fun read_body :: "string list \<Rightarrow> string \<Rightarrow> istream \<Rightarrow> string" where
  "read_body [] content s = content"
| "read_body (chunk # chunks) content s =
     (let (content1, s1) = append_lines content
            \<lparr>is_buffer = is_buffer s @ chunk, is_eof = False, is_fail = False\<rparr>
      in read_body chunks content1 s1)"

definition verifyErrorCode :: "'tree ptree_ops \<Rightarrow> 'tree \<Rightarrow> bool" where
  "verifyErrorCode ops tree \<longleftrightarrow>
     pt_get_optional_int ops tree ERROR_CODE = Some 0 \<and>
     pt_get_optional_string ops tree ERROR_TEXT = Some ''success''"

definition answer_of_content :: "'tree ptree_ops \<Rightarrow> int \<Rightarrow> string \<Rightarrow> 'tree DeviceAnswer result" where
  "answer_of_content ops statusCode content =
     (let responseCode = requestResultFromCode (word_of_int statusCode);
          content1 = map (\<lambda>c. if c = CR then CHR '' '' else c) content
      in if responseCode \<noteq> SUCCESS then Inr (DeviceAnswer_of ops responseCode)
         else bind_result (pt_read_json ops content1) (\<lambda>propertyTree.
           if \<not> verifyErrorCode ops propertyTree then Inr (DeviceAnswer_of ops responseCode)
           else Inr (DeviceAnswer_with responseCode propertyTree)))"

text \<open>What is written to the socket for a request.\<close>

definition HttpGet_request :: "string \<Rightarrow> string" where
  "HttpGet_request requestPath = ''GET '' @ requestPath @ '' HTTP/1.0'' @ [CR, LF, CR, LF]"

definition HttpGet_socket ::
  "'tree ptree_ops \<Rightarrow> (string \<Rightarrow> http_exchange) \<Rightarrow> string \<Rightarrow> 'tree DeviceAnswer result" where
  "HttpGet_socket ops socket requestPath =
     (let x = socket (HttpGet_request requestPath)
      in if \<not> hx_written x then Inr (DeviceAnswer_of ops FAILED)
         else case hx_status x of
             None \<Rightarrow> Inr (DeviceAnswer_of ops FAILED)
           | Some received \<Rightarrow>
               (let (httpVersion, s1) = read_token \<lparr>is_buffer = received, is_eof = False, is_fail = False\<rparr>;
                    (statusCode, s2) = read_int s1;
                    (statusMessage, s3) = getline s2
                in if is_fail s3 \<or> take 5 httpVersion \<noteq> ''HTTP/''
                   then Inr (DeviceAnswer_of ops INVALID_DEVICE_RESPONSE)
                   else case hx_headers x of
                       None \<Rightarrow> Inr (DeviceAnswer_of ops FAILED)
                     | Some headers \<Rightarrow>
                         (let s4 = skip_headers (s3\<lparr>is_buffer := is_buffer s3 @ headers\<rparr>);
                              (content, s5) = append_lines [] s4;
                              content1 = read_body (hx_body x) content s5
                          in if \<not> hx_eof x then Inr (DeviceAnswer_of ops FAILED)
                             else answer_of_content ops statusCode content1)))"

section \<open>The blocking commands\<close>

text \<open>
  The network as one blocking request meets it: the resolution of an address and a port, the outcome
  of a connection to an endpoint, and what the socket connected to it does. A thrown exception is the
  \<open>Inl\<close> of the resolution.
\<close>

record 'ep network =
  nw_resolve :: "string \<times> string \<Rightarrow> 'ep list result"
  nw_connect :: "'ep \<Rightarrow> error_code"
  nw_socket :: "'ep \<Rightarrow> string \<Rightarrow> http_exchange"

definition getDeviceQuery :: "DeviceConfiguration \<Rightarrow> string \<times> string" where
  "getDeviceQuery configuration =
     (cf_deviceAddress configuration, nat_to_string (unat (cf_httpServicePort configuration)))"

fun connect_first :: "('ep \<Rightarrow> error_code) \<Rightarrow> 'ep list \<Rightarrow> 'ep option" where
  "connect_first connect [] = None"
| "connect_first connect (endpoint # endpoints) =
     (if connect endpoint = No_Error then Some endpoint else connect_first connect endpoints)"

definition HttpGet ::
  "'tree ptree_ops \<Rightarrow> 'ep network \<Rightarrow> DeviceConfiguration \<Rightarrow> string \<Rightarrow> 'tree DeviceAnswer result" where
  "HttpGet ops net configuration requestPath =
     bind_result (nw_resolve net (getDeviceQuery configuration)) (\<lambda>endpoints.
       case connect_first (nw_connect net) endpoints of
         None \<Rightarrow> Inr (DeviceAnswer_of ops FAILED)
       | Some endpoint \<Rightarrow> HttpGet_socket ops (nw_socket net endpoint) requestPath)"

text \<open>Of the exceptions only \<open>std::system_error\<close> is caught.\<close>

definition sendHttpCommand ::
  "'tree ptree_ops \<Rightarrow> 'ep network \<Rightarrow> DeviceConfiguration \<Rightarrow> string \<Rightarrow> ParametersMap
   \<Rightarrow> 'tree DeviceAnswer result" where
  "sendHttpCommand ops net configuration command parameters =
     (case HttpGet ops net configuration (makeRequestFromParameters command parameters) of
        Inl (System_Error what) \<Rightarrow> Inr (DeviceAnswer_of ops FAILED)
      | outcome \<Rightarrow> outcome)"

definition sendHttpCommand_value ::
  "'tree ptree_ops \<Rightarrow> 'ep network \<Rightarrow> DeviceConfiguration \<Rightarrow> string \<Rightarrow> string \<Rightarrow> string
   \<Rightarrow> 'tree DeviceAnswer result" where
  "sendHttpCommand_value ops net configuration command parameter value =
     sendHttpCommand ops net configuration command
       (if parameter \<noteq> [] then pm_assign parameter value [] else [])"

lemma connect_first_find: "connect_first connect eps = find (\<lambda>ep. connect ep = No_Error) eps"
  by (induction eps) simp_all

section \<open>Decoding a request\<close>

text \<open>How a receiver reads the text of a request: the query after the question mark, split at the ampersands.\<close>

fun split_on :: "char \<Rightarrow> string \<Rightarrow> string list" where
  "split_on c [] = [[]]"
| "split_on c (x # xs) =
     (if x = c then [] # split_on c xs
      else case split_on c xs of [] \<Rightarrow> [[x]] | w # ws \<Rightarrow> (x # w) # ws)"

definition decode_entry :: "string \<Rightarrow> string \<times> string" where
  "decode_entry e = (takeWhile (\<lambda>c. c \<noteq> CHR ''='') e, tl (dropWhile (\<lambda>c. c \<noteq> CHR ''='') e))"

definition decode_request :: "string \<Rightarrow> string \<times> ParametersMap" where
  "decode_request r =
     (let query = tl (dropWhile (\<lambda>c. c \<noteq> CHR ''?'') r)
      in (takeWhile (\<lambda>c. c \<noteq> CHR ''?'') r,
          if query = [] then [] else map decode_entry (split_on CHR ''&'' query)))"

definition encode_entry :: "string \<times> string \<Rightarrow> string" where
  "encode_entry p = fst p @ ''='' @ snd p"

lemma split_on_nonempty [simp]: "split_on c xs \<noteq> []"
  by (induction xs) (auto split: list.split)

lemma split_on_word: "c \<notin> set w \<Longrightarrow> split_on c w = [w]"
  by (induction w) auto

lemma split_on_append: "c \<notin> set w \<Longrightarrow> split_on c (w @ c # xs) = w # split_on c xs"
  by (induction w) auto

lemma takeWhile_stop: "c \<notin> set xs \<Longrightarrow> takeWhile (\<lambda>x. x \<noteq> c) (xs @ c # ys) = xs"
  by (induction xs) auto

lemma dropWhile_stop: "c \<notin> set xs \<Longrightarrow> dropWhile (\<lambda>x. x \<noteq> c) (xs @ c # ys) = c # ys"
  by (induction xs) auto

lemma takeWhile_none: "c \<notin> set xs \<Longrightarrow> takeWhile (\<lambda>x. x \<noteq> c) xs = xs"
  by (induction xs) auto

lemma dropWhile_none: "c \<notin> set xs \<Longrightarrow> dropWhile (\<lambda>x. x \<noteq> c) xs = []"
  by (induction xs) auto

lemmas stop_at = takeWhile_stop dropWhile_stop takeWhile_none dropWhile_none

lemma split_on_joined:
  assumes "ws \<noteq> []" and "\<forall>w \<in> set ws. c \<notin> set w"
  shows "split_on c (butlast (concat (map (\<lambda>w. w @ [c]) ws))) = ws"
  using assms
proof (induction ws rule: induct_list012)
  case (3 x y zs)
  have "butlast (concat (map (\<lambda>w. w @ [c]) (x # y # zs))) =
      x @ c # butlast (concat (map (\<lambda>w. w @ [c]) (y # zs)))"
    by (simp add: butlast_append)
  then show ?case using 3 by (simp add: split_on_append)
qed (simp_all add: split_on_word)

lemma decode_encode_entry: "CHR ''='' \<notin> set (fst p) \<Longrightarrow> decode_entry (encode_entry p) = p"
  by (simp add: decode_entry_def encode_entry_def stop_at)

lemma request_entries:
  "fold (\<lambda>parameter request. request @ fst parameter @ ''='' @ snd parameter @ ''&'') ps r =
     r @ concat (map (\<lambda>w. w @ ''&'') (map encode_entry ps))"
  by (induction ps arbitrary: r) (simp_all add: encode_entry_def)

lemma makeRequestFromParameters_eq:
  "ps \<noteq> [] \<Longrightarrow> makeRequestFromParameters command ps =
     ''/cmd/'' @ command @ ''?'' @ butlast (concat (map (\<lambda>w. w @ ''&'') (map encode_entry ps)))"
proof -
  assume "ps \<noteq> []"
  then obtain qs q where ps: "ps = qs @ [q]" by (metis rev_exhaust)
  show ?thesis
    unfolding makeRequestFromParameters_def Let_def request_entries
    by (simp add: pop_back_if_def ps butlast_append)
qed

text \<open>
  And how it reads the whole request: a request line of a method, a target and a version, and no header
  fields; in the parts of the target an escape \<open>%xx\<close> stands for the character with this code.
\<close>

definition hex_value :: "char \<Rightarrow> nat" where
  "hex_value c = (let n = of_char c in if n < 65 then n - 48 else if n < 97 then n - 55 else n - 87)"

fun url_decode :: "string \<Rightarrow> string" where
  "url_decode [] = []"
| "url_decode (c # s) =
     (if c = CHR ''%'' \<and> 2 \<le> length s
      then char_of (16 * hex_value (s ! 0) + hex_value (s ! 1)) # url_decode (drop 2 s)
      else c # url_decode s)"

definition receive_request :: "string \<Rightarrow> (string \<times> ParametersMap) option" where
  "receive_request received =
     (case split_on CHR '' '' (takeWhile (\<lambda>c. c \<noteq> CR) received) of
        [request_method, target, version] \<Rightarrow>
          if request_method = ''GET'' \<and> version = ''HTTP/1.0'' \<and>
             dropWhile (\<lambda>c. c \<noteq> CR) received = [CR, LF, CR, LF]
          then let (path, entries) = decode_request target
               in Some (url_decode path, map (map_prod url_decode url_decode) entries)
          else None
      | _ \<Rightarrow> None)"

definition unreserved :: "string \<Rightarrow> string \<Rightarrow> bool" where
  "unreserved reserved s \<longleftrightarrow> (\<forall>c \<in> set s. \<not> is_space c \<and> c \<noteq> CHR ''%'' \<and> c \<notin> set reserved)"

lemma unreservedD: "unreserved reserved s \<Longrightarrow> c \<in> set reserved \<Longrightarrow> c \<notin> set s"
  "unreserved reserved s \<Longrightarrow> CHR ''%'' \<notin> set s"
  by (auto simp only: unreserved_def)

lemma all_concat: "\<forall>x \<in> set xs. \<forall>c \<in> set (f x). P c \<Longrightarrow> \<forall>c \<in> set (concat (map f xs)). P c"
  by auto

lemma url_decode_id: "CHR ''%'' \<notin> set s \<Longrightarrow> url_decode s = s"
  by (induction s) auto

lemma percent_20: "char_of (16 * hex_value (CHR ''2'') + hex_value (CHR ''0'')) = CHR '' ''"
  by code_simp

lemma url_decode_encore:
  "CHR ''%'' \<notin> set v \<Longrightarrow> url_decode (encoreSpaceInUrl v) = map (\<lambda>c. if is_space c then CHR '' '' else c) v"
proof (induction v)
  case Nil
  show ?case by (simp add: encoreSpaceInUrl_def)
next
  case (Cons c v)
  then show ?case by (auto simp: encoreSpaceInUrl_def percent_20)
qed

lemma encore_plain: "\<not> is_space c \<Longrightarrow> c \<in> set (encoreSpaceInUrl v) \<Longrightarrow> c \<in> set v \<or> c \<in> set ''%20''"
  by (auto simp: encoreSpaceInUrl_def split: if_splits)

lemma encore_no_space: "\<forall>c \<in> set (encoreSpaceInUrl v). \<not> is_space c"
  by (auto simp: encoreSpaceInUrl_def is_space_def)

lemma request_line:
  assumes "\<forall>c \<in> set target. \<not> is_space c"
  shows "receive_request (HttpGet_request target) =
    (let (path, entries) = decode_request target in Some (url_decode path, map (map_prod url_decode url_decode) entries))"
proof -
  have space: "is_space CR" "is_space CHR '' ''" by (simp_all add: is_space_def CR_def)
  then have target: "CR \<notin> set target" "CHR '' '' \<notin> set target" using assms by blast+
  have sent: "HttpGet_request target = (''GET '' @ target @ '' HTTP/1.0'') @ CR # [LF, CR, LF]"
    by (simp add: HttpGet_request_def)
  have line: "CR \<notin> set (''GET '' @ target @ '' HTTP/1.0'')" using target(1) by (simp add: CR_def)
  have "split_on CHR '' '' (''GET'' @ CHR '' '' # target @ CHR '' '' # ''HTTP/1.0'') = [''GET'', target, ''HTTP/1.0'']"
    by (subst split_on_append, simp, subst split_on_append, fact target(2), simp add: split_on_word)
  then have "split_on CHR '' '' (''GET '' @ target @ '' HTTP/1.0'') = [''GET'', target, ''HTTP/1.0'']" by simp
  then show ?thesis
    unfolding receive_request_def sent takeWhile_stop [OF line] dropWhile_stop [OF line] by simp
qed

section \<open>The answer as a whole\<close>

abbreviation stream_of :: "string \<Rightarrow> istream" where
  "stream_of text \<equiv> \<lparr>is_buffer = text, is_eof = False, is_fail = False\<rparr>"

lemma takeWhile_append_stop: "\<forall>x \<in> set xs. P x \<Longrightarrow> \<not> P y \<Longrightarrow> takeWhile P (xs @ y # ys) = xs"
  by (induction xs) auto

lemma dropWhile_append_stop: "\<forall>x \<in> set xs. P x \<Longrightarrow> \<not> P y \<Longrightarrow> dropWhile P (xs @ y # ys) = y # ys"
  by (induction xs) auto

lemma read_token_stream:
  assumes "w \<noteq> []" and "\<forall>c \<in> set w. \<not> is_space c" and "is_space c"
  shows "read_token (stream_of (w @ c # rest)) = (w, stream_of (c # rest))"
proof -
  have "dropWhile is_space (w @ c # rest) = w @ c # rest" using assms by (cases w) auto
  then show ?thesis
    using assms by (simp add: read_token_def Let_def is_good_def takeWhile_append_stop dropWhile_append_stop)
qed

lemma read_int_stream:
  assumes "n < 2 ^ 31" and "is_space c" and "\<not> is_digit d"
  shows "read_int (stream_of (c # nat_to_string n @ d # rest)) = (int n, stream_of (d # rest))"
proof -
  obtain e es where ds: "nat_to_string n = e # es" by (cases "nat_to_string n") simp_all
  have digits: "\<forall>x \<in> set (nat_to_string n). is_digit x" by (rule nat_to_string_digits)
  then have e: "is_digit e" by (simp add: ds)
  have skip: "dropWhile is_space (nat_to_string n @ d # rest) = nat_to_string n @ d # rest"
    using is_digit_not_space [OF e] by (simp add: ds)
  have hd: "hd (nat_to_string n @ d # rest) = e" by (simp add: ds)
  have "takeWhile is_digit (nat_to_string n @ d # rest) = nat_to_string n"
    and "dropWhile is_digit (nat_to_string n @ d # rest) = d # rest"
    using digits assms(3) by (simp_all add: takeWhile_append_stop dropWhile_append_stop)
  then show ?thesis
    using assms(1,2) is_digit_not_sign [OF e] by (simp add: read_int_def Let_def skip hd is_good_def)
qed

lemma getline_stream: "LF \<notin> set line \<Longrightarrow> getline (stream_of (line @ LF # rest)) = (line, stream_of rest)"
  by (simp add: getline_def Let_def is_good_def stop_at)

lemma getline_last:
  "LF \<notin> set line \<Longrightarrow> line \<noteq> [] \<Longrightarrow>
   getline (stream_of line) = (line, \<lparr>is_buffer = [], is_eof = True, is_fail = False\<rparr>)"
  by (simp add: getline_def Let_def is_good_def stop_at)

lemma CR_LF [simp]: "CR \<noteq> LF" "LF \<noteq> CR"
  by (simp_all add: CR_def LF_def)

lemma skip_headers_stream:
  assumes "\<forall>h \<in> set headers. h \<noteq> [] \<and> LF \<notin> set h"
  shows "skip_headers (stream_of (concat (map (\<lambda>h. h @ [CR, LF]) headers) @ CR # LF # rest)) = stream_of rest"
  using assms
proof (induction headers)
  case Nil
  show ?case using getline_stream [of "[CR]" rest] by (simp add: skip_headers.simps)
next
  case (Cons h headers)
  let ?rest = "concat (map (\<lambda>h. h @ [CR, LF]) headers) @ CR # LF # rest"
  have "getline (stream_of ((h @ [CR]) @ LF # ?rest)) = (h @ [CR], stream_of ?rest)"
    by (rule getline_stream) (use Cons.prems in simp)
  then show ?case using Cons by (subst skip_headers.simps) simp
qed

lemma append_lines_exhausted:
  "is_eof s \<Longrightarrow> append_lines content s = (content, s\<lparr>is_fail := True\<rparr>)"
  by (simp add: append_lines.simps getline_def is_good_def)

lemma filter_line: "LF \<notin> set line \<Longrightarrow> filter (\<lambda>c. c \<noteq> LF) line = line"
  by (induction line) auto

text \<open>The lines are appended until the buffer is empty, so only the line feeds are lost.\<close>

lemma append_lines_stream:
  "\<exists>s'. append_lines content (stream_of chars) = (content @ filter (\<lambda>c. c \<noteq> LF) chars, s') \<and> is_buffer s' = []"
proof (induction "length chars" arbitrary: chars content rule: less_induct)
  case less
  show ?case
  proof (cases "LF \<in> set chars")
    case True
    then obtain line rest where chars: "chars = line @ LF # rest" "LF \<notin> set line"
      by (meson split_list_first)
    have step: "append_lines content (stream_of chars) = append_lines (content @ line) (stream_of rest)"
      by (subst append_lines.simps) (simp add: chars getline_stream)
    show ?thesis unfolding step using less [of rest "content @ line"] by (simp add: chars filter_line)
  next
    case False
    show ?thesis
    proof (cases "chars = []")
      case True
      then show ?thesis by (simp add: append_lines.simps getline_def is_good_def)
    next
      case nonempty: False
      have "append_lines content (stream_of chars) =
          append_lines (content @ chars) \<lparr>is_buffer = [], is_eof = True, is_fail = False\<rparr>"
        by (subst append_lines.simps) (simp add: getline_last [OF False nonempty])
      then show ?thesis using False by (simp add: append_lines_exhausted filter_line)
    qed
  qed
qed

lemma read_body_stream:
  "is_buffer s = [] \<Longrightarrow> read_body chunks content s = content @ filter (\<lambda>c. c \<noteq> LF) (concat chunks)"
proof (induction chunks arbitrary: content s)
  case (Cons chunk chunks)
  obtain s' where "append_lines content (stream_of chunk) = (content @ filter (\<lambda>c. c \<noteq> LF) chunk, s')"
    "is_buffer s' = []" using append_lines_stream by blast
  then show ?case using Cons by simp
qed simp

text \<open>The body as it reaches the parser: without line feeds, with spaces for the carriage returns.\<close>

definition cleaned_body :: "string \<Rightarrow> string" where
  "cleaned_body body = map (\<lambda>c. if c = CR then CHR '' '' else c) (filter (\<lambda>c. c \<noteq> LF) body)"

text \<open>What a response means, as a whole: its code and its body.\<close>

definition answer_of_response :: "'tree ptree_ops \<Rightarrow> nat \<Rightarrow> string \<Rightarrow> 'tree DeviceAnswer result" where
  "answer_of_response ops code body =
     (if requestResultFromCode (of_nat code) \<noteq> SUCCESS
      then Inr (DeviceAnswer_of ops (requestResultFromCode (of_nat code)))
      else case pt_read_json ops (cleaned_body body) of
          Inl e \<Rightarrow> Inl e
        | Inr tree \<Rightarrow>
            Inr (if verifyErrorCode ops tree then DeviceAnswer_with SUCCESS tree else DeviceAnswer_of ops SUCCESS))"

text \<open>
  That the pieces a socket gives are a response with a code and a body: a status line, header lines, an
  empty line and the body, where everything after the status line may be in any of the reads.
\<close>

definition response_pieces :: "http_exchange \<Rightarrow> nat \<Rightarrow> string \<Rightarrow> bool" where
  "response_pieces x code body \<longleftrightarrow>
     (\<exists>version message rest headerBytes headers start.
        hx_written x \<and> hx_eof x \<and> hx_headers x = Some headerBytes \<and>
        hx_status x = Some (''HTTP/'' @ version @ CHR '' '' # nat_to_string code @ CHR '' '' # message @ LF # rest) \<and>
        rest @ headerBytes = concat (map (\<lambda>h. h @ [CR, LF]) headers) @ CR # LF # start \<and>
        (\<forall>h \<in> set headers. h \<noteq> [] \<and> LF \<notin> set h) \<and> (\<forall>c \<in> set version. \<not> is_space c) \<and>
        code < 2 ^ 31 \<and> LF \<notin> set message \<and> body = start @ concat (hx_body x))"

lemma response_answer:
  assumes "response_pieces (socket (''GET '' @ path @ '' HTTP/1.0'' @ [CR, LF, CR, LF])) code body"
  shows "HttpGet_socket ops socket path = answer_of_response ops code body"
proof -
  obtain x where exchange: "socket (''GET '' @ path @ '' HTTP/1.0'' @ [CR, LF, CR, LF]) = x" by blast
  obtain version message rest headerBytes headers start where pieces: "hx_written x" "hx_eof x"
    "hx_headers x = Some headerBytes"
    "hx_status x = Some (''HTTP/'' @ version @ CHR '' '' # nat_to_string code @ CHR '' '' # message @ LF # rest)"
    and split: "rest @ headerBytes = concat (map (\<lambda>h. h @ [CR, LF]) headers) @ CR # LF # start"
    and lines: "\<forall>h \<in> set headers. h \<noteq> [] \<and> LF \<notin> set h"
    and version: "\<forall>c \<in> set version. \<not> is_space c" and code: "code < 2 ^ 31" and message: "LF \<notin> set message"
    and body: "body = start @ concat (hx_body x)"
    using assms unfolding exchange response_pieces_def by blast
  have space: "is_space CHR '' ''" "\<not> is_digit CHR '' ''" "CHR '' '' \<noteq> LF"
    by (simp_all add: is_space_def is_digit_def LF_def)
  have word: "\<forall>c \<in> set (''HTTP/'' @ version). \<not> is_space c"
    using version by (auto simp: is_space_def)
  have token: "read_token (stream_of (''HTTP/'' @ version @ CHR '' '' # nat_to_string code @ CHR '' '' # message @ LF # rest)) =
      (''HTTP/'' @ version, stream_of (CHR '' '' # nat_to_string code @ CHR '' '' # message @ LF # rest))"
    using read_token_stream [OF _ word space(1)] by simp
  note number = read_int_stream [OF code space(1,2), of "message @ LF # rest"]
  have line: "getline (stream_of (CHR '' '' # message @ LF # rest)) = (CHR '' '' # message, stream_of rest)"
    using getline_stream [of "CHR '' '' # message" rest] message space(3) by simp
  obtain s' where content: "append_lines [] (stream_of start) = (filter (\<lambda>c. c \<noteq> LF) start, s')" "is_buffer s' = []"
    using append_lines_stream [of "[]" start] by auto
  have "HttpGet_socket ops socket path =
      answer_of_content ops (int code) (filter (\<lambda>c. c \<noteq> LF) body)"
    unfolding HttpGet_socket_def HttpGet_request_def Let_def exchange pieces option.case token prod.case number line
      istream.simps
    by (simp add: split skip_headers_stream [OF lines] content read_body_stream pieces body)
  then show ?thesis
    by (simp add: answer_of_content_def answer_of_response_def cleaned_body_def Let_def bind_result_def
        split: sum.split)
qed

section \<open>Properties\<close>

lemma decoded_request:
  assumes "CHR ''?'' \<notin> set command" and "CHR ''&'' \<notin> set command"
    and "\<forall>(name, value) \<in> set parameters.
      CHR ''='' \<notin> set name \<and> CHR ''&'' \<notin> set name \<and> CHR ''&'' \<notin> set value"
  shows "decode_request (makeRequestFromParameters command parameters) = (''/cmd/'' @ command, parameters)"
proof (cases "parameters = []")
  case True
  have "last (''/cmd/'' @ command) \<noteq> CHR ''&''"
    using assms(2) by (cases "command = []") (simp_all, metis last_in_set)
  then show ?thesis
    using assms(1) True
    by (simp add: makeRequestFromParameters_def pop_back_if_def Let_def decode_request_def stop_at)
next
  case False
  let ?query = "butlast (concat (map (\<lambda>w. w @ ''&'') (map encode_entry parameters)))"
  have nonempty: "?query \<noteq> []"
    using False by (cases parameters) (auto simp: encode_entry_def butlast_append)
  have "split_on CHR ''&'' ?query = map encode_entry parameters"
    by (rule split_on_joined) (use False assms(3) in \<open>auto simp: encode_entry_def\<close>)
  moreover have "map decode_entry (map encode_entry parameters) = parameters"
    unfolding map_map by (rule map_idI) (use assms(3) in \<open>auto simp: decode_encode_entry\<close>)
  moreover have "makeRequestFromParameters command parameters = (''/cmd/'' @ command) @ CHR ''?'' # ?query"
    using makeRequestFromParameters_eq [OF False] by simp
  moreover have "CHR ''?'' \<notin> set (''/cmd/'' @ command)" using assms(1) by simp
  ultimately show ?thesis
    using nonempty by (simp only: decode_request_def Let_def stop_at list.sel if_False not_False_eq_True)
qed

lemma encoded_target_no_space:
  assumes "unreserved ''?&'' command" and "\<forall>(name, value) \<in> set parameters. unreserved ''=&'' name"
  shows "\<forall>c \<in> set (makeRequestFromParameters command (map (map_prod id encoreSpaceInUrl) parameters)). \<not> is_space c"
proof -
  have literal: "\<not> is_space CHR ''=''" "\<not> is_space CHR ''&''" "\<not> is_space CHR ''?''" "\<forall>c \<in> set ''/cmd/''. \<not> is_space c"
    by (simp_all add: is_space_def)
  let ?query = "concat (map (\<lambda>w. w @ ''&'') (map encode_entry (map (map_prod id encoreSpaceInUrl) parameters)))"
  have command: "\<forall>c \<in> set command. \<not> is_space c" using assms(1) by (simp add: unreserved_def)
  have "\<forall>c \<in> set (encode_entry (n, encoreSpaceInUrl v) @ ''&''). \<not> is_space c" if "(n, v) \<in> set parameters" for n v
    using assms(2) that literal(1,2) encore_no_space by (auto simp: encode_entry_def unreserved_def)
  then have "\<forall>c \<in> set ?query. \<not> is_space c"
    unfolding map_map comp_def by (intro all_concat ballI) (metis map_prod_simp id_apply surj_pair)
  then have query: "\<forall>c \<in> set (butlast ?query). \<not> is_space c" by (meson in_set_butlastD)
  show ?thesis
  proof (cases "parameters = []")
    case True
    have "set (pop_back_if CHR ''&'' (''/cmd/'' @ command)) \<subseteq> set (''/cmd/'' @ command)"
      by (auto simp: pop_back_if_def dest: in_set_butlastD)
    with True command literal(4) show ?thesis by (auto simp: makeRequestFromParameters_def Let_def)
  next
    case False
    then have "makeRequestFromParameters command (map (map_prod id encoreSpaceInUrl) parameters) =
        ''/cmd/'' @ command @ ''?'' @ butlast ?query" by (intro makeRequestFromParameters_eq) simp
    then show ?thesis unfolding \<open>makeRequestFromParameters command _ = _\<close>
      using command literal(3,4) query by (simp only: set_append ball_Un) simp
  qed
qed

text \<open>
  C31: A receiver recovers a request. The text that is written for a command and parameters, their values
  encoded by \<open>encoreSpaceInUrl\<close> (which keeps a value without white space), is a request line
  with GET, one target and HTTP/1.0, an empty line and nothing else, and the target decodes to the command
  and to every parameter with its value, in the order in which the map was visited, with a space for every
  white-space character: whenever the command has no white space, no percent sign, no question mark and no
  ampersand, the names no white space, percent sign, equals sign or ampersand, and the values neither
  percent sign nor ampersand.
\<close>

theorem request_round_trip:
  assumes "unreserved ''?&'' command"
    and "\<forall>(name, value) \<in> set parameters. unreserved ''=&'' name \<and> CHR ''%'' \<notin> set value \<and> CHR ''&'' \<notin> set value"
  shows "receive_request (HttpGet_request
      (makeRequestFromParameters command (map (map_prod id encoreSpaceInUrl) parameters))) =
    Some (''/cmd/'' @ command, map (map_prod id (map (\<lambda>c. if is_space c then CHR '' '' else c))) parameters)"
proof -
  let ?sent = "map (map_prod id encoreSpaceInUrl) parameters"
  have target: "\<forall>c \<in> set (makeRequestFromParameters command ?sent). \<not> is_space c"
    by (rule encoded_target_no_space) (use assms in auto)
  have "\<not> is_space CHR ''&''" by (simp add: is_space_def)
  then have "CHR ''&'' \<notin> set (encoreSpaceInUrl v)" if "CHR ''&'' \<notin> set v" for v
    using encore_plain [of "CHR ''&''" v] that by auto
  note no_ampersand = this
  have entry: "CHR ''='' \<notin> set n \<and> CHR ''&'' \<notin> set n \<and> url_decode n = n \<and> CHR ''&'' \<notin> set v \<and>
      url_decode (encoreSpaceInUrl v) = map (\<lambda>c. if is_space c then CHR '' '' else c) v"
    if "(n, v) \<in> set parameters" for n v
  proof -
    have ok: "unreserved ''=&'' n" "CHR ''%'' \<notin> set v" "CHR ''&'' \<notin> set v" using assms(2) that by auto
    then show ?thesis
      using unreservedD(1) [OF ok(1), of "CHR ''=''"] unreservedD(1) [OF ok(1), of "CHR ''&''"] unreservedD(2) [OF ok(1)]
      by (simp add: url_decode_id url_decode_encore)
  qed
  then have "\<forall>(name, value) \<in> set ?sent. CHR ''='' \<notin> set name \<and> CHR ''&'' \<notin> set name \<and> CHR ''&'' \<notin> set value"
    using no_ampersand by auto
  moreover have "CHR ''?'' \<notin> set command" "CHR ''&'' \<notin> set command" "CHR ''%'' \<notin> set (''/cmd/'' @ command)"
    using unreservedD(1) [OF assms(1), of "CHR ''?''"] unreservedD(1) [OF assms(1), of "CHR ''&''"]
      unreservedD(2) [OF assms(1)] by simp_all
  ultimately have "decode_request (makeRequestFromParameters command ?sent) = (''/cmd/'' @ command, ?sent)"
    and "url_decode (''/cmd/'' @ command) = ''/cmd/'' @ command"
    using decoded_request url_decode_id by blast+
  moreover have "map (map_prod url_decode url_decode) ?sent =
      map (map_prod id (map (\<lambda>c. if is_space c then CHR '' '' else c))) parameters"
    using entry by auto
  ultimately show ?thesis by (simp only: request_line [OF target] Let_def prod.case)
qed

theorem request_round_trip_witness:
  "receive_request (HttpGet_request (makeRequestFromParameters ''set_parameter''
      [(''hmi_static_text_1'', encoreSpaceInUrl ''a=b c''), (''x'', encoreSpaceInUrl [])])) =
    Some (''/cmd/set_parameter'', [(''hmi_static_text_1'', ''a=b c''), (''x'', [])])"
  using request_round_trip [of "''set_parameter''" "[(''hmi_static_text_1'', ''a=b c''), (''x'', [])]"]
  by (simp add: unreserved_def is_space_def)

text \<open>
  C8: A response with the status line of an HTTP version, a code and a message, header lines and a
  body gives the same answer however the network splits it into pieces: every part of it after the
  status line may arrive with the first, the second or any later read. A code other than 200 gives
  its result and an empty tree; otherwise the body goes to the JSON parser without its line feeds.
\<close>

theorem http_answer_any_split:
  assumes "socket (''GET '' @ path @ '' HTTP/1.0'' @ [CR, LF, CR, LF]) =
      \<lparr>hx_written = True, hx_status = Some (''HTTP/'' @ version @ CHR '' '' # nat_to_string code @ CHR '' '' # message @ LF # rest),
       hx_headers = Some headerBytes, hx_body = chunks, hx_eof = True\<rparr>"
    and "rest @ headerBytes = concat (map (\<lambda>h. h @ [CR, LF]) headers) @ CR # LF # start"
    and "\<forall>h \<in> set headers. h \<noteq> [] \<and> LF \<notin> set h"
    and "\<forall>c \<in> set version. \<not> is_space c" and "code < 2 ^ 31" and "LF \<notin> set message"
  shows "HttpGet_socket ops socket path = answer_of_response ops code (start @ concat chunks)"
proof (rule response_answer)
  show "response_pieces (socket (''GET '' @ path @ '' HTTP/1.0'' @ [CR, LF, CR, LF])) code (start @ concat chunks)"
    unfolding response_pieces_def assms(1) using assms(2-)
    by (intro exI [of _ version] exI [of _ message] exI [of _ rest] exI [of _ headerBytes] exI [of _ headers]
        exI [of _ start]) simp
qed

text \<open>The answer of a device that reports no error: its body holds one line feed and arrives in two pieces.\<close>

definition example_ptree_ops :: "string ptree_ops" where
  "example_ptree_ops =
     \<lparr>pt_empty = [], pt_read_json = (\<lambda>json. if json = [] then Inl (Json_Parser_Error []) else Inr json),
      pt_get_optional_string = (\<lambda>_ path. if path = ERROR_TEXT then Some ''success'' else None),
      pt_get_optional_int = (\<lambda>_ path. if path = ERROR_CODE then Some 0 else None),
      pt_get_string = (\<lambda>_ path. if path = ''handle'' then Inr ''h7'' else Inl (Ptree_Bad_Path path)),
      pt_get_int = (\<lambda>_ path. Inl (Ptree_Bad_Path path)),
      pt_get_child_optional = (\<lambda>_ _. None), pt_children = (\<lambda>_. [])\<rparr>"

definition example_exchange :: http_exchange where
  "example_exchange =
     \<lparr>hx_written = True,
      hx_status = Some (''HTTP/'' @ ''1.0'' @ CHR '' '' # nat_to_string 200 @ CHR '' '' # ''OK'' @ LF # ''Ser''),
      hx_headers = Some (''ver: x'' @ [CR, LF, CR, LF] @ ''{''), hx_body = [[LF], ''}''], hx_eof = True\<rparr>"

lemma example_exchange_response: "response_pieces example_exchange 200 [CHR ''{'', LF, CHR ''}'']"
  unfolding response_pieces_def
  by (intro exI [of _ "''1.0''"] exI [of _ "''OK''"] exI [of _ "''Ser''"]
      exI [of _ "''ver: x'' @ [CR, LF, CR, LF] @ ''{''"] exI [of _ "[''Server: x'']"] exI [of _ "''{''"])
    (simp add: example_exchange_def LF_def is_space_def)

lemma example_answer:
  "HttpGet_socket example_ptree_ops (\<lambda>_. example_exchange) path = Inr (DeviceAnswer_with SUCCESS ''{}'')"
  unfolding response_answer [where socket = "\<lambda>_. example_exchange", OF example_exchange_response]
  by (simp add: answer_of_response_def cleaned_body_def example_ptree_ops_def verifyErrorCode_def LF_def CR_def)

theorem http_answer_any_split_witness:
  "HttpGet_socket example_ptree_ops (\<lambda>_. example_exchange) ''/cmd/x''
     = Inr (DeviceAnswer_with SUCCESS ''{}'')"
proof -
  have "HttpGet_socket example_ptree_ops (\<lambda>_. example_exchange) ''/cmd/x'' =
      answer_of_response example_ptree_ops 200 (''{'' @ concat [[LF], ''}''])"
    by (rule http_answer_any_split [where headers = "[''Server: x'']" and version = "''1.0''"
          and message = "''OK''" and rest = "''Ser''" and headerBytes = "''ver: x'' @ [CR, LF, CR, LF] @ ''{''"])
      (simp_all add: example_exchange_def LF_def is_space_def)
  then show ?thesis
    by (simp add: answer_of_response_def cleaned_body_def example_ptree_ops_def verifyErrorCode_def LF_def CR_def)
qed

end
