(* ===== verification/Socket_Guard.thy ===== *)
theory Socket_Guard
  imports Http_Request
begin

text \<open>
  The socket of a blocking command: the guard that closes it on every path (\<open>SocketGuard\<close> of
  \<open>include/R2000.hpp\<close>) and the loop of \<open>R2000::HttpGet\<close> over the endpoints of the device, with every
  operation on the socket recorded in order. Forgetting them gives \<open>HttpGet\<close> of \<open>Http_Request\<close>.
\<close>

section \<open>The guard and the loop over the endpoints\<close>

datatype 'ep socket_event = Shutdown | Close | Connect_To 'ep | Exchange

definition SocketGuard_destroy :: "'ep socket_event list \<Rightarrow> 'ep socket_event list" where
  "SocketGuard_destroy events = events @ [Shutdown, Close]"

text \<open>One turn of the loop per endpoint, with the error of the last connection and its endpoint.\<close>

fun connect_loop ::
  "('ep \<Rightarrow> error_code) \<Rightarrow> 'ep list \<Rightarrow> error_code \<Rightarrow> 'ep option \<Rightarrow> 'ep socket_event list
   \<Rightarrow> error_code \<times> 'ep option \<times> 'ep socket_event list" where
  "connect_loop connect [] error connected events = (error, connected, events)"
| "connect_loop connect (endpoint # endpoints) error connected events =
     (if error = No_Error then (error, connected, events)
      else connect_loop connect endpoints (connect endpoint) (Some endpoint)
             (events @ [Shutdown, Close, Connect_To endpoint]))"

text \<open>
  The guard is constructed after the resolution, so a resolution that throws has no socket to close; an
  exception of the exchange unwinds through it.
\<close>

definition HttpGet_guarded ::
  "'tree ptree_ops \<Rightarrow> 'ep network \<Rightarrow> DeviceConfiguration \<Rightarrow> string
   \<Rightarrow> 'ep socket_event list \<times> 'tree DeviceAnswer result" where
  "HttpGet_guarded ops net configuration requestPath =
     (case nw_resolve net (getDeviceQuery configuration) of
        Inl e \<Rightarrow> ([], Inl e)
      | Inr endpoints \<Rightarrow>
          (case connect_loop (nw_connect net) endpoints Network_Error None [] of
             (No_Error, Some endpoint, events) \<Rightarrow>
               (SocketGuard_destroy (events @ [Exchange]), HttpGet_socket ops (nw_socket net endpoint) requestPath)
           | (_, _, events) \<Rightarrow> (SocketGuard_destroy events, Inr (DeviceAnswer_of ops FAILED))))"

section \<open>What a socket allows\<close>

text \<open>
  Whether the socket is open after some operations, starting from whether it is before: it is connected
  only when it is closed, and used only when it is open.
\<close>

fun socket_open :: "bool \<Rightarrow> 'ep socket_event list \<Rightarrow> bool option" where
  "socket_open opened [] = Some opened"
| "socket_open opened (Shutdown # events) = socket_open opened events"
| "socket_open opened (Close # events) = socket_open False events"
| "socket_open opened (Connect_To _ # events) = (if opened then None else socket_open True events)"
| "socket_open opened (Exchange # events) = (if opened then socket_open opened events else None)"

lemma socket_open_append:
  "socket_open opened (before @ after) = Option.bind (socket_open opened before) (\<lambda>o1. socket_open o1 after)"
  by (induction opened before rule: socket_open.induct) simp_all

text \<open>The endpoints that are tried: all up to the first that accepts.\<close>

fun tried :: "('ep \<Rightarrow> error_code) \<Rightarrow> 'ep list \<Rightarrow> 'ep list" where
  "tried connect [] = []"
| "tried connect (endpoint # endpoints) =
     (if connect endpoint = No_Error then [endpoint] else endpoint # tried connect endpoints)"

fun connections :: "'ep socket_event list \<Rightarrow> 'ep list" where
  "connections [] = []"
| "connections (Connect_To endpoint # events) = endpoint # connections events"
| "connections (_ # events) = connections events"

lemma connections_append [simp]: "connections (before @ after) = connections before @ connections after"
  by (induction before rule: connections.induct) simp_all

lemma connect_loop_stops: "connect_loop connect endpoints No_Error connected events = (No_Error, connected, events)"
  by (cases endpoints) simp_all

lemma connect_loop_result:
  assumes "error \<noteq> No_Error"
  shows "case connect_loop connect endpoints error connected events of (error', connected', events') \<Rightarrow>
    (error' = No_Error \<longrightarrow> connected' \<noteq> None) \<and>
    connect_first connect endpoints = (if error' = No_Error then connected' else None)"
  using assms
  by (induction connect endpoints error connected events rule: connect_loop.induct)
    (auto simp: connect_loop_stops split: prod.splits if_splits)

lemma connect_loop_events:
  assumes "error \<noteq> No_Error" and "socket_open False events \<noteq> None"
  shows "case connect_loop connect endpoints error connected events of (error', connected', events') \<Rightarrow>
    socket_open False events' \<noteq> None \<and> (error' = No_Error \<longrightarrow> socket_open False events' = Some True) \<and>
    connections events' = connections events @ tried connect endpoints"
  using assms
proof (induction endpoints arbitrary: error connected events)
  case (Cons endpoint endpoints)
  let ?events = "events @ [Shutdown, Close, Connect_To endpoint]"
  have opened: "socket_open False ?events = Some True"
    using Cons.prems(2) by (auto simp: socket_open_append)
  show ?case
  proof (cases "connect endpoint = No_Error")
    case True
    then show ?thesis using Cons.prems(1) opened by (auto simp: connect_loop_stops)
  next
    case False
    then show ?thesis using Cons.prems(1) opened Cons.IH [of "connect endpoint" ?events "Some endpoint"] by simp
  qed
qed simp

section \<open>Properties\<close>

text \<open>
  C38: A blocking request leaves its socket closed on every path, exceptions included; it connects it only
  when it is closed, uses it only when it is open, and tries the endpoints of the device in order up
  to the first that accepts. Without these operations it is \<open>HttpGet\<close>.
\<close>

theorem blocking_socket_closed:
  "socket_open False (fst (HttpGet_guarded ops net configuration requestPath)) = Some False \<and>
   connections (fst (HttpGet_guarded ops net configuration requestPath)) =
     (case nw_resolve net (getDeviceQuery configuration) of
        Inl _ \<Rightarrow> [] | Inr endpoints \<Rightarrow> tried (nw_connect net) endpoints) \<and>
   snd (HttpGet_guarded ops net configuration requestPath) = HttpGet ops net configuration requestPath"
proof (cases "nw_resolve net (getDeviceQuery configuration)")
  case (Inr endpoints)
  obtain error connected events
    where loop: "connect_loop (nw_connect net) endpoints Network_Error None [] = (error, connected, events)"
    using prod_cases3 by blast
  have "error = No_Error \<longrightarrow> connected \<noteq> None"
    "connect_first (nw_connect net) endpoints = (if error = No_Error then connected else None)"
    using connect_loop_result [of Network_Error "nw_connect net" endpoints None "[]"] by (simp_all add: loop)
  moreover have "socket_open False events \<noteq> None" "error = No_Error \<longrightarrow> socket_open False events = Some True"
    "connections events = tried (nw_connect net) endpoints"
    using connect_loop_events [of Network_Error "[]" "nw_connect net" endpoints None] by (simp_all add: loop)
  ultimately show ?thesis
    using Inr
    by (cases error)
      (auto simp: HttpGet_guarded_def HttpGet_def loop SocketGuard_destroy_def socket_open_append)
qed (simp add: HttpGet_guarded_def HttpGet_def)

end
