(* ===== verification/Command_Answers.thy ===== *)
theory Command_Answers
  imports Http_Request
begin

text \<open>
  What the commands of \<open>include/Control/Commands.hpp\<close> compute from their arguments and from the answer of
  the device, without the exchange itself: the chaining of parameters and the extraction of values from
  a property tree.
\<close>

section \<open>Chaining parameters\<close>

text \<open>The builders are given by the parameters their \<open>build\<close> returns.\<close>

fun ParametersChaining_list :: "ParametersList list \<Rightarrow> ParametersList \<Rightarrow> ParametersList" where
  "ParametersChaining_list [] parameters = parameters"
| "ParametersChaining_list (built # rest) parameters = ParametersChaining_list rest (parameters @ built)"

fun ParametersChaining_map :: "ParametersMap list \<Rightarrow> ParametersMap \<Rightarrow> ParametersMap" where
  "ParametersChaining_map [] parameters = parameters"
| "ParametersChaining_map (built # rest) parameters =
     ParametersChaining_map rest (pm_insert_range built parameters)"

text \<open>\<open>pop_back\<close> of an empty string is undefined: there must be a parameter.\<close>

definition chainAndConvertParametersToString :: "ParametersList list \<Rightarrow> (string \<times> ParametersList) result" where
  "chainAndConvertParametersToString builders =
     (let parameters = ParametersChaining_list builders [];
          parametersAsString = fold (\<lambda>names s. s @ names @ '';'') parameters []
      in if parametersAsString = [] then Inl Undefined_Behaviour
         else Inr (butlast parametersAsString, parameters))"

section \<open>Extraction from a property tree\<close>

text \<open>The values of the children of a node, without the empty ones.\<close>

definition child_values :: "'tree ptree_ops \<Rightarrow> 'tree \<Rightarrow> ParametersList result" where
  "child_values ops node =
     fold_result (\<lambda>(key, child) names.
         bind_result (pt_get_string ops child []) (\<lambda>name.
           Inr (if name = [] then names else names @ [name])))
       (pt_children ops node) []"

definition extractInfoFromPropertyTree ::
  "'tree ptree_ops \<Rightarrow> 'tree \<Rightarrow> (ParametersMap \<times> ParametersList) result" where
  "extractInfoFromPropertyTree ops tree =
     (case (pt_get_child_optional ops tree PARAMETER_AVAILABLE_COMMANDS,
            pt_get_optional_string ops tree PARAMETER_PROTOCOL_NAME,
            pt_get_optional_string ops tree PARAMETER_PROTOCOL_VERSION_MAJOR,
            pt_get_optional_string ops tree PARAMETER_PROTOCOL_VERSION_MINOR) of
        (Some commands, Some protocolName, Some protocolVersionMajor, Some protocolVersionMinor) \<Rightarrow>
          bind_result (child_values ops commands) (\<lambda>availableCommands.
            let info1 = pm_insert (PARAMETER_PROTOCOL_NAME, protocolName) [];
                info2 = pm_insert (PARAMETER_PROTOCOL_VERSION_MAJOR, protocolVersionMajor) info1;
                info3 = pm_insert (PARAMETER_PROTOCOL_VERSION_MINOR, protocolVersionMinor) info2
            in Inr (info3, availableCommands))
      | _ \<Rightarrow> Inr ([], []))"

definition extractParametersFromPropertyTree :: "'tree ptree_ops \<Rightarrow> 'tree \<Rightarrow> ParametersList result" where
  "extractParametersFromPropertyTree ops tree =
     (case pt_get_child_optional ops tree ''parameters'' of
        None \<Rightarrow> Inr []
      | Some node \<Rightarrow> child_values ops node)"

definition extractParametersValues :: "'tree ptree_ops \<Rightarrow> ParametersList \<Rightarrow> 'tree \<Rightarrow> ParametersMap" where
  "extractParametersValues ops names tree =
     fold (\<lambda>name keysValues.
         case pt_get_optional_string ops tree name of
           None \<Rightarrow> pm_insert (name, []) keysValues
         | Some value \<Rightarrow> pm_insert (name, value) keysValues)
       names []"

definition extractTcpHandleInfo :: "'tree ptree_ops \<Rightarrow> 'tree \<Rightarrow> (int \<times> string) result" where
  "extractTcpHandleInfo ops tree =
     bind_result (pt_get_int ops tree ''port'') (\<lambda>port.
     bind_result (pt_get_string ops tree ''handle'') (\<lambda>handle. Inr (port, handle)))"

definition extractUdpHandleInfo :: "'tree ptree_ops \<Rightarrow> 'tree \<Rightarrow> string result" where
  "extractUdpHandleInfo ops tree = pt_get_string ops tree ''handle''"

text \<open>The loop returns at the first child whose value is not the path of a value.\<close>

fun scanOutputConfig_loop ::
  "'tree ptree_ops \<Rightarrow> 'tree \<Rightarrow> (string \<times> 'tree) list \<Rightarrow> ParametersMap \<Rightarrow> ParametersMap result" where
  "scanOutputConfig_loop ops tree [] config = Inr config"
| "scanOutputConfig_loop ops tree ((key, child) # children) config =
     bind_result (pt_get_string ops child []) (\<lambda>parameterName.
       case pt_get_optional_string ops tree parameterName of
         None \<Rightarrow> Inr config
       | Some value \<Rightarrow> scanOutputConfig_loop ops tree children (pm_insert (parameterName, value) config))"

definition getScanOutputConfig :: "'tree ptree_ops \<Rightarrow> 'tree \<Rightarrow> ParametersMap result" where
  "getScanOutputConfig ops tree = scanOutputConfig_loop ops tree (pt_children ops tree) []"

text \<open>The version number is computed in \<open>unsigned long\<close>.\<close>

definition protocolVersionFromString :: "string \<Rightarrow> string \<Rightarrow> PFSDP result" where
  "protocolVersionFromString major minor =
     bind_result (stoul major) (\<lambda>numericMajor.
     bind_result (stoul minor) (\<lambda>numericMinor.
       let numericVersion = numericMajor * 100 + numericMinor
       in Inr (if numericVersion = ucast (PFSDP_value PFSDP_V100) then PFSDP_V100
               else if numericVersion = ucast (PFSDP_value PFSDP_V101) then PFSDP_V101
               else if numericVersion = ucast (PFSDP_value PFSDP_V102) then PFSDP_V102
               else if numericVersion = ucast (PFSDP_value PFSDP_V103) then PFSDP_V103
               else if numericVersion = ucast (PFSDP_value PFSDP_V104) then PFSDP_V104
               else if numericVersion > ucast (PFSDP_value PFSDP_V104) then PFSDP_ABOVE_V104
               else PFSDP_UNKNOWN)))"

section \<open>Lemmas\<close>

lemma ParametersChaining_list_concat: "ParametersChaining_list builders ps = ps @ concat builders"
  by (induction builders arbitrary: ps) simp_all

lemma ParametersChaining_map_lookup:
  "map_of (ParametersChaining_map builders ps) = fold (\<lambda>built m. map_of built ++ m) builders (map_of ps)"
  by (induction builders arbitrary: ps) (simp_all add: map_of_pm_insert_range)

lemma chained_names: "fold (\<lambda>names s. s @ names @ '';'') ns r = r @ concat (map (\<lambda>n. n @ '';'') ns)"
  by (induction ns arbitrary: r) simp_all

lemma extractParametersValues_lookup:
  "map_of (extractParametersValues ops names tree) k =
     (if k \<in> set names
      then Some (case pt_get_optional_string ops tree k of None \<Rightarrow> [] | Some v \<Rightarrow> v) else None)"
proof -
  let ?v = "\<lambda>k. case pt_get_optional_string ops tree k of None \<Rightarrow> [] | Some v \<Rightarrow> v"
  have "map_of (fold (\<lambda>name m. pm_insert (name, ?v name) m) names m) k =
      (case map_of m k of None \<Rightarrow> if k \<in> set names then Some (?v k) else None | Some w \<Rightarrow> Some w)" for m
    by (induction names arbitrary: m) (auto simp: map_of_pm_insert split: option.split)
  moreover have "(\<lambda>name keysValues. case pt_get_optional_string ops tree name of
           None \<Rightarrow> pm_insert (name, []) keysValues | Some value \<Rightarrow> pm_insert (name, value) keysValues)
      = (\<lambda>name m. pm_insert (name, ?v name) m)"
    by (intro ext) (simp split: option.split)
  ultimately show ?thesis by (simp add: extractParametersValues_def)
qed

lemma extractParametersValues_distinct: "pm_distinct (extractParametersValues ops names tree)"
proof -
  have "pm_distinct m \<Longrightarrow> pm_distinct (fold (\<lambda>name keysValues. case pt_get_optional_string ops tree name of
      None \<Rightarrow> pm_insert (name, []) keysValues | Some value \<Rightarrow> pm_insert (name, value) keysValues) names m)" for m
    by (induction names arbitrary: m) (auto split: option.split)
  then show ?thesis by (simp add: extractParametersValues_def pm_distinct_def)
qed

end
