(* ===== verification/Job_Worker.thy ===== *)
theory Job_Worker
  imports Prelude
begin

text \<open>
  The worker (\<open>include/Worker.hpp\<close>): a queue of jobs run one after the other by a task of its own. A job
  is its identity; the jobs run are recorded in order.
\<close>

section \<open>Contract\<close>

text \<open>What the users of a worker rely on: an accepted job is queued last, a refused one changes nothing.\<close>

locale job_queue =
  fixes push :: "'j \<Rightarrow> 'q \<Rightarrow> 'q \<times> bool"
    and accepted :: "'q \<Rightarrow> 'j list"
  assumes push_accepted: "push j q = (q', True) \<Longrightarrow> accepted q' = accepted q @ [j]"
    and push_refused: "push j q = (q', False) \<Longrightarrow> q' = q"
begin

fun push_all :: "'j list \<Rightarrow> 'q \<Rightarrow> 'q \<times> 'j list" where
  "push_all [] q = (q, [])"
| "push_all (j # js) q =
     (let (q1, ok) = push j q; (q2, taken) = push_all js q1
      in (q2, if ok then j # taken else taken))"

lemma accepted_push_all: "push_all js q = (q', taken) \<Longrightarrow> accepted q' = accepted q @ taken"
proof (induction js arbitrary: q q' taken)
  case (Cons j js)
  obtain q1 ok where p: "push j q = (q1, ok)" by (cases "push j q")
  obtain q2 t where r: "push_all js q1 = (q2, t)" by (cases "push_all js q1")
  have "accepted q2 = accepted q1 @ t" using Cons.IH [OF r] .
  then show ?case using Cons.prems p r push_accepted [of j q q1] push_refused [of j q q1] by (cases ok) auto
qed simp

end

section \<open>The worker\<close>

text \<open>
  \<open>wk_localJobQueue\<close> is the batch being run. \<open>wk_finished\<close>: the task has returned.
\<close>

record 'j Worker =
  wk_jobs :: "'j list"
  wk_localJobQueue :: "'j list"
  wk_interruptFlag :: bool
  wk_maxJob :: u32
  wk_finished :: bool
  wk_executed :: "'j list"

definition Worker_new :: "u32 \<Rightarrow> 'j Worker" where
  "Worker_new maxNumberOfJob =
     \<lparr>wk_jobs = [], wk_localJobQueue = [], wk_interruptFlag = False, wk_maxJob = maxNumberOfJob,
      wk_finished = False, wk_executed = []\<rparr>"

definition pushJob :: "'j \<Rightarrow> 'j Worker \<Rightarrow> 'j Worker \<times> bool" where
  "pushJob job w =
     (if length (wk_jobs w) \<le> unat (wk_maxJob w) then (w\<lparr>wk_jobs := wk_jobs w @ [job]\<rparr>, True)
      else (w, False))"

text \<open>
  A step of the task: run the next job of the batch; at the end of a batch, leave when interrupted and
  otherwise take over the queue once it has jobs.
\<close>

definition Worker_task_step :: "'j Worker \<Rightarrow> 'j Worker" where
  "Worker_task_step w =
     (if wk_finished w then w
      else case wk_localJobQueue w of
          job # rest \<Rightarrow> w\<lparr>wk_executed := wk_executed w @ [job], wk_localJobQueue := rest\<rparr>
        | [] \<Rightarrow> (if wk_interruptFlag w then w\<lparr>wk_finished := True\<rparr>
                else if wk_jobs w \<noteq> [] then w\<lparr>wk_localJobQueue := wk_jobs w, wk_jobs := []\<rparr>
                else w))"

text \<open>
  The destructor sets the flag, waits for the task, which finishes its batch first, and drops the jobs
  still queued.
\<close>

definition Worker_destroy :: "'j Worker \<Rightarrow> 'j Worker" where
  "Worker_destroy w =
     (if \<not> wk_interruptFlag w
      then w\<lparr>wk_interruptFlag := True, wk_executed := wk_executed w @ wk_localJobQueue w,
             wk_localJobQueue := [], wk_finished := True, wk_jobs := []\<rparr>
      else w)"

definition Worker_accepted :: "'j Worker \<Rightarrow> 'j list" where
  "Worker_accepted w = wk_executed w @ wk_localJobQueue w @ wk_jobs w"

interpretation worker_queue: job_queue pushJob Worker_accepted
  by unfold_locales (auto simp: pushJob_def Worker_accepted_def split: if_splits)

lemma Worker_task_step_accepted [simp]: "Worker_accepted (Worker_task_step w) = Worker_accepted w"
  by (simp add: Worker_task_step_def Worker_accepted_def split: list.split)

section \<open>Histories\<close>

datatype 'j worker_action = Push 'j | Task_Step

fun Worker_act :: "'j worker_action \<Rightarrow> 'j Worker \<Rightarrow> 'j Worker" where
  "Worker_act (Push job) w = fst (pushJob job w)"
| "Worker_act Task_Step w = Worker_task_step w"

text \<open>The jobs of a history that \<open>pushJob\<close> reported as queued.\<close>

fun Worker_queued :: "'j worker_action list \<Rightarrow> 'j Worker \<Rightarrow> 'j list" where
  "Worker_queued [] w = []"
| "Worker_queued (Push job # actions) w =
     (if snd (pushJob job w) then [job] else []) @ Worker_queued actions (fst (pushJob job w))"
| "Worker_queued (Task_Step # actions) w = Worker_queued actions (Worker_task_step w)"

lemma Worker_accepted_history:
  "Worker_accepted (fold Worker_act actions w) = Worker_accepted w @ Worker_queued actions w"
proof (induction actions w rule: Worker_queued.induct)
  case (2 job actions w)
  obtain w1 ok where p: "pushJob job w = (w1, ok)" by (cases "pushJob job w")
  then show ?case
    using 2 worker_queue.push_accepted [of job w w1] worker_queue.push_refused [of job w w1] by (cases ok) auto
qed simp_all

lemma Worker_act_interruptFlag [simp]: "wk_interruptFlag (Worker_act a w) = wk_interruptFlag w"
  by (cases a) (simp_all add: pushJob_def Worker_task_step_def split: list.split)

lemma Worker_history_interruptFlag [simp]:
  "wk_interruptFlag (fold Worker_act actions w) = wk_interruptFlag w"
  by (induction actions arbitrary: w) simp_all

lemma Worker_jobs_bound:
  assumes "length (wk_jobs w) \<le> Suc (unat (wk_maxJob w))"
  shows "length (wk_jobs (fold Worker_act actions w)) \<le> Suc (unat (wk_maxJob w)) \<and>
    wk_maxJob (fold Worker_act actions w) = wk_maxJob w"
  using assms
proof (induction actions arbitrary: w)
  case (Cons a actions)
  have "length (wk_jobs (Worker_act a w)) \<le> Suc (unat (wk_maxJob w)) \<and> wk_maxJob (Worker_act a w) = wk_maxJob w"
    using Cons.prems by (cases a) (auto simp: pushJob_def Worker_task_step_def split: list.split)
  then show ?case using Cons.IH [of "Worker_act a w"] by simp
qed simp

section \<open>Properties\<close>

text \<open>
  C22: In any interleaving of pushes and steps of the task, the jobs run, the batch in progress and the
  queue are together exactly the jobs reported as queued, in the order they were pushed: no job is lost,
  run twice or overtaken. Destroying the worker then runs the batch in progress and drops the queue.
\<close>

theorem worker_runs_jobs_in_order:
  "let w = fold Worker_act actions (Worker_new maxJob)
   in wk_executed w @ wk_localJobQueue w @ wk_jobs w = Worker_queued actions (Worker_new maxJob) \<and>
      wk_executed (Worker_destroy w) = wk_executed w @ wk_localJobQueue w \<and> wk_jobs (Worker_destroy w) = []"
  using Worker_accepted_history [of actions "Worker_new maxJob"]
  by (simp add: Let_def Worker_accepted_def Worker_new_def Worker_destroy_def)

text \<open>
  The queue of a worker never holds more than one job over the maximum given to its constructor, and
  \<open>pushJob\<close> refuses a job exactly when it holds that one job over the maximum.
\<close>

theorem worker_queue_bound:
  "let w = fold Worker_act actions (Worker_new maxJob)
   in length (wk_jobs w) \<le> unat maxJob + 1 \<and>
      (snd (pushJob job w) = False \<longleftrightarrow> length (wk_jobs w) = unat maxJob + 1)"
proof -
  have "length (wk_jobs (fold Worker_act actions (Worker_new maxJob))) \<le> Suc (unat maxJob) \<and>
      wk_maxJob (fold Worker_act actions (Worker_new maxJob)) = maxJob"
    using Worker_jobs_bound [of "Worker_new maxJob" actions] by (simp add: Worker_new_def)
  then show ?thesis by (auto simp: Let_def pushJob_def)
qed

end
