(* ===== verification/R2000_Client.thy ===== *)
theory R2000_Client
  imports Http_Request Job_Worker "HOL-Library.Multiset"
begin

text \<open>
  The asynchronous commands of the device client (\<open>Device::R2000\<close> of \<open>include/R2000.hpp\<close> and
  \<open>src/R2000.cpp\<close>): a job is pushed to the worker, whose task submits the resolution and the connection
  to the io service; the handlers run on the task of the io service and end by calling the callback.
  The completion of each operation is an input. The calls made are recorded in order.
\<close>

section \<open>State\<close>

text \<open>A job is a request with its callback, which is its identity, and its time-out in milliseconds.\<close>

record job =
  jb_request :: string
  jb_callable :: nat
  jb_timeout :: int

text \<open>
  An operation submitted to the io service: the resolution of the address of the device, or the
  connection to the first of the endpoints that accepts; and whether its cancellation was asked for.
\<close>

datatype 'ep operation =
    Resolve (op_job: job) (op_cancelled: bool)
  | Connect (op_job: job) (op_endpoints: "'ep list") (op_cancelled: bool)

text \<open>
  Where the task of the io service is: in \<open>run\<close>; returned from it and about to wait; waiting on the
  condition variable; or ended, by the destructor or by an exception of a handler.
\<close>

datatype io_task = Running | Returned | Waiting | Ended

record ('tree, 'ep) R2000 =
  r2_worker :: "job Worker"
  r2_deviceEndpoints :: "'ep list option"
  r2_operations :: "'ep operation list"
  r2_resolverDeadline :: int
  r2_socketDeadline :: int
  r2_interruptIoServiceTask :: bool
  r2_io :: io_task
  r2_calls :: "(job \<times> 'tree DeviceAnswer) list"

definition R2000_new :: "('tree, 'ep) R2000" where
  "R2000_new =
     \<lparr>r2_worker = Worker_new (- 1), r2_deviceEndpoints = None, r2_operations = [],
      r2_resolverDeadline = 0, r2_socketDeadline = 0, r2_interruptIoServiceTask = False,
      r2_io = Running, r2_calls = []\<rparr>"

section \<open>Cancellation and deadlines\<close>

fun cancel_resolve :: "'ep operation \<Rightarrow> 'ep operation" where
  "cancel_resolve (Resolve j _) = Resolve j True"
| "cancel_resolve (Connect j eps c) = Connect j eps c"

fun cancel_connect :: "'ep operation \<Rightarrow> 'ep operation" where
  "cancel_connect (Connect j eps _) = Connect j eps True"
| "cancel_connect (Resolve j c) = Resolve j c"

text \<open>\<open>asyncResolver.cancel()\<close>; closing \<open>asyncSocket\<close> cancels the connections in progress on it.\<close>

definition asyncResolver_cancel :: "('tree, 'ep) R2000 \<Rightarrow> ('tree, 'ep) R2000" where
  "asyncResolver_cancel r = r\<lparr>r2_operations := map cancel_resolve (r2_operations r)\<rparr>"

definition asyncSocket_close :: "('tree, 'ep) R2000 \<Rightarrow> ('tree, 'ep) R2000" where
  "asyncSocket_close r = r\<lparr>r2_operations := map cancel_connect (r2_operations r)\<rparr>"

definition cancelPendingCommands :: "('tree, 'ep) R2000 \<Rightarrow> ('tree, 'ep) R2000" where
  "cancelPendingCommands r = asyncSocket_close (asyncResolver_cancel r)"

definition scheduleNextEndpointResolutionDeadline :: "int \<Rightarrow> int \<Rightarrow> ('tree, 'ep) R2000 \<Rightarrow> ('tree, 'ep) R2000" where
  "scheduleNextEndpointResolutionDeadline now timeout r = r\<lparr>r2_resolverDeadline := now + timeout\<rparr>"

definition scheduleNextSocketConnectionDeadline :: "int \<Rightarrow> int \<Rightarrow> ('tree, 'ep) R2000 \<Rightarrow> ('tree, 'ep) R2000" where
  "scheduleNextSocketConnectionDeadline now timeout r = r\<lparr>r2_socketDeadline := now + timeout\<rparr>"

text \<open>
  The handlers of the two timers. They run when a timer expires and when its wait is cancelled, so
  they look at the expiry themselves.
\<close>

definition onEndpointResolutionDeadlineReached :: "int \<Rightarrow> ('tree, 'ep) R2000 \<Rightarrow> ('tree, 'ep) R2000" where
  "onEndpointResolutionDeadlineReached now r =
     (if r2_resolverDeadline r \<le> now then asyncResolver_cancel r else r)"

definition onSocketConnectionDeadlineReached :: "int \<Rightarrow> ('tree, 'ep) R2000 \<Rightarrow> ('tree, 'ep) R2000" where
  "onSocketConnectionDeadlineReached now r =
     (if r2_socketDeadline r \<le> now then asyncSocket_close r else r)"

section \<open>Handlers\<close>

text \<open>
  Calling the callback of a job. \<open>throws\<close> tells whether a callback throws on an answer; an exception
  that leaves a handler leaves \<open>io_service::run\<close> and ends its task.
\<close>

type_synonym 'tree callbacks = "nat \<Rightarrow> 'tree DeviceAnswer \<Rightarrow> bool"

definition invoke :: "job \<Rightarrow> 'tree DeviceAnswer \<Rightarrow> ('tree, 'ep) R2000 \<Rightarrow> ('tree, 'ep) R2000" where
  "invoke j answer r = r\<lparr>r2_calls := r2_calls r @ [(j, answer)]\<rparr>"

definition invoke_uncaught ::
  "'tree callbacks \<Rightarrow> job \<Rightarrow> 'tree DeviceAnswer \<Rightarrow> ('tree, 'ep) R2000 \<Rightarrow> ('tree, 'ep) R2000" where
  "invoke_uncaught throws j answer r =
     (if throws (jb_callable j) answer then (invoke j answer r)\<lparr>r2_io := Ended\<rparr> else invoke j answer r)"

definition onEndpointResolutionAttemptCompleted ::
  "'tree ptree_ops \<Rightarrow> 'tree callbacks \<Rightarrow> int \<Rightarrow> error_code \<Rightarrow> 'ep list \<Rightarrow> job
   \<Rightarrow> ('tree, 'ep) R2000 \<Rightarrow> ('tree, 'ep) R2000" where
  "onEndpointResolutionAttemptCompleted ops throws now error endpoints j r =
     (case error of
        No_Error \<Rightarrow>
          let r1 = asyncSocket_close r;
              r2 = r1\<lparr>r2_operations := r2_operations r1 @ [Connect j endpoints False]\<rparr>
          in scheduleNextSocketConnectionDeadline now (jb_timeout j) r2
      | Operation_Aborted \<Rightarrow> invoke_uncaught throws j (DeviceAnswer_of ops TIMEOUT) r
      | Network_Error \<Rightarrow> invoke_uncaught throws j (DeviceAnswer_of ops FAILED) r)"

text \<open>
  The exceptions of the exchange and of the callback are both caught, and the callback is then called
  with \<open>FAILED\<close>.
\<close>

definition onSocketConnectionAttemptCompleted ::
  "'tree ptree_ops \<Rightarrow> 'tree callbacks \<Rightarrow> error_code \<Rightarrow> (string \<Rightarrow> http_exchange) \<Rightarrow> job
   \<Rightarrow> ('tree, 'ep) R2000 \<Rightarrow> ('tree, 'ep) R2000" where
  "onSocketConnectionAttemptCompleted ops throws error socket j r =
     (case error of
        No_Error \<Rightarrow>
          (case HttpGet_socket ops socket (jb_request j) of
             Inl e \<Rightarrow> invoke_uncaught throws j (DeviceAnswer_of ops FAILED) r
           | Inr answer \<Rightarrow>
               let r1 = invoke j answer r
               in if throws (jb_callable j) answer
                  then invoke_uncaught throws j (DeviceAnswer_of ops FAILED) r1 else r1)
      | Operation_Aborted \<Rightarrow> invoke_uncaught throws j (DeviceAnswer_of ops TIMEOUT) r
      | Network_Error \<Rightarrow> invoke_uncaught throws j (DeviceAnswer_of ops FAILED) r)"

text \<open>The handler of the resolution keeps the endpoints it is given, also when it is given an error.\<close>

definition resolverHandler ::
  "'tree ptree_ops \<Rightarrow> 'tree callbacks \<Rightarrow> int \<Rightarrow> error_code \<Rightarrow> 'ep list \<Rightarrow> job
   \<Rightarrow> ('tree, 'ep) R2000 \<Rightarrow> ('tree, 'ep) R2000" where
  "resolverHandler ops throws now error queriedEndpoints j r =
     onEndpointResolutionAttemptCompleted ops throws now error queriedEndpoints j
       (r\<lparr>r2_deviceEndpoints := Some queriedEndpoints\<rparr>)"

section \<open>Submission\<close>

definition asyncSendHttpCommand ::
  "string \<Rightarrow> ParametersMap \<Rightarrow> nat \<Rightarrow> int \<Rightarrow> ('tree, 'ep) R2000 \<Rightarrow> ('tree, 'ep) R2000 \<times> bool" where
  "asyncSendHttpCommand command parameters callable timeout r =
     (let request = makeRequestFromParameters command parameters;
          (w, queued) = pushJob \<lparr>jb_request = request, jb_callable = callable, jb_timeout = timeout\<rparr> (r2_worker r)
      in (r\<lparr>r2_worker := w\<rparr>, queued))"

text \<open>A notification wakes the task of the io service when it waits, and is lost otherwise.\<close>

definition ioServiceTaskCv_notify_one :: "('tree, 'ep) R2000 \<Rightarrow> ('tree, 'ep) R2000" where
  "ioServiceTaskCv_notify_one r =
     (if r2_io r = Waiting
      then r\<lparr>r2_io := (if r2_interruptIoServiceTask r then Ended else Running)\<rparr> else r)"

definition asyncWorkerJob ::
  "'tree ptree_ops \<Rightarrow> 'tree callbacks \<Rightarrow> int \<Rightarrow> job \<Rightarrow> ('tree, 'ep) R2000 \<Rightarrow> ('tree, 'ep) R2000" where
  "asyncWorkerJob ops throws now j r =
     ioServiceTaskCv_notify_one
       (case r2_deviceEndpoints r of
          Some endpoints \<Rightarrow> onEndpointResolutionAttemptCompleted ops throws now No_Error endpoints j r
        | None \<Rightarrow>
            scheduleNextEndpointResolutionDeadline now (jb_timeout j)
              (r\<lparr>r2_operations := r2_operations r @ [Resolve j False]\<rparr>))"

text \<open>A step of the worker, with the job it runs.\<close>

definition R2000_worker_step ::
  "'tree ptree_ops \<Rightarrow> 'tree callbacks \<Rightarrow> int \<Rightarrow> ('tree, 'ep) R2000 \<Rightarrow> ('tree, 'ep) R2000" where
  "R2000_worker_step ops throws now r =
     (let r1 = r\<lparr>r2_worker := Worker_task_step (r2_worker r)\<rparr>
      in if wk_finished (r2_worker r) then r1
         else case wk_localJobQueue (r2_worker r) of
             [] \<Rightarrow> r1
           | j # _ \<Rightarrow> asyncWorkerJob ops throws now j r1)"

section \<open>The task of the io service\<close>

text \<open>
  \<open>run\<close> returns when no work is left; the waits of the timers that may delay it have no effect without
  an operation. The wait has no predicate.
\<close>

definition ioServiceTask_run_returns :: "('tree, 'ep) R2000 \<Rightarrow> ('tree, 'ep) R2000" where
  "ioServiceTask_run_returns r = (if r2_io r = Running \<and> r2_operations r = [] then r\<lparr>r2_io := Returned\<rparr> else r)"

definition ioServiceTask_wait :: "('tree, 'ep) R2000 \<Rightarrow> ('tree, 'ep) R2000" where
  "ioServiceTask_wait r = (if r2_io r = Returned then r\<lparr>r2_io := Waiting\<rparr> else r)"

section \<open>Destruction\<close>

text \<open>
  The destructor first cancels the operations, sets the flag and stops the service, which makes \<open>run\<close>
  return without calling the handlers of the operations left; then it notifies the task, and then it
  waits until the task has ended.
\<close>

definition R2000_destroy_stop :: "('tree, 'ep) R2000 \<Rightarrow> ('tree, 'ep) R2000" where
  "R2000_destroy_stop r =
     (let r1 = (cancelPendingCommands r)\<lparr>r2_interruptIoServiceTask := True\<rparr>
      in if r2_io r1 = Running then r1\<lparr>r2_io := Returned\<rparr> else r1)"

definition R2000_destroy_notify :: "('tree, 'ep) R2000 \<Rightarrow> ('tree, 'ep) R2000" where
  "R2000_destroy_notify r = ioServiceTaskCv_notify_one r"

section \<open>Executions\<close>

text \<open>
  The steps the client takes by itself. The completion of an operation carries its error and, where
  there is none, the endpoints found or what the connected socket does. A failed resolution gives no
  endpoint, a connection needs one to succeed, and only an operation that was cancelled is aborted:
  this is what Boost documents of the two. \<open>whole\<close> tells whether the exchange on a connected socket is
  one step with the completion of the connection.
\<close>

inductive R2000_client_step ::
  "'tree ptree_ops \<Rightarrow> 'tree callbacks \<Rightarrow> bool \<Rightarrow> ('tree, 'ep) R2000 \<Rightarrow> ('tree, 'ep) R2000 \<Rightarrow> bool"
  for ops throws whole where
  work: "R2000_client_step ops throws whole r (R2000_worker_step ops throws now r)"
| resolved: "r2_io r = Running \<Longrightarrow> r2_operations r = before @ Resolve j c # after \<Longrightarrow>
    (error \<noteq> No_Error \<Longrightarrow> endpoints = []) \<Longrightarrow> (error = Operation_Aborted \<Longrightarrow> c) \<Longrightarrow>
    R2000_client_step ops throws whole r
      (resolverHandler ops throws now error endpoints j (r\<lparr>r2_operations := before @ after\<rparr>))"
| connected: "r2_io r = Running \<Longrightarrow> r2_operations r = before @ Connect j endpoints c # after \<Longrightarrow>
    (endpoints = [] \<Longrightarrow> error \<noteq> No_Error) \<Longrightarrow> (error = Operation_Aborted \<Longrightarrow> c) \<Longrightarrow>
    (error = No_Error \<Longrightarrow> whole) \<Longrightarrow>
    R2000_client_step ops throws whole r
      (onSocketConnectionAttemptCompleted ops throws error socket j (r\<lparr>r2_operations := before @ after\<rparr>))"
| resolver_deadline: "r2_io r = Running \<Longrightarrow>
    R2000_client_step ops throws whole r (onEndpointResolutionDeadlineReached now r)"
| socket_deadline: "r2_io r = Running \<Longrightarrow>
    R2000_client_step ops throws whole r (onSocketConnectionDeadlineReached now r)"
| run_returns: "R2000_client_step ops throws whole r (ioServiceTask_run_returns r)"
| wait: "R2000_client_step ops throws whole r (ioServiceTask_wait r)"

text \<open>
  In what follows it is; \<open>Silent_Device\<close> takes the exchange in two steps and shows that the executions are
  the same.
\<close>

abbreviation R2000_step ::
  "'tree ptree_ops \<Rightarrow> 'tree callbacks \<Rightarrow> ('tree, 'ep) R2000 \<Rightarrow> ('tree, 'ep) R2000 \<Rightarrow> bool" where
  "R2000_step ops throws \<equiv> R2000_client_step ops throws True"

text \<open>An execution, with the jobs that were accepted in it.\<close>

inductive R2000_run ::
  "'tree ptree_ops \<Rightarrow> 'tree callbacks \<Rightarrow> job list \<Rightarrow> ('tree, 'ep) R2000 \<Rightarrow> bool"
  for ops throws where
  start: "R2000_run ops throws [] R2000_new"
| step: "R2000_run ops throws js r \<Longrightarrow> R2000_step ops throws r r' \<Longrightarrow> R2000_run ops throws js r'"
| cancel: "R2000_run ops throws js r \<Longrightarrow> R2000_run ops throws js (cancelPendingCommands r)"
| submit: "R2000_run ops throws js r \<Longrightarrow>
    asyncSendHttpCommand command parameters callable timeout r = (r', queued) \<Longrightarrow>
    R2000_run ops throws
      (if queued
       then js @ [\<lparr>jb_request = makeRequestFromParameters command parameters, jb_callable = callable,
                   jb_timeout = timeout\<rparr>]
       else js) r'"

section \<open>Every command is accounted for\<close>

definition pending_jobs :: "('tree, 'ep) R2000 \<Rightarrow> job multiset" where
  "pending_jobs r = mset (map op_job (r2_operations r))"

definition answered_jobs :: "('tree, 'ep) R2000 \<Rightarrow> job multiset" where
  "answered_jobs r = mset (map fst (r2_calls r))"

lemmas accounting = pending_jobs_def answered_jobs_def

lemmas submission_defs =
  asyncSocket_close_def asyncResolver_cancel_def cancelPendingCommands_def
  scheduleNextEndpointResolutionDeadline_def scheduleNextSocketConnectionDeadline_def
  ioServiceTaskCv_notify_one_def

lemmas deadline_defs =
  onEndpointResolutionDeadlineReached_def onSocketConnectionDeadlineReached_def

lemmas invoke_defs = invoke_def invoke_uncaught_def

lemma op_job_cancel [simp]: "op_job (cancel_resolve p) = op_job p" "op_job (cancel_connect p) = op_job p"
  by (cases p, simp_all)+

lemma image_op_job_cancel [simp]:
  "image_mset op_job (image_mset cancel_resolve ps) = image_mset op_job ps"
  "image_mset op_job (image_mset cancel_connect ps) = image_mset op_job ps"
  "image_mset (op_job \<circ> (cancel_connect \<circ> cancel_resolve)) ps = image_mset op_job ps"
  by (simp_all add: multiset.map_comp comp_def)

text \<open>A handler takes one operation and leaves either another for its job or an answer to it.\<close>

lemma resolution_accounts:
  assumes "\<forall>cb a. \<not> throws cb a"
  shows "pending_jobs (onEndpointResolutionAttemptCompleted ops throws now error endpoints j r)
       + answered_jobs (onEndpointResolutionAttemptCompleted ops throws now error endpoints j r)
     = add_mset j (pending_jobs r + answered_jobs r)"
    and "r2_worker (onEndpointResolutionAttemptCompleted ops throws now error endpoints j r) = r2_worker r"
  using assms
  by (simp_all add: onEndpointResolutionAttemptCompleted_def accounting submission_defs invoke_defs Let_def
      split: error_code.split)

lemma connection_accounts:
  assumes "\<forall>cb a. \<not> throws cb a"
  shows "pending_jobs (onSocketConnectionAttemptCompleted ops throws error socket j r)
       + answered_jobs (onSocketConnectionAttemptCompleted ops throws error socket j r)
     = add_mset j (pending_jobs r + answered_jobs r)"
    and "r2_worker (onSocketConnectionAttemptCompleted ops throws error socket j r) = r2_worker r"
  using assms
  by (simp_all add: onSocketConnectionAttemptCompleted_def accounting invoke_defs Let_def
      split: error_code.split sum.split)

lemma notify_accounts [simp]:
  "pending_jobs (ioServiceTaskCv_notify_one r) = pending_jobs r"
  "answered_jobs (ioServiceTaskCv_notify_one r) = answered_jobs r"
  "r2_worker (ioServiceTaskCv_notify_one r) = r2_worker r"
  by (simp_all add: ioServiceTaskCv_notify_one_def accounting)

lemma asyncWorkerJob_accounts:
  assumes "\<forall>cb a. \<not> throws cb a"
  shows "pending_jobs (asyncWorkerJob ops throws now j r) + answered_jobs (asyncWorkerJob ops throws now j r)
     = add_mset j (pending_jobs r + answered_jobs r)"
    and "r2_worker (asyncWorkerJob ops throws now j r) = r2_worker r"
proof -
  show "r2_worker (asyncWorkerJob ops throws now j r) = r2_worker r"
    by (cases "r2_deviceEndpoints r")
      (simp_all add: asyncWorkerJob_def resolution_accounts [OF assms]
        scheduleNextEndpointResolutionDeadline_def)
  show "pending_jobs (asyncWorkerJob ops throws now j r) + answered_jobs (asyncWorkerJob ops throws now j r)
     = add_mset j (pending_jobs r + answered_jobs r)"
    by (cases "r2_deviceEndpoints r")
      (simp_all add: asyncWorkerJob_def resolution_accounts [OF assms],
        simp_all add: accounting scheduleNextEndpointResolutionDeadline_def)
qed

definition R2000_accounts :: "('tree, 'ep) R2000 \<Rightarrow> bool" where
  "R2000_accounts r \<longleftrightarrow> mset (wk_executed (r2_worker r)) = pending_jobs r + answered_jobs r"

lemma R2000_worker_step_accounts:
  assumes "\<forall>cb a. \<not> throws cb a" and "R2000_accounts r"
  shows "R2000_accounts (R2000_worker_step ops throws now r)"
    and "Worker_accepted (r2_worker (R2000_worker_step ops throws now r)) = Worker_accepted (r2_worker r)"
proof -
  show "R2000_accounts (R2000_worker_step ops throws now r)"
    using assms(2)
    by (auto simp: R2000_accounts_def R2000_worker_step_def Let_def Worker_task_step_def
        asyncWorkerJob_accounts [OF assms(1)] split: list.split)
      (auto simp: accounting)
  show "Worker_accepted (r2_worker (R2000_worker_step ops throws now r)) = Worker_accepted (r2_worker r)"
    by (simp add: R2000_worker_step_def Let_def asyncWorkerJob_accounts [OF assms(1)] split: list.split)
qed

lemma R2000_step_accounts:
  assumes "\<forall>cb a. \<not> throws cb a" and "R2000_step ops throws r r'" and "R2000_accounts r"
  shows "R2000_accounts r' \<and> Worker_accepted (r2_worker r') = Worker_accepted (r2_worker r)"
  using assms(2,3)
proof cases
  case (work now)
  then show ?thesis using R2000_worker_step_accounts [OF assms(1,3)] by simp
next
  case (resolved before j c after error endpoints now)
  then show ?thesis
    using assms(3)
    by (simp add: R2000_accounts_def resolverHandler_def resolution_accounts [OF assms(1)])
      (simp add: accounting)
next
  case (connected before j endpoints c after error socket)
  then show ?thesis
    using assms(3)
    by (simp add: R2000_accounts_def connection_accounts [OF assms(1)]) (simp add: accounting)
qed (simp_all add: R2000_accounts_def accounting deadline_defs submission_defs
      ioServiceTask_run_returns_def ioServiceTask_wait_def)

lemma R2000_run_accounts:
  assumes "\<forall>cb a. \<not> throws cb a" and "R2000_run ops throws js r"
  shows "R2000_accounts r \<and> Worker_accepted (r2_worker r) = js"
  using assms(2)
proof induction
  case start
  then show ?case
    by (simp add: R2000_accounts_def accounting R2000_new_def Worker_new_def Worker_accepted_def)
next
  case (step js r r')
  then show ?case using R2000_step_accounts [OF assms(1)] by blast
next
  case (cancel js r)
  then show ?case by (simp add: R2000_accounts_def accounting submission_defs)
next
  case (submit js r command parameters callable timeout r' queued)
  then show ?case
    by (auto simp: asyncSendHttpCommand_def pushJob_def R2000_accounts_def accounting Worker_accepted_def
        Let_def split: if_splits)
qed

end
