(* ===== verification/R2000_Executions.thy ===== *)
theory R2000_Executions
  imports R2000_Client
begin

text \<open>
  What the executions of the asynchronous client (\<open>R2000_Client\<close>) keep, what they can reach and what they
  cannot: answers and their reasons, commands that complete, the connections in progress, and the
  states from which nothing more happens.
\<close>

section \<open>What a client can go on to do\<close>

text \<open>A move: a step of the client itself, or a call of one of its operations by the user.\<close>

definition R2000_move ::
  "'tree ptree_ops \<Rightarrow> 'tree callbacks \<Rightarrow> ('tree, 'ep) R2000 \<Rightarrow> ('tree, 'ep) R2000 \<Rightarrow> bool" where
  "R2000_move ops throws r r' \<longleftrightarrow>
     R2000_step ops throws r r' \<or> r' = cancelPendingCommands r \<or>
     (\<exists>command parameters callable timeout.
        r' = fst (asyncSendHttpCommand command parameters callable timeout r))"

text \<open>Once the list of endpoints is known to be empty, no operation can succeed.\<close>

fun without_endpoints :: "'ep operation \<Rightarrow> bool" where
  "without_endpoints (Resolve _ _) = False"
| "without_endpoints (Connect _ eps _) = (eps = [])"

lemma without_endpoints_cancel [simp]:
  "without_endpoints (cancel_connect p) = without_endpoints p"
  "without_endpoints (cancel_resolve p) = without_endpoints p"
  by (cases p, simp_all)+

definition no_endpoints :: "('tree, 'ep) R2000 \<Rightarrow> bool" where
  "no_endpoints r \<longleftrightarrow> r2_deviceEndpoints r = Some [] \<and> (\<forall>p \<in> set (r2_operations r). without_endpoints p)"

definition failed_call :: "job \<times> 'tree DeviceAnswer \<Rightarrow> bool" where
  "failed_call call \<longleftrightarrow> da_requestResult (snd call) = FAILED \<or> da_requestResult (snd call) = TIMEOUT"

definition only_failures :: "('tree, 'ep) R2000 \<Rightarrow> ('tree, 'ep) R2000 \<Rightarrow> bool" where
  "only_failures r r' \<longleftrightarrow> (\<exists>later. r2_calls r' = r2_calls r @ later \<and> (\<forall>call \<in> set later. failed_call call))"

lemma only_failures_refl [simp]: "only_failures r r"
  by (simp add: only_failures_def)

lemma only_failures_same: "r2_calls r' = r2_calls r \<Longrightarrow> only_failures r r'"
  by (simp add: only_failures_def)

lemma only_failures_trans: "only_failures r s \<Longrightarrow> only_failures s t \<Longrightarrow> only_failures r t"
  by (fastforce simp: only_failures_def)

lemma only_failures_invoke:
  "failed_call (j, answer) \<Longrightarrow> only_failures r (invoke_uncaught throws j answer r)"
  by (simp add: only_failures_def invoke_defs)

lemma failed_call_of [simp]:
  "failed_call (j, DeviceAnswer_of ops FAILED)" "failed_call (j, DeviceAnswer_of ops TIMEOUT)"
  by (simp_all add: failed_call_def DeviceAnswer_of_def)

lemma no_endpoints_cancel [simp]:
  "no_endpoints (asyncSocket_close r) = no_endpoints r" "no_endpoints (asyncResolver_cancel r) = no_endpoints r"
  by (simp_all add: no_endpoints_def asyncSocket_close_def asyncResolver_cancel_def)

lemma no_endpoints_worker:
  assumes "no_endpoints r"
  shows "no_endpoints (R2000_worker_step ops throws now r) \<and>
    r2_calls (R2000_worker_step ops throws now r) = r2_calls r"
proof -
  have job: "no_endpoints (asyncWorkerJob ops throws now j s) \<and> r2_calls (asyncWorkerJob ops throws now j s) = r2_calls s"
    if "no_endpoints s" for j s
  proof -
    have "no_endpoints (asyncSocket_close s)" using that by simp
    then show ?thesis
      using that
      by (auto simp: asyncWorkerJob_def onEndpointResolutionAttemptCompleted_def no_endpoints_def Let_def
          scheduleNextSocketConnectionDeadline_def ioServiceTaskCv_notify_one_def asyncSocket_close_def)
  qed
  let ?s = "r\<lparr>r2_worker := Worker_task_step (r2_worker r)\<rparr>"
  have "no_endpoints ?s" using assms by (simp add: no_endpoints_def)
  then show ?thesis
    using job [of ?s] by (cases "wk_localJobQueue (r2_worker r)") (simp_all add: R2000_worker_step_def Let_def)
qed

lemma no_endpoints_step:
  assumes "R2000_step ops throws r r'" and "no_endpoints r"
  shows "no_endpoints r' \<and> only_failures r r'"
  using assms
proof cases
  case (work now)
  then show ?thesis using no_endpoints_worker [OF assms(2)] by (simp add: only_failures_same)
next
  case (resolved before j c after error endpoints now)
  then show ?thesis using assms(2) by (auto simp: no_endpoints_def)
next
  case (connected before j endpoints c after error socket)
  let ?s = "r\<lparr>r2_operations := before @ after\<rparr>"
  have "endpoints = []" "error \<noteq> No_Error" "no_endpoints ?s"
    using assms(2) connected by (auto simp: no_endpoints_def)
  moreover have "only_failures r ?s" by (rule only_failures_same) simp
  ultimately show ?thesis
    using connected(1) only_failures_trans only_failures_invoke failed_call_of
    by (cases error)
      (simp_all add: onSocketConnectionAttemptCompleted_def, simp_all add: no_endpoints_def invoke_defs
        only_failures_def)
qed (use assms(2) in \<open>simp_all add: deadline_defs ioServiceTask_run_returns_def ioServiceTask_wait_def\<close>,
     simp_all add: no_endpoints_def only_failures_def asyncResolver_cancel_def asyncSocket_close_def)

lemma no_endpoints_move:
  assumes "R2000_move ops throws r r'" and "no_endpoints r"
  shows "no_endpoints r' \<and> only_failures r r'"
proof -
  consider "R2000_step ops throws r r'" | "r' = cancelPendingCommands r"
    | command parameters callable timeout where "r' = fst (asyncSendHttpCommand command parameters callable timeout r)"
    using assms(1) by (auto simp: R2000_move_def)
  then show ?thesis
  proof cases
    case 1
    then show ?thesis using no_endpoints_step assms(2) by blast
  next
    case 2
    then show ?thesis
      using assms(2) by (simp add: cancelPendingCommands_def)
        (simp add: only_failures_def asyncResolver_cancel_def asyncSocket_close_def)
  next
    case 3
    then show ?thesis
      using assms(2) by (simp add: asyncSendHttpCommand_def Let_def no_endpoints_def only_failures_def split: prod.split)
  qed
qed

section \<open>A client with nothing to run\<close>

definition worker_idle :: "('tree, 'ep) R2000 \<Rightarrow> bool" where
  "worker_idle r \<longleftrightarrow> wk_localJobQueue (r2_worker r) = [] \<and> wk_jobs (r2_worker r) = []"

text \<open>With an idle worker and the task of the io service out of \<open>run\<close>, nothing ever wakes that task.\<close>

definition asleep :: "('tree, 'ep) R2000 \<Rightarrow> bool" where
  "asleep r \<longleftrightarrow> worker_idle r \<and> (r2_io r = Returned \<or> r2_io r = Waiting)"

lemma asleep_step:
  assumes "R2000_step ops throws r r'" and "asleep r"
  shows "asleep r' \<and> r2_calls r' = r2_calls r \<and> r2_operations r' = r2_operations r \<and>
    (r2_io r = Waiting \<longrightarrow> r2_io r' = Waiting)"
  using assms
proof cases
  case (work now)
  then show ?thesis
    using assms(2)
    by (simp add: asleep_def worker_idle_def R2000_worker_step_def Worker_task_step_def Let_def)
qed (auto simp: asleep_def worker_idle_def ioServiceTask_run_returns_def ioServiceTask_wait_def)

lemma asleep_steps:
  assumes "(R2000_step ops throws)\<^sup>*\<^sup>* r r'" and "asleep r"
  shows "asleep r' \<and> r2_calls r' = r2_calls r \<and> r2_operations r' = r2_operations r \<and>
    (r2_io r = Waiting \<longrightarrow> r2_io r' = Waiting)"
  using assms by (induction rule: rtranclp_induct) (use asleep_step in fastforce)+

section \<open>The steps of the worker\<close>

lemma worker_step_takes_queue:
  assumes "\<not> wk_finished (r2_worker r)" and "wk_localJobQueue (r2_worker r) = []"
    and "\<not> wk_interruptFlag (r2_worker r)" and "wk_jobs (r2_worker r) \<noteq> []"
  shows "R2000_worker_step ops throws now r =
    r\<lparr>r2_worker := (r2_worker r)\<lparr>wk_localJobQueue := wk_jobs (r2_worker r), wk_jobs := []\<rparr>\<rparr>"
  using assms by (simp add: R2000_worker_step_def Worker_task_step_def Let_def)

lemma worker_step_runs_job:
  assumes "\<not> wk_finished (r2_worker r)" and "wk_localJobQueue (r2_worker r) = j # js"
  shows "R2000_worker_step ops throws now r =
    asyncWorkerJob ops throws now j
      (r\<lparr>r2_worker := (r2_worker r)\<lparr>wk_executed := wk_executed (r2_worker r) @ [j], wk_localJobQueue := js\<rparr>\<rparr>)"
  using assms by (simp add: R2000_worker_step_def Worker_task_step_def Let_def)

section \<open>A command that completes\<close>

text \<open>
  A client that is ready has nothing to do; its io service task may be in \<open>run\<close>, out of it or asleep.
\<close>

definition ready :: "'ep list \<Rightarrow> ('tree, 'ep) R2000 \<Rightarrow> bool" where
  "ready endpoints r \<longleftrightarrow> r2_io r \<noteq> Ended \<and> \<not> r2_interruptIoServiceTask r \<and> worker_idle r \<and> r2_operations r = [] \<and>
     (r2_deviceEndpoints r = None \<or> r2_deviceEndpoints r = Some endpoints)"

definition worker_serves :: "('tree, 'ep) R2000 \<Rightarrow> bool" where
  "worker_serves r \<longleftrightarrow> \<not> wk_finished (r2_worker r) \<and> \<not> wk_interruptFlag (r2_worker r) \<and> wk_maxJob (r2_worker r) = - 1"

lemma handler_keeps_worker [simp]:
  "r2_worker (onEndpointResolutionAttemptCompleted ops throws now error endpoints j r) = r2_worker r"
  "r2_worker (onSocketConnectionAttemptCompleted ops throws error socket j r) = r2_worker r"
  "r2_worker (asyncWorkerJob ops throws now j r) = r2_worker r"
  by (simp_all add: onEndpointResolutionAttemptCompleted_def onSocketConnectionAttemptCompleted_def asyncWorkerJob_def
      submission_defs invoke_defs Let_def split: error_code.split sum.split option.split)

lemma worker_serves_run: "R2000_run ops throws js r \<Longrightarrow> worker_serves r"
proof (induction rule: R2000_run.induct)
  case start
  show ?case by (simp add: worker_serves_def R2000_new_def Worker_new_def)
next
  case (step js r r')
  from step(2,3) show ?case
    by cases (auto simp: worker_serves_def R2000_worker_step_def Worker_task_step_def resolverHandler_def
        deadline_defs submission_defs ioServiceTask_run_returns_def ioServiceTask_wait_def Let_def split: list.split)
next
  case (cancel js r)
  then show ?case by (simp add: worker_serves_def submission_defs)
next
  case (submit js r command parameters callable timeout r' queued)
  then show ?case by (auto simp: worker_serves_def asyncSendHttpCommand_def pushJob_def Let_def split: if_splits)
qed

lemma run_steps: "(R2000_step ops throws)\<^sup>*\<^sup>* r r' \<Longrightarrow> R2000_run ops throws js r \<Longrightarrow> R2000_run ops throws js r'"
  by (induction rule: rtranclp_induct) (auto intro: R2000_run.step)

text \<open>The connection of the only operation in progress succeeds.\<close>

lemma connection_completes:
  assumes "r2_io r = Running" and "r2_operations r = [Connect j endpoints c]"
    and "endpoints \<noteq> []" and "HttpGet_socket ops socket (jb_request j) = Inr answer" and "\<not> throws (jb_callable j) answer"
  shows "R2000_step ops throws r (r\<lparr>r2_operations := [], r2_calls := r2_calls r @ [(j, answer)]\<rparr>)"
  using connected [of r "[]" j endpoints c "[]" No_Error True ops throws socket] assms
  by (simp add: onSocketConnectionAttemptCompleted_def invoke_def)

text \<open>What the worker leaves to do for a job: the connection, after the resolution where that is needed.\<close>

lemma job_connects:
  assumes "r2_io s = Running \<or> r2_io s = Waiting \<and> \<not> r2_interruptIoServiceTask s" and "r2_operations s = []"
    and "r2_deviceEndpoints s = None \<or> r2_deviceEndpoints s = Some endpoints"
  shows "\<exists>r. (R2000_client_step ops throws whole)\<^sup>*\<^sup>* (asyncWorkerJob ops throws 0 j s) r \<and> r2_io r = Running \<and>
    r2_operations r = [Connect j endpoints False] \<and> r2_interruptIoServiceTask r = r2_interruptIoServiceTask s \<and>
    r2_deviceEndpoints r = Some endpoints \<and> r2_worker r = r2_worker s \<and> r2_calls r = r2_calls s"
proof (cases "r2_deviceEndpoints s")
  case (Some eps)
  then show ?thesis
    using assms
    by (intro exI [of _ "asyncWorkerJob ops throws 0 j s"])
      (auto simp: asyncWorkerJob_def onEndpointResolutionAttemptCompleted_def submission_defs Let_def)
next
  case None
  let ?r = "asyncWorkerJob ops throws 0 j s"
  have r: "r2_io ?r = Running" "r2_operations ?r = [Resolve j False]" "r2_calls ?r = r2_calls s"
    "r2_interruptIoServiceTask ?r = r2_interruptIoServiceTask s"
    using None assms(1,2) by (auto simp: asyncWorkerJob_def submission_defs)
  let ?r' = "resolverHandler ops throws 0 No_Error endpoints j (?r\<lparr>r2_operations := []\<rparr>)"
  have "R2000_client_step ops throws whole ?r ?r'"
    using resolved [of ?r "[]" j False "[]" No_Error endpoints ops throws whole 0] r by simp
  then show ?thesis
    using r
    by (intro exI [of _ ?r'])
      (simp add: r_into_rtranclp resolverHandler_def onEndpointResolutionAttemptCompleted_def Let_def,
        simp add: submission_defs)
qed

text \<open>A command given to a client with nothing to do is accepted, and can get as far as its connection.\<close>

lemma submitted_connects:
  assumes "ready endpoints r" and "worker_serves r"
    and "asyncSendHttpCommand command parameters callable timeout r = (r1, queued)"
  shows "queued \<and> (\<exists>r'. (R2000_client_step ops throws whole)\<^sup>*\<^sup>* r1 r' \<and> r2_io r' = Running \<and>
    r2_operations r' = [Connect \<lparr>jb_request = makeRequestFromParameters command parameters,
                                 jb_callable = callable, jb_timeout = timeout\<rparr> endpoints False] \<and>
    r2_deviceEndpoints r' = Some endpoints \<and> \<not> r2_interruptIoServiceTask r' \<and> worker_idle r' \<and>
    r2_calls r' = r2_calls r)"
proof -
  define j where "j = \<lparr>jb_request = makeRequestFromParameters command parameters, jb_callable = callable, jb_timeout = timeout\<rparr>"
  have idle: "wk_localJobQueue (r2_worker r) = []" "wk_jobs (r2_worker r) = []" "r2_io r \<noteq> Ended" "r2_operations r = []"
    "r2_deviceEndpoints r = None \<or> r2_deviceEndpoints r = Some endpoints" "\<not> r2_interruptIoServiceTask r"
    using assms(1) by (simp_all add: ready_def worker_idle_def)
  have serves: "\<not> wk_finished (r2_worker r)" "\<not> wk_interruptFlag (r2_worker r)" "wk_maxJob (r2_worker r) = - 1"
    using assms(2) by (simp_all add: worker_serves_def)
  let ?r1 = "r\<lparr>r2_worker := (r2_worker r)\<lparr>wk_jobs := [j]\<rparr>\<rparr>"
  let ?r2 = "ioServiceTask_wait ?r1"
  let ?r3 = "?r2\<lparr>r2_worker := (r2_worker r)\<lparr>wk_localJobQueue := [j], wk_jobs := []\<rparr>\<rparr>"
  let ?s = "?r2\<lparr>r2_worker := (r2_worker r)\<lparr>wk_jobs := [], wk_executed := wk_executed (r2_worker r) @ [j], wk_localJobQueue := []\<rparr>\<rparr>"
  have submitted: "r1 = ?r1" "queued"
    using assms(3) serves idle by (simp_all add: asyncSendHttpCommand_def pushJob_def j_def Let_def)
  have waited: "r2_worker ?r2 = (r2_worker r)\<lparr>wk_jobs := [j]\<rparr>" "r2_operations ?r2 = []" "r2_calls ?r2 = r2_calls r"
    "r2_deviceEndpoints ?r2 = r2_deviceEndpoints r" "r2_interruptIoServiceTask ?r2 = r2_interruptIoServiceTask r"
    "r2_io ?r2 = Running \<or> r2_io ?r2 = Waiting"
    using idle(3,4) by (cases "r2_io r"; simp add: ioServiceTask_wait_def)+
  have "R2000_client_step ops throws whole ?r1 ?r2" by (rule R2000_client_step.wait)
  moreover have "R2000_client_step ops throws whole ?r2 ?r3"
    using work [of ops throws whole ?r2 0] serves idle by (simp add: worker_step_takes_queue waited)
  moreover have "R2000_client_step ops throws whole ?r3 (asyncWorkerJob ops throws 0 j ?s)"
    using work [of ops throws whole ?r3 0] serves by (simp add: worker_step_runs_job)
  moreover obtain r3 where r3: "(R2000_client_step ops throws whole)\<^sup>*\<^sup>* (asyncWorkerJob ops throws 0 j ?s) r3"
    "r2_io r3 = Running" "r2_operations r3 = [Connect j endpoints False]" "r2_deviceEndpoints r3 = Some endpoints"
    "\<not> r2_interruptIoServiceTask r3" "r2_worker r3 = r2_worker ?s" "r2_calls r3 = r2_calls r"
    using job_connects [of ?s endpoints ops throws whole j] idle waited by auto
  ultimately have "(R2000_client_step ops throws whole)\<^sup>*\<^sup>* ?r1 r3"
    by (meson converse_rtranclp_into_rtranclp)
  moreover have "worker_idle r3" using r3(6) by (simp add: worker_idle_def)
  ultimately show ?thesis unfolding submitted(1) j_def [symmetric] using r3(2-5,7) submitted(2) by blast
qed

text \<open>And it can be answered.\<close>

lemma submitted_completes:
  assumes "ready endpoints r" and "worker_serves r" and "endpoints \<noteq> []"
    and "asyncSendHttpCommand command parameters callable timeout r = (r1, queued)"
    and "HttpGet_socket ops socket (makeRequestFromParameters command parameters) = Inr answer"
    and "\<not> throws callable answer"
  shows "queued \<and> (\<exists>r'. (R2000_step ops throws)\<^sup>*\<^sup>* r1 r' \<and> ready endpoints r' \<and> r2_io r' = Running \<and>
    r2_calls r' = r2_calls r @ [(\<lparr>jb_request = makeRequestFromParameters command parameters, jb_callable = callable,
                                jb_timeout = timeout\<rparr>, answer)])"
proof -
  let ?j = "\<lparr>jb_request = makeRequestFromParameters command parameters, jb_callable = callable, jb_timeout = timeout\<rparr>"
  from submitted_connects [OF assms(1,2,4), of ops throws True]
  obtain r3 where "queued" and r3: "(R2000_step ops throws)\<^sup>*\<^sup>* r1 r3" "r2_io r3 = Running"
    "r2_operations r3 = [Connect ?j endpoints False]" "r2_deviceEndpoints r3 = Some endpoints"
    "\<not> r2_interruptIoServiceTask r3" "worker_idle r3" "r2_calls r3 = r2_calls r" by blast
  let ?r = "r3\<lparr>r2_operations := [], r2_calls := r2_calls r3 @ [(?j, answer)]\<rparr>"
  have "R2000_step ops throws r3 ?r"
    by (rule connection_completes [where socket = socket, OF r3(2,3) assms(3)]) (simp_all add: assms(5,6))
  with r3(1) have "(R2000_step ops throws)\<^sup>*\<^sup>* r1 ?r" by (rule rtranclp.rtrancl_into_rtrancl)
  moreover have "ready endpoints ?r" using r3 by (simp add: ready_def worker_idle_def)
  ultimately show ?thesis using r3(2,7) \<open>queued\<close> by (intro conjI exI [of _ ?r]) simp_all
qed

section \<open>A client that can answer everything\<close>

lemma io_run:
  assumes "\<forall>cb a. \<not> throws cb a" and "R2000_run ops throws js r"
  shows "r2_io r \<noteq> Ended \<and> \<not> r2_interruptIoServiceTask r"
  using assms(2)
proof induction
  case start
  show ?case by (simp add: R2000_new_def)
next
  case (step js r r')
  from step(2,3) assms(1) show ?case
    by cases (auto simp: R2000_worker_step_def asyncWorkerJob_def onEndpointResolutionAttemptCompleted_def
        onSocketConnectionAttemptCompleted_def resolverHandler_def invoke_defs deadline_defs submission_defs
        ioServiceTask_run_returns_def ioServiceTask_wait_def Let_def
        split: list.split option.split error_code.split sum.split)
next
  case (cancel js r)
  then show ?case by (simp add: submission_defs)
next
  case (submit js r command parameters callable timeout r' queued)
  then show ?case by (auto simp: asyncSendHttpCommand_def Let_def split: prod.splits)
qed

text \<open>An operation in progress can fail, and is then answered.\<close>

lemma operation_fails:
  assumes "\<forall>cb a. \<not> throws cb a" and "r2_io r = Running" and "r2_operations r = p # after"
  shows "\<exists>r'. R2000_step ops throws r r' \<and> r2_io r' = Running \<and> r2_operations r' = after \<and> r2_worker r' = r2_worker r"
proof (cases p)
  case (Resolve j c)
  have "R2000_step ops throws r (resolverHandler ops throws 0 Network_Error [] j (r\<lparr>r2_operations := [] @ after\<rparr>))"
    by (rule resolved) (use assms Resolve in auto)
  then show ?thesis
    using assms
    by (intro exI [of _ "resolverHandler ops throws 0 Network_Error [] j (r\<lparr>r2_operations := [] @ after\<rparr>)"])
      (simp add: resolverHandler_def onEndpointResolutionAttemptCompleted_def invoke_defs)
next
  case (Connect j endpoints c)
  have "R2000_step ops throws r (onSocketConnectionAttemptCompleted ops throws Network_Error (\<lambda>_. undefined) j (r\<lparr>r2_operations := [] @ after\<rparr>))"
    by (rule connected) (use assms Connect in auto)
  then show ?thesis
    using assms
    by (intro exI [of _ "onSocketConnectionAttemptCompleted ops throws Network_Error (\<lambda>_. undefined) j (r\<lparr>r2_operations := [] @ after\<rparr>)"])
      (simp add: onSocketConnectionAttemptCompleted_def invoke_defs)
qed

lemma operations_drain:
  assumes "\<forall>cb a. \<not> throws cb a" and "r2_io r = Running"
  shows "\<exists>r'. (R2000_step ops throws)\<^sup>*\<^sup>* r r' \<and> r2_operations r' = [] \<and> r2_worker r' = r2_worker r"
  using assms(2)
proof (induction "r2_operations r" arbitrary: r)
  case Nil
  then show ?case by auto
next
  case (Cons p after)
  obtain r1 where r1: "R2000_step ops throws r r1" "r2_io r1 = Running" "r2_operations r1 = after" "r2_worker r1 = r2_worker r"
    using operation_fails [OF assms(1) Cons.prems Cons.hyps(2) [symmetric]] by blast
  obtain r' where "(R2000_step ops throws)\<^sup>*\<^sup>* r1 r'" "r2_operations r' = []" "r2_worker r' = r2_worker r1"
    using Cons.hyps(1) [OF r1(3) [symmetric] r1(2)] by blast
  with r1(1,4) show ?case by (metis converse_rtranclp_into_rtranclp)
qed

text \<open>The worker can run the jobs it has taken, and then take those that were pushed meanwhile.\<close>

lemma job_wakes:
  assumes "r2_io s = Running \<or> r2_io s = Waiting" and "\<not> r2_interruptIoServiceTask s"
  shows "r2_io (asyncWorkerJob ops throws now j s) = Running" "\<not> r2_interruptIoServiceTask (asyncWorkerJob ops throws now j s)"
  using assms
  by (auto simp: asyncWorkerJob_def onEndpointResolutionAttemptCompleted_def submission_defs Let_def split: option.split)

lemma queue_drains:
  assumes "worker_serves r" and "r2_io r = Running \<or> r2_io r = Waiting" and "\<not> r2_interruptIoServiceTask r"
    and "wk_localJobQueue (r2_worker r) \<noteq> []"
  shows "\<exists>r'. (R2000_step ops throws)\<^sup>*\<^sup>* r r' \<and> wk_localJobQueue (r2_worker r') = [] \<and>
    wk_jobs (r2_worker r') = wk_jobs (r2_worker r) \<and> worker_serves r' \<and> r2_io r' = Running \<and> \<not> r2_interruptIoServiceTask r'"
  using assms
proof (induction "wk_localJobQueue (r2_worker r)" arbitrary: r)
  case (Cons j js)
  let ?s = "r\<lparr>r2_worker := (r2_worker r)\<lparr>wk_executed := wk_executed (r2_worker r) @ [j], wk_localJobQueue := js\<rparr>\<rparr>"
  let ?r1 = "asyncWorkerJob ops throws 0 j ?s"
  have step: "R2000_step ops throws r ?r1"
    using work [of ops throws True r 0] Cons.prems(1) Cons.hyps(2) [symmetric] by (simp add: worker_step_runs_job worker_serves_def)
  have r1: "r2_io ?r1 = Running" "\<not> r2_interruptIoServiceTask ?r1" "worker_serves ?r1"
    "wk_localJobQueue (r2_worker ?r1) = js" "wk_jobs (r2_worker ?r1) = wk_jobs (r2_worker r)"
    using job_wakes [of ?s] Cons.prems(1-3) by (simp_all add: worker_serves_def)
  show ?case
  proof (cases js)
    case Nil
    then show ?thesis using step r1 by (intro exI [of _ ?r1]) simp
  next
    case (Cons j' js')
    with r1(4) have "wk_localJobQueue (r2_worker ?r1) \<noteq> []" by simp
    from Cons.hyps(1) [OF r1(4) [symmetric] r1(3) _ r1(2) this] r1(1)
    obtain r' where "(R2000_step ops throws)\<^sup>*\<^sup>* ?r1 r'" "wk_localJobQueue (r2_worker r') = []"
      "wk_jobs (r2_worker r') = wk_jobs (r2_worker ?r1)" "worker_serves r'" "r2_io r' = Running" "\<not> r2_interruptIoServiceTask r'"
      by blast
    with converse_rtranclp_into_rtranclp [OF step this(1)] r1(5) show ?thesis by auto
  qed
qed simp

lemma pushed_drain:
  assumes "worker_serves r" and "r2_io r = Running \<or> r2_io r = Waiting" and "\<not> r2_interruptIoServiceTask r"
    and "wk_localJobQueue (r2_worker r) = []" and "wk_jobs (r2_worker r) \<noteq> []"
  shows "\<exists>r'. (R2000_step ops throws)\<^sup>*\<^sup>* r r' \<and> worker_idle r' \<and> r2_io r' = Running"
proof -
  let ?r1 = "r\<lparr>r2_worker := (r2_worker r)\<lparr>wk_localJobQueue := wk_jobs (r2_worker r), wk_jobs := []\<rparr>\<rparr>"
  have "R2000_step ops throws r ?r1"
    using work [of ops throws True r 0] assms(1,4,5) by (simp add: worker_step_takes_queue worker_serves_def)
  moreover have "worker_serves ?r1" using assms(1) by (simp add: worker_serves_def)
  from queue_drains [OF this, of ops throws] assms(2,3,5) obtain r' where
    "(R2000_step ops throws)\<^sup>*\<^sup>* ?r1 r'" "wk_localJobQueue (r2_worker r') = []" "wk_jobs (r2_worker r') = []" "r2_io r' = Running"
    by auto
  ultimately show ?thesis unfolding worker_idle_def by (metis converse_rtranclp_into_rtranclp)
qed

lemma worker_drains:
  assumes "worker_serves r" and "r2_io r \<noteq> Ended" and "\<not> r2_interruptIoServiceTask r" and "\<not> worker_idle r"
  shows "\<exists>r'. (R2000_step ops throws)\<^sup>*\<^sup>* r r' \<and> worker_idle r' \<and> r2_io r' = Running"
proof -
  let ?r0 = "ioServiceTask_wait r"
  have first: "R2000_step ops throws r ?r0" by (rule R2000_client_step.wait)
  have r0: "worker_serves ?r0" "r2_io ?r0 = Running \<or> r2_io ?r0 = Waiting" "\<not> r2_interruptIoServiceTask ?r0" "r2_worker ?r0 = r2_worker r"
    using assms(1-3) by (cases "r2_io r"; simp add: ioServiceTask_wait_def worker_serves_def)+
  have "\<exists>r'. (R2000_step ops throws)\<^sup>*\<^sup>* ?r0 r' \<and> worker_idle r' \<and> r2_io r' = Running"
  proof (cases "wk_localJobQueue (r2_worker ?r0) = []")
    case True
    then show ?thesis using pushed_drain [OF r0(1-3)] assms(4) r0(4) by (simp add: worker_idle_def)
  next
    case False
    then obtain r1 where r1: "(R2000_step ops throws)\<^sup>*\<^sup>* ?r0 r1" "wk_localJobQueue (r2_worker r1) = []" "worker_serves r1"
      "r2_io r1 = Running" "\<not> r2_interruptIoServiceTask r1"
      using queue_drains [OF r0(1-3), of ops throws] by blast
    show ?thesis
    proof (cases "wk_jobs (r2_worker r1) = []")
      case True
      with r1 show ?thesis unfolding worker_idle_def by blast
    next
      case False
      from pushed_drain [OF r1(3) _ r1(5,2) this, of ops throws] r1(1,4) show ?thesis
        by (metis rtranclp_trans)
    qed
  qed
  with first show ?thesis by (metis converse_rtranclp_into_rtranclp)
qed

text \<open>So the only executions that cannot go on to answer everything are those that are asleep over an operation.\<close>

lemma client_drains:
  assumes "\<forall>cb a. \<not> throws cb a" and "R2000_run ops throws js r" and "\<not> (asleep r \<and> r2_operations r \<noteq> [])"
  shows "\<exists>r'. (R2000_step ops throws)\<^sup>*\<^sup>* r r' \<and> worker_idle r' \<and> r2_operations r' = []"
proof (cases "asleep r")
  case True
  with assms(3) have "worker_idle r" "r2_operations r = []" by (auto simp: asleep_def)
  then show ?thesis by blast
next
  case False
  have io: "r2_io r \<noteq> Ended" "\<not> r2_interruptIoServiceTask r" using io_run [OF assms(1,2)] by simp_all
  obtain r1 where r1: "(R2000_step ops throws)\<^sup>*\<^sup>* r r1" "worker_idle r1" "r2_io r1 = Running"
  proof (cases "worker_idle r")
    case True
    with False io(1) have "r2_io r = Running" by (cases "r2_io r") (simp_all add: asleep_def)
    with True that show ?thesis by blast
  next
    case False
    then show ?thesis using worker_drains [OF worker_serves_run [OF assms(2)] io, of ops throws] that by blast
  qed
  obtain r' where "(R2000_step ops throws)\<^sup>*\<^sup>* r1 r'" "r2_operations r' = []" "r2_worker r' = r2_worker r1"
    using operations_drain [OF assms(1) r1(3)] by blast
  with r1 show ?thesis unfolding worker_idle_def by (metis rtranclp_trans)
qed

section \<open>The ends of the operations\<close>

text \<open>
  How the operations of an execution ended: a resolution with its error, a connection with its error and
  what the connected socket does; and the executions together with the ends in them, in their order.
\<close>

datatype operation_end =
    Resolution_Ended job error_code
  | Connection_Ended job error_code "string \<Rightarrow> http_exchange"

inductive R2000_history ::
  "'tree ptree_ops \<Rightarrow> 'tree callbacks \<Rightarrow> job list \<Rightarrow> operation_end list \<Rightarrow> ('tree, 'ep) R2000 \<Rightarrow> bool"
  for ops throws where
  history_start: "R2000_history ops throws [] [] R2000_new"
| history_work: "R2000_history ops throws js ends r \<Longrightarrow> R2000_history ops throws js ends (R2000_worker_step ops throws now r)"
| history_resolved: "R2000_history ops throws js ends r \<Longrightarrow> r2_io r = Running \<Longrightarrow>
    r2_operations r = before @ Resolve j c # after \<Longrightarrow>
    (error \<noteq> No_Error \<Longrightarrow> endpoints = []) \<Longrightarrow> (error = Operation_Aborted \<Longrightarrow> c) \<Longrightarrow>
    R2000_history ops throws js (ends @ [Resolution_Ended j error])
      (resolverHandler ops throws now error endpoints j (r\<lparr>r2_operations := before @ after\<rparr>))"
| history_connected: "R2000_history ops throws js ends r \<Longrightarrow> r2_io r = Running \<Longrightarrow>
    r2_operations r = before @ Connect j endpoints c # after \<Longrightarrow>
    (endpoints = [] \<Longrightarrow> error \<noteq> No_Error) \<Longrightarrow> (error = Operation_Aborted \<Longrightarrow> c) \<Longrightarrow>
    R2000_history ops throws js (ends @ [Connection_Ended j error socket])
      (onSocketConnectionAttemptCompleted ops throws error socket j (r\<lparr>r2_operations := before @ after\<rparr>))"
| history_resolver_deadline: "R2000_history ops throws js ends r \<Longrightarrow> r2_io r = Running \<Longrightarrow>
    R2000_history ops throws js ends (onEndpointResolutionDeadlineReached now r)"
| history_socket_deadline: "R2000_history ops throws js ends r \<Longrightarrow> r2_io r = Running \<Longrightarrow>
    R2000_history ops throws js ends (onSocketConnectionDeadlineReached now r)"
| history_run_returns: "R2000_history ops throws js ends r \<Longrightarrow> R2000_history ops throws js ends (ioServiceTask_run_returns r)"
| history_wait: "R2000_history ops throws js ends r \<Longrightarrow> R2000_history ops throws js ends (ioServiceTask_wait r)"
| history_cancel: "R2000_history ops throws js ends r \<Longrightarrow> R2000_history ops throws js ends (cancelPendingCommands r)"
| history_submit: "R2000_history ops throws js ends r \<Longrightarrow>
    asyncSendHttpCommand command parameters callable timeout r = (r', queued) \<Longrightarrow>
    R2000_history ops throws
      (if queued
       then js @ [\<lparr>jb_request = makeRequestFromParameters command parameters, jb_callable = callable,
                   jb_timeout = timeout\<rparr>]
       else js) ends r'"

text \<open>Every execution has such a history, and a history is one of an execution.\<close>

lemma step_history:
  assumes "R2000_step ops throws r r'" and "R2000_history ops throws js ends r"
  shows "\<exists>ends'. R2000_history ops throws js ends' r'"
  using assms by cases (blast intro: R2000_history.intros)+

lemma run_history: "R2000_run ops throws js r \<longleftrightarrow> (\<exists>ends. R2000_history ops throws js ends r)"
proof
  show "R2000_run ops throws js r \<Longrightarrow> \<exists>ends. R2000_history ops throws js ends r"
  proof (induction rule: R2000_run.induct)
    case (step js r r')
    then show ?case using step_history by blast
  qed (blast intro: R2000_history.intros)+
next
  assume "\<exists>ends. R2000_history ops throws js ends r"
  then obtain ends where "R2000_history ops throws js ends r" by blast
  then show "R2000_run ops throws js r"
  proof induction
    case (history_resolved js ends r before j c after error endpoints now)
    show ?case
      by (rule R2000_run.step [OF history_resolved.IH R2000_client_step.resolved]) (fact history_resolved.hyps)+
  next
    case (history_connected js ends r before j endpoints c after error socket)
    show ?case
      by (rule R2000_run.step [OF history_connected.IH R2000_client_step.connected]) (fact history_connected.hyps | simp)+
  qed (blast intro: R2000_run.intros R2000_client_step.intros)+
qed

text \<open>The calls that the end of an operation asks for.\<close>

fun calls_of_end ::
  "'tree ptree_ops \<Rightarrow> 'tree callbacks \<Rightarrow> operation_end \<Rightarrow> (job \<times> 'tree DeviceAnswer) list" where
  "calls_of_end ops throws (Resolution_Ended j No_Error) = []"
| "calls_of_end ops throws (Resolution_Ended j Operation_Aborted) = [(j, DeviceAnswer_of ops TIMEOUT)]"
| "calls_of_end ops throws (Resolution_Ended j Network_Error) = [(j, DeviceAnswer_of ops FAILED)]"
| "calls_of_end ops throws (Connection_Ended j No_Error socket) =
     (case HttpGet_socket ops socket (jb_request j) of
        Inl e \<Rightarrow> [(j, DeviceAnswer_of ops FAILED)]
      | Inr answer \<Rightarrow>
          (j, answer) # (if throws (jb_callable j) answer then [(j, DeviceAnswer_of ops FAILED)] else []))"
| "calls_of_end ops throws (Connection_Ended j Operation_Aborted socket) = [(j, DeviceAnswer_of ops TIMEOUT)]"
| "calls_of_end ops throws (Connection_Ended j Network_Error socket) = [(j, DeviceAnswer_of ops FAILED)]"

lemma resolver_calls:
  "r2_calls (resolverHandler ops throws now error endpoints j r) =
     r2_calls r @ calls_of_end ops throws (Resolution_Ended j error)"
  by (cases error)
    (simp_all add: resolverHandler_def onEndpointResolutionAttemptCompleted_def submission_defs invoke_defs Let_def)

lemma connection_calls:
  "r2_calls (onSocketConnectionAttemptCompleted ops throws error socket j r) =
     r2_calls r @ calls_of_end ops throws (Connection_Ended j error socket)"
  by (cases error)
    (simp_all add: onSocketConnectionAttemptCompleted_def invoke_defs Let_def split: sum.split)

section \<open>What the answers mean\<close>

text \<open>
  The reasons for an answer to a job: the device gave it to the request of the job; there was an error;
  or the operation of the job was aborted, which only a cancelled one is.
\<close>

definition explained :: "'tree ptree_ops \<Rightarrow> job \<Rightarrow> bool \<Rightarrow> 'tree DeviceAnswer \<Rightarrow> bool" where
  "explained ops j cancelled answer \<longleftrightarrow>
     (\<exists>socket. HttpGet_socket ops socket (jb_request j) = Inr answer) \<or>
     answer = DeviceAnswer_of ops FAILED \<or> answer = DeviceAnswer_of ops TIMEOUT \<and> cancelled"

definition new_calls ::
  "(job \<times> 'tree DeviceAnswer \<Rightarrow> bool) \<Rightarrow> ('tree, 'ep) R2000 \<Rightarrow> ('tree, 'ep) R2000 \<Rightarrow> bool" where
  "new_calls P r r' \<longleftrightarrow> (\<exists>later. r2_calls r' = r2_calls r @ later \<and> (\<forall>call \<in> set later. P call))"

lemma new_calls_same: "r2_calls r' = r2_calls r \<Longrightarrow> new_calls P r r'"
  by (simp add: new_calls_def)

lemma new_calls_invoke [simp]: "P (j, answer) \<Longrightarrow> new_calls P r (invoke_uncaught throws j answer r)"
  by (simp add: new_calls_def invoke_defs)

lemma resolution_explained:
  "(error = Operation_Aborted \<Longrightarrow> c) \<Longrightarrow>
   new_calls (\<lambda>(j', answer). j' = j \<and> explained ops j c answer) r
     (onEndpointResolutionAttemptCompleted ops throws now error endpoints j r)"
  by (cases error)
    (simp_all add: onEndpointResolutionAttemptCompleted_def Let_def new_calls_same submission_defs explained_def)

lemma connection_explained:
  "(error = Operation_Aborted \<Longrightarrow> c) \<Longrightarrow>
   new_calls (\<lambda>(j', answer). j' = j \<and> explained ops j c answer) r
     (onSocketConnectionAttemptCompleted ops throws error socket j r)"
  by (cases error; cases "HttpGet_socket ops socket (jb_request j)")
    (auto simp: onSocketConnectionAttemptCompleted_def Let_def explained_def new_calls_def invoke_defs)

lemma worker_makes_no_call: "r2_calls (R2000_worker_step ops throws now r) = r2_calls r"
  by (simp add: R2000_worker_step_def asyncWorkerJob_def onEndpointResolutionAttemptCompleted_def submission_defs
      Let_def split: list.split option.split)

lemma step_explained:
  assumes "R2000_step ops throws r r'"
  shows "new_calls (\<lambda>(j, answer). \<exists>p \<in> set (r2_operations r). op_job p = j \<and> explained ops j (op_cancelled p) answer) r r'"
  using assms
proof cases
  case (resolved before j c after error endpoints now)
  then show ?thesis
    using resolution_explained [of error c j ops "r\<lparr>r2_operations := before @ after, r2_deviceEndpoints := Some endpoints\<rparr>"
        throws now endpoints]
    by (fastforce simp: resolverHandler_def new_calls_def)
next
  case (connected before j endpoints c after error socket)
  then show ?thesis
    using connection_explained [of error c j ops "r\<lparr>r2_operations := before @ after\<rparr>" throws socket]
    by (fastforce simp: new_calls_def)
qed (simp_all add: new_calls_same worker_makes_no_call deadline_defs submission_defs
    ioServiceTask_run_returns_def ioServiceTask_wait_def)

text \<open>In an execution every answer has such a reason, and a success is what the device gave.\<close>

lemma explained_True: "explained ops j c answer \<Longrightarrow> explained ops j True answer"
  by (auto simp: explained_def)

lemma run_explained:
  assumes "R2000_run ops throws js r"
  shows "\<forall>(j, answer) \<in> set (r2_calls r). explained ops j True answer"
  using assms
proof induction
  case start
  show ?case by (simp add: R2000_new_def)
next
  case (step js r r')
  obtain later where later: "r2_calls r' = r2_calls r @ later"
    "\<forall>(j, answer) \<in> set later. \<exists>p \<in> set (r2_operations r). op_job p = j \<and> explained ops j (op_cancelled p) answer"
    using step_explained [OF step(2)] unfolding new_calls_def by blast
  then have "\<forall>(j, answer) \<in> set later. explained ops j True answer" by (fast dest: explained_True)
  with step(3) later(1) show ?case by auto
next
  case (cancel js r)
  then show ?case by (simp add: submission_defs)
next
  case (submit js r command parameters callable timeout r' queued)
  then show ?case by (auto simp: asyncSendHttpCommand_def Let_def split: prod.splits)
qed

lemma success_from_device:
  assumes "R2000_run ops throws js r" and "(j, answer) \<in> set (r2_calls r)" and "da_requestResult answer = SUCCESS"
  shows "\<exists>socket. HttpGet_socket ops socket (jb_request j) = Inr answer"
  using run_explained [OF assms(1)] assms(2,3) by (auto simp: explained_def DeviceAnswer_of_def)

section \<open>One connection at a time\<close>

text \<open>The connections in progress that nothing has cancelled.\<close>

fun live_connection :: "'ep operation \<Rightarrow> bool" where
  "live_connection (Resolve _ _) = False"
| "live_connection (Connect _ _ cancelled) = (\<not> cancelled)"

definition live_connections :: "('tree, 'ep) R2000 \<Rightarrow> 'ep operation list" where
  "live_connections r = filter live_connection (r2_operations r)"

lemma live_connection_cancel [simp]:
  "\<not> live_connection (cancel_connect p)" "live_connection (cancel_resolve p) = live_connection p"
  by (cases p; simp)+

lemma live_connections_cancel [simp]:
  "live_connections (asyncSocket_close r) = []"
  "length (live_connections (asyncResolver_cancel r)) = length (live_connections r)"
  by (simp_all add: live_connections_def asyncSocket_close_def asyncResolver_cancel_def filter_map comp_def)

lemma live_connections_resolution:
  "live_connections (onEndpointResolutionAttemptCompleted ops throws now error endpoints j r) =
     (if error = No_Error then [Connect j endpoints False] else live_connections r)"
proof (cases error)
  case No_Error
  have "filter live_connection (r2_operations (asyncSocket_close r)) = []"
    using live_connections_cancel(1) [of r] unfolding live_connections_def .
  then show ?thesis
    using No_Error
    by (simp add: onEndpointResolutionAttemptCompleted_def live_connections_def Let_def
        scheduleNextSocketConnectionDeadline_def)
qed (simp_all add: onEndpointResolutionAttemptCompleted_def live_connections_def invoke_defs)

lemma live_connections_connection:
  "live_connections (onSocketConnectionAttemptCompleted ops throws error socket j r) = live_connections r"
  by (simp add: onSocketConnectionAttemptCompleted_def live_connections_def invoke_defs Let_def
      split: error_code.split sum.split)

lemma live_connections_notify [simp]: "live_connections (ioServiceTaskCv_notify_one r) = live_connections r"
  by (simp add: live_connections_def ioServiceTaskCv_notify_one_def)

lemma live_connections_job:
  "live_connections (asyncWorkerJob ops throws now j r) =
     (case r2_deviceEndpoints r of Some endpoints \<Rightarrow> [Connect j endpoints False] | None \<Rightarrow> live_connections r)"
  by (cases "r2_deviceEndpoints r")
    (simp_all add: asyncWorkerJob_def live_connections_resolution,
     simp add: live_connections_def scheduleNextEndpointResolutionDeadline_def)

lemma live_connections_worker:
  "live_connections (R2000_worker_step ops throws now r) =
     (case (wk_finished (r2_worker r), wk_localJobQueue (r2_worker r), r2_deviceEndpoints r) of
        (False, j # _, Some endpoints) \<Rightarrow> [Connect j endpoints False]
      | _ \<Rightarrow> live_connections r)"
  by (auto simp: R2000_worker_step_def Let_def live_connections_job split: list.split option.split)
    (simp_all add: live_connections_def)

lemma live_connections_step:
  assumes "R2000_step ops throws r r'" and "length (live_connections r) \<le> 1"
  shows "length (live_connections r') \<le> 1"
  using assms
proof cases
  case (work now)
  then show ?thesis using assms(2) by (simp add: live_connections_worker split: list.split option.split bool.split)
next
  case (resolved before j c after error endpoints now)
  then show ?thesis
    using assms(2) by (simp add: resolverHandler_def live_connections_resolution) (simp add: live_connections_def)
next
  case (connected before j endpoints c after error socket)
  then show ?thesis
    using assms(2)
    by (simp add: live_connections_connection) (auto simp: live_connections_def split: if_splits)
qed (use assms(2) in \<open>simp_all add: deadline_defs ioServiceTask_run_returns_def ioServiceTask_wait_def\<close>,
     simp_all add: live_connections_def)

lemma live_connections_run:
  assumes "R2000_run ops throws js r"
  shows "length (live_connections r) \<le> 1"
  using assms
proof induction
  case start
  show ?case by (simp add: live_connections_def R2000_new_def)
next
  case (step js r r')
  then show ?case using live_connections_step by blast
next
  case (cancel js r)
  show ?case by (simp add: cancelPendingCommands_def)
next
  case (submit js r command parameters callable timeout r' queued)
  then show ?case by (auto simp: asyncSendHttpCommand_def live_connections_def Let_def split: prod.splits)
qed

section \<open>Properties\<close>

text \<open>
  C7: In every execution with callbacks that do not throw, each accepted command is, exactly once,
  either still queued, or the job of one operation in progress, or answered by one call of its
  callback: no command is answered twice, and none is dropped.
\<close>

theorem commands_answered_once:
  assumes "\<forall>cb a. \<not> throws cb a" and "R2000_run ops throws js r"
  shows "mset js = mset (wk_localJobQueue (r2_worker r) @ wk_jobs (r2_worker r))
    + mset (map op_job (r2_operations r)) + mset (map fst (r2_calls r))"
  using R2000_run_accounts [OF assms]
  by (auto simp: R2000_accounts_def accounting Worker_accepted_def)

text \<open>Two commands: one is answered by a network error, the other waits for the resolution.\<close>

definition example_submit :: "nat \<Rightarrow> (string, nat) R2000 \<Rightarrow> (string, nat) R2000" where
  "example_submit callable r = fst (asyncSendHttpCommand ''list_parameters'' [] callable 5000 r)"

definition example_job :: "nat \<Rightarrow> job" where
  "example_job callable = \<lparr>jb_request = makeRequestFromParameters ''list_parameters'' [], jb_callable = callable, jb_timeout = 5000\<rparr>"

definition example_worked :: "(string, nat) R2000 \<Rightarrow> (string, nat) R2000" where
  "example_worked r = R2000_worker_step example_ptree_ops (\<lambda>_ _. False) 0 r"

lemma example_submit_run:
  assumes "R2000_run ops throws js r" and "length (wk_jobs (r2_worker r)) \<le> unat (wk_maxJob (r2_worker r))"
  shows "R2000_run ops throws (js @ [example_job callable]) (example_submit callable r)"
proof -
  have "asyncSendHttpCommand ''list_parameters'' [] callable 5000 r = (example_submit callable r, True)"
    using assms(2) by (simp add: example_submit_def asyncSendHttpCommand_def pushJob_def Let_def)
  from submit [OF assms(1) this] show ?thesis by (simp add: example_job_def)
qed

lemma example_worked_run:
  "R2000_run example_ptree_ops (\<lambda>_ _. False) js r \<Longrightarrow>
   R2000_run example_ptree_ops (\<lambda>_ _. False) js (example_worked r)"
  unfolding example_worked_def by (rule R2000_run.step, assumption, rule work)

lemma example_submit_eq:
  "length (wk_jobs (r2_worker r)) \<le> unat (wk_maxJob (r2_worker r)) \<Longrightarrow>
   example_submit callable r =
     r\<lparr>r2_worker := (r2_worker r)\<lparr>wk_jobs := wk_jobs (r2_worker r) @ [example_job callable]\<rparr>\<rparr>"
  by (simp add: example_submit_def asyncSendHttpCommand_def pushJob_def example_job_def Let_def)

lemma unat_max_u32 [simp]: "unat (- 1 :: u32) = 4294967295"
  by (simp add: unsigned_minus_1_eq_mask mask_eq_exp_minus_1)

lemma jb_timeout_example [simp]: "jb_timeout (example_job n) = 5000"
  by (simp add: example_job_def)

lemmas example_steps =
  example_submit_eq example_worked_def worker_step_takes_queue worker_step_runs_job

definition example_asked :: "(string, nat) R2000" where
  "example_asked = example_worked (example_worked (example_submit 2 (example_submit 1 R2000_new)))"

lemma example_asked_eq:
  "example_asked =
     R2000_new\<lparr>r2_worker := (Worker_new (- 1))\<lparr>wk_localJobQueue := [example_job 2], wk_executed := [example_job 1]\<rparr>,
               r2_operations := [Resolve (example_job 1) False], r2_resolverDeadline := 5000\<rparr>"
  by (simp add: example_asked_def example_steps R2000_new_def Worker_new_def asyncWorkerJob_def submission_defs)

lemma example_asked_run:
  "R2000_run example_ptree_ops (\<lambda>_ _. False) [example_job 1, example_job 2] example_asked"
proof -
  have "R2000_run example_ptree_ops (\<lambda>_ _. False) ([] @ [example_job 1]) (example_submit 1 R2000_new)"
    by (rule example_submit_run [OF start]) (simp add: R2000_new_def Worker_new_def)
  then have "R2000_run example_ptree_ops (\<lambda>_ _. False) (([] @ [example_job 1]) @ [example_job 2])
      (example_submit 2 (example_submit 1 R2000_new))"
    by (rule example_submit_run) (simp add: example_submit_eq R2000_new_def Worker_new_def)
  then show ?thesis
    unfolding example_asked_def by (simp add: example_worked_run)
qed

text \<open>The resolution of the first command fails.\<close>

lemma example_asked_history:
  "R2000_history example_ptree_ops (\<lambda>_ _. False) [example_job 1, example_job 2] [] example_asked"
proof -
  have submit: "R2000_history example_ptree_ops (\<lambda>_ _. False) (js @ [example_job callable]) [] (example_submit callable r)"
    if "R2000_history example_ptree_ops (\<lambda>_ _. False) js [] r" "length (wk_jobs (r2_worker r)) \<le> unat (wk_maxJob (r2_worker r))"
    for js callable r
  proof -
    have "asyncSendHttpCommand ''list_parameters'' [] callable 5000 r = (example_submit callable r, True)"
      using that(2) by (simp add: example_submit_def asyncSendHttpCommand_def pushJob_def Let_def)
    from history_submit [OF that(1) this] show ?thesis by (simp add: example_job_def)
  qed
  have "R2000_history example_ptree_ops (\<lambda>_ _. False) ([] @ [example_job 1]) [] (example_submit 1 R2000_new)"
    by (rule submit [OF history_start]) (simp add: R2000_new_def Worker_new_def)
  then have "R2000_history example_ptree_ops (\<lambda>_ _. False) (([] @ [example_job 1]) @ [example_job 2]) []
      (example_submit 2 (example_submit 1 R2000_new))"
    by (rule submit) (simp add: example_submit_eq R2000_new_def Worker_new_def)
  then show ?thesis
    unfolding example_asked_def example_worked_def by (auto intro: history_work)
qed

definition example_failed :: "(string, nat) R2000" where
  "example_failed =
     resolverHandler example_ptree_ops (\<lambda>_ _. False) 3 Network_Error [] (example_job 1)
       (example_asked\<lparr>r2_operations := []\<rparr>)"

lemma example_failed_step: "R2000_step example_ptree_ops (\<lambda>_ _. False) example_asked example_failed"
  using resolved [of example_asked "[]" "example_job 1" False "[]" Network_Error "[]" example_ptree_ops
      "\<lambda>_ _. False" True 3]
  by (simp add: example_failed_def example_asked_eq R2000_new_def)

lemma example_failed_run:
  "R2000_run example_ptree_ops (\<lambda>_ _. False) [example_job 1, example_job 2] example_failed"
  by (rule R2000_run.step [OF example_asked_run example_failed_step])

theorem commands_answered_once_witness:
  "mset [example_job 1, example_job 2] =
     mset (wk_localJobQueue (r2_worker example_failed) @ wk_jobs (r2_worker example_failed))
     + mset (map op_job (r2_operations example_failed)) + mset (map fst (r2_calls example_failed))"
  by (rule commands_answered_once [OF _ example_failed_run]) simp

text \<open>
  C14: With a device that answers, a client can be stuck in one way only. In every execution with
  callbacks that do not throw, there is a continuation, in which the device may have to answer, after
  which every accepted command has been answered, unless the io service task is out of \<open>run\<close>,
  the worker has no job left and an operation is in progress; and then there is none.
\<close>

theorem stuck_only_asleep:
  assumes "\<forall>cb a. \<not> throws cb a" and "R2000_run ops throws js r"
  shows "(\<exists>r'. (R2000_step ops throws)\<^sup>*\<^sup>* r r' \<and> mset (map fst (r2_calls r')) = mset js) \<longleftrightarrow>
    \<not> ((r2_io r = Returned \<or> r2_io r = Waiting) \<and> wk_localJobQueue (r2_worker r) = [] \<and> wk_jobs (r2_worker r) = [] \<and>
       r2_operations r \<noteq> [])"
proof -
  have accounts: "mset js = mset (wk_localJobQueue (r2_worker r') @ wk_jobs (r2_worker r')) + mset (map op_job (r2_operations r'))
      + mset (map fst (r2_calls r'))" if "(R2000_step ops throws)\<^sup>*\<^sup>* r r'" for r'
    using R2000_run_accounts [OF assms(1) run_steps [OF that assms(2)]]
    by (auto simp: R2000_accounts_def accounting Worker_accepted_def)
  have "\<exists>r'. (R2000_step ops throws)\<^sup>*\<^sup>* r r' \<and> mset (map fst (r2_calls r')) = mset js"
    if "\<not> (asleep r \<and> r2_operations r \<noteq> [])"
    using client_drains [OF assms that] accounts by (auto simp: worker_idle_def)
  moreover have "mset (map fst (r2_calls r')) \<noteq> mset js"
    if "asleep r" "r2_operations r \<noteq> []" "(R2000_step ops throws)\<^sup>*\<^sup>* r r'" for r'
    using asleep_steps [OF that(3,1)] accounts [OF that(3)] that(2) by simp
  ultimately show ?thesis unfolding asleep_def worker_idle_def by blast
qed

text \<open>The two commands above can be answered; the one whose notification is lost below cannot.\<close>

theorem stuck_only_asleep_witness:
  "\<exists>r'. (R2000_step example_ptree_ops (\<lambda>_ _. False))\<^sup>*\<^sup>* example_asked r' \<and>
     mset (map fst (r2_calls r')) = mset [example_job 1, example_job 2]"
  by (rule iffD2 [OF stuck_only_asleep [OF _ example_asked_run]]) (simp_all add: example_asked_eq R2000_new_def)

text \<open>
  C13: A client with nothing to do can complete a command. In every state of an execution in which no command is
  under way, the io service task has not ended and the client has found endpoints of the device or not yet
  asked for them (a failed resolution it has kept leaves it without any), a command whose callback does
  not throw on the answer the device gives to its request has a continuation in which it is accepted and
  its callback is called once, with that answer, after which the client has nothing to do again.
\<close>

theorem command_completes:
  assumes "R2000_run ops throws js r" and "ready endpoints r" and "endpoints \<noteq> []"
    and "HttpGet_socket ops socket (makeRequestFromParameters command parameters) = Inr answer"
    and "\<not> throws callable answer"
  shows "\<exists>j r'. j = \<lparr>jb_request = makeRequestFromParameters command parameters, jb_callable = callable, jb_timeout = timeout\<rparr> \<and>
    R2000_run ops throws (js @ [j]) r' \<and> r2_calls r' = r2_calls r @ [(j, answer)] \<and> ready endpoints r'"
proof -
  let ?j = "\<lparr>jb_request = makeRequestFromParameters command parameters, jb_callable = callable, jb_timeout = timeout\<rparr>"
  obtain r1 queued where sent: "asyncSendHttpCommand command parameters callable timeout r = (r1, queued)"
    by (cases "asyncSendHttpCommand command parameters callable timeout r")
  have "worker_serves r" using assms(1) by (rule worker_serves_run)
  from submitted_completes [where throws = throws and socket = socket, OF assms(2) this assms(3) sent assms(4,5)]
  obtain r' where "queued" and r': "(R2000_step ops throws)\<^sup>*\<^sup>* r1 r'" "ready endpoints r'"
    "r2_calls r' = r2_calls r @ [(?j, answer)]" by blast
  then have "R2000_run ops throws (js @ [?j]) r1" using submit [OF assms(1) sent] by simp
  with r' show ?thesis using run_steps by blast
qed

theorem command_completes_witness:
  "\<exists>r' :: (string, nat) R2000. R2000_run example_ptree_ops (\<lambda>_ _. False) [example_job 2] r' \<and>
     r2_calls r' = [(example_job 2, DeviceAnswer_with SUCCESS ''{}'')]"
proof -
  have "ready [7] (R2000_new :: (string, nat) R2000)"
    by (simp add: ready_def worker_idle_def R2000_new_def Worker_new_def)
  from command_completes [where ops = example_ptree_ops and throws = "\<lambda>_ _. False" and socket = "\<lambda>_. example_exchange"
      and command = "''list_parameters''" and parameters = "[]" and callable = 2 and timeout = 5000,
      OF start this _ example_answer]
  show ?thesis by (auto simp: example_job_def R2000_new_def)
qed

text \<open>
  C20: The callbacks are called for the ends of the operations and for nothing else. In every execution
  the calls made so far are, in this order, the ones its operations have called for as they ended: one
  with TIMEOUT for a resolution or a connection that ended aborted, one with FAILED for one that ended
  with a network error, none for a resolution that succeeded, and for a connection that succeeded one with
  the answer of the device, or with FAILED when the exchange throws, and a second one with FAILED when the
  callback throws on that answer. No other step of the worker, of the io service or of a user calls a
  callback.
\<close>

theorem calls_from_ends:
  assumes "R2000_history ops throws js ends r"
  shows "r2_calls r = concat (map (calls_of_end ops throws) ends)"
  using assms
proof induction
  case history_start
  show ?case by (simp add: R2000_new_def)
next
  case (history_work js ends r now)
  then show ?case by (simp add: worker_makes_no_call)
next
  case (history_resolved js ends r before j c after error endpoints now)
  then show ?case by (simp add: resolver_calls)
next
  case (history_connected js ends r before j endpoints c after error socket)
  then show ?case by (simp add: connection_calls)
next
  case (history_submit js ends r command parameters callable timeout r' queued)
  then show ?case by (auto simp: asyncSendHttpCommand_def Let_def split: prod.splits)
qed (simp_all add: deadline_defs submission_defs ioServiceTask_run_returns_def ioServiceTask_wait_def)

text \<open>The first of the two commands above ends with a network error; nothing is reported as a time-out.\<close>

theorem calls_from_ends_witness:
  "r2_calls example_failed = [(example_job 1, DeviceAnswer_of example_ptree_ops FAILED)]"
proof -
  have "R2000_history example_ptree_ops (\<lambda>_ _. False) [example_job 1, example_job 2] [] example_asked"
    by (rule example_asked_history)
  from history_resolved [OF this, of "[]" "example_job 1" False "[]" Network_Error "[]" 3]
  have "R2000_history example_ptree_ops (\<lambda>_ _. False) [example_job 1, example_job 2]
      [Resolution_Ended (example_job 1) Network_Error] example_failed"
    by (simp add: example_failed_def example_asked_eq R2000_new_def)
  from calls_from_ends [OF this] show ?thesis by simp
qed


text \<open>The resolution for the first command succeeds; then the worker runs the second.\<close>

definition example_connecting :: "(string, nat) R2000" where
  "example_connecting =
     resolverHandler example_ptree_ops (\<lambda>_ _. False) 3 No_Error [7] (example_job 1)
       (example_asked\<lparr>r2_operations := []\<rparr>)"

lemma example_connecting_run:
  "R2000_run example_ptree_ops (\<lambda>_ _. False) [example_job 1, example_job 2] example_connecting"
proof (rule R2000_run.step [OF example_asked_run])
  show "R2000_step example_ptree_ops (\<lambda>_ _. False) example_asked example_connecting"
    using resolved [of example_asked "[]" "example_job 1" False "[]" No_Error "[7]" example_ptree_ops
        "\<lambda>_ _. False" True 3]
    by (simp add: example_connecting_def example_asked_eq R2000_new_def)
qed


text \<open>
  C39: A resolution that fails is kept as the list of the endpoints of the device: from then on, with
  no other operation in progress, whatever is submitted and however the network recovers, no command
  succeeds, and the address is not resolved again.
\<close>

theorem failed_resolution_final:
  assumes "r2_operations r = []"
    and "error \<noteq> No_Error"
    and "(R2000_move ops throws)\<^sup>*\<^sup>* (resolverHandler ops throws now error [] j r) r'"
  shows "r2_deviceEndpoints r' = Some [] \<and>
    (\<exists>later. r2_calls r' = r2_calls r @ later \<and>
       (\<forall>(job, answer) \<in> set later. da_requestResult answer \<in> {FAILED, TIMEOUT}))"
proof -
  let ?s = "resolverHandler ops throws now error [] j r"
  have "no_endpoints ?s" "only_failures r ?s"
    using assms(1,2) failed_call_of [of j ops]
    by (cases error; simp add: resolverHandler_def onEndpointResolutionAttemptCompleted_def
        no_endpoints_def only_failures_def invoke_defs)+
  with assms(3) have "no_endpoints r' \<and> only_failures r r'"
  proof (induction rule: rtranclp_induct)
    case (step y z)
    then show ?case using no_endpoints_move only_failures_trans by blast
  qed simp
  then show ?thesis
    by (auto simp: no_endpoints_def only_failures_def failed_call_def split_beta)
qed

definition example_retried :: "(string, nat) R2000" where
  "example_retried = example_worked example_failed"

theorem failed_resolution_final_witness:
  "r2_deviceEndpoints example_retried = Some []"
proof -
  have "(R2000_move example_ptree_ops (\<lambda>_ _. False))\<^sup>*\<^sup>*
      (resolverHandler example_ptree_ops (\<lambda>_ _. False) 3 Network_Error [] (example_job 1)
        (example_asked\<lparr>r2_operations := []\<rparr>)) example_retried"
    using work [of example_ptree_ops "\<lambda>_ _. False" True example_failed 0]
    unfolding example_retried_def example_worked_def example_failed_def R2000_move_def by blast
  from failed_resolution_final [OF _ _ this] show ?thesis by simp
qed

text \<open>
  A notification that reaches the task of the io service between \<open>run\<close> and its wait is lost. With
  the task waiting and no other job for the worker, an operation that was submitted meanwhile never
  completes and its callback is never called, not even when its deadline has passed.
\<close>

theorem notification_lost:
  assumes "r2_io r = Waiting" and "wk_localJobQueue (r2_worker r) = []" and "wk_jobs (r2_worker r) = []"
    and "(R2000_step ops throws)\<^sup>*\<^sup>* r r'"
  shows "r2_operations r' = r2_operations r \<and> r2_calls r' = r2_calls r \<and> r2_io r' = Waiting"
  using asleep_steps [OF assms(4)] assms(1-3) by (simp add: asleep_def worker_idle_def)

definition example_lost :: "(string, nat) R2000" where
  "example_lost =
     ioServiceTask_wait (example_worked (example_worked (example_submit 1 (ioServiceTask_run_returns R2000_new))))"

lemma example_lost_eq:
  "example_lost =
     R2000_new\<lparr>r2_worker := (Worker_new (- 1))\<lparr>wk_executed := [example_job 1]\<rparr>,
               r2_operations := [Resolve (example_job 1) False], r2_resolverDeadline := 5000, r2_io := Waiting\<rparr>"
  by (simp add: example_lost_def ioServiceTask_wait_def ioServiceTask_run_returns_def example_steps R2000_new_def
      Worker_new_def asyncWorkerJob_def submission_defs)

lemma example_lost_run: "R2000_run example_ptree_ops (\<lambda>_ _. False) [example_job 1] example_lost"
proof -
  have "R2000_run example_ptree_ops (\<lambda>_ _. False) [] (ioServiceTask_run_returns R2000_new)"
    by (rule R2000_run.step [OF start run_returns])
  then have "R2000_run example_ptree_ops (\<lambda>_ _. False) ([] @ [example_job 1])
      (example_submit 1 (ioServiceTask_run_returns R2000_new))"
    by (rule example_submit_run) (simp add: ioServiceTask_run_returns_def R2000_new_def Worker_new_def)
  then have "R2000_run example_ptree_ops (\<lambda>_ _. False) [example_job 1]
      (example_worked (example_worked (example_submit 1 (ioServiceTask_run_returns R2000_new))))"
    by (simp add: example_worked_run)
  then show ?thesis unfolding example_lost_def by (rule R2000_run.step) (rule R2000_client_step.wait)
qed

theorem notification_lost_witness:
  "R2000_run example_ptree_ops (\<lambda>_ _. False) [example_job 1] example_lost \<and>
   r2_operations (example_worked example_lost) = [Resolve (example_job 1) False] \<and>
   r2_calls (example_worked example_lost) = []"
proof -
  have "(R2000_step example_ptree_ops (\<lambda>_ _. False))\<^sup>*\<^sup>* example_lost (example_worked example_lost)"
    unfolding example_worked_def by (rule r_into_rtranclp) (rule work)
  from notification_lost [OF _ _ _ this] show ?thesis
    using example_lost_run by (simp add: example_lost_eq R2000_new_def Worker_new_def)
qed

text \<open>
  Destroying a client whose io service task is in \<open>run\<close> may never end: when the notification of the
  destructor comes before the task waits, and the worker has no job left, the task never ends, and
  the destructor waits for its end.
\<close>

theorem destruction_hangs:
  assumes "r2_io r = Running" and "wk_localJobQueue (r2_worker r) = []" and "wk_jobs (r2_worker r) = []"
    and "(R2000_step ops throws)\<^sup>*\<^sup>* (R2000_destroy_notify (R2000_destroy_stop r)) r'"
  shows "r2_io r' \<noteq> Ended"
proof -
  have "asleep (R2000_destroy_notify (R2000_destroy_stop r))"
    using assms(1-3)
    by (simp add: R2000_destroy_notify_def R2000_destroy_stop_def Let_def submission_defs asleep_def worker_idle_def)
  from asleep_steps [OF assms(4) this] show ?thesis by (auto simp: asleep_def)
qed

theorem destruction_hangs_witness:
  "r2_io (ioServiceTask_wait (R2000_destroy_notify (R2000_destroy_stop (R2000_new :: (string, nat) R2000)))) \<noteq> Ended"
proof -
  let ?r = "R2000_destroy_notify (R2000_destroy_stop (R2000_new :: (string, nat) R2000))"
  have "(R2000_step example_ptree_ops (\<lambda>_ _. False))\<^sup>*\<^sup>* ?r (ioServiceTask_wait ?r)"
    by (rule r_into_rtranclp) (rule R2000_client_step.wait)
  from destruction_hangs [OF _ _ _ this] show ?thesis by (simp add: R2000_new_def Worker_new_def)
qed

end
