(* ===== verification/Device_Commands.thy ===== *)
theory Device_Commands
  imports Command_Answers R2000_Executions
begin

text \<open>
  The commands (\<open>include/Control/Commands.hpp\<close>). \<open>X_execute\<close> is the blocking command; its argument \<open>send\<close>
  is \<open>sendHttpCommand\<close> of the device. \<open>X_asyncExecute\<close> submits the asynchronous command of both
  overloads, the future and the callable, and \<open>X_onComplete\<close> is the value that the completion gives to
  either of them; \<open>Inl\<close> is an exception thrown on the way. The members that C++ cannot instantiate are
  left out; the header of the development lists them.
\<close>

type_synonym 'tree sender = "string \<Rightarrow> ParametersMap \<Rightarrow> 'tree DeviceAnswer result"

section \<open>Protocol information\<close>

type_synonym protocol_info = "RequestResult \<times> ParametersMap \<times> ParametersList"

definition GetProtocolInfo_execute :: "'tree ptree_ops \<Rightarrow> 'tree sender \<Rightarrow> protocol_info result" where
  "GetProtocolInfo_execute ops send =
     bind_result (send COMMAND_GET_PROTOCOL_INFO []) (\<lambda>deviceAnswer.
       if \<not> DeviceAnswer_bool deviceAnswer then Inr (da_requestResult deviceAnswer, [], [])
       else bind_result (extractInfoFromPropertyTree ops (da_propertyTree deviceAnswer)) (\<lambda>(info, commands).
         Inr (da_requestResult deviceAnswer, info, commands)))"

definition GetProtocolInfo_onComplete ::
  "'tree ptree_ops \<Rightarrow> 'tree DeviceAnswer \<Rightarrow> protocol_info result" where
  "GetProtocolInfo_onComplete ops res =
     (if \<not> DeviceAnswer_bool res then Inr (da_requestResult res, [], [])
      else bind_result (extractInfoFromPropertyTree ops (da_propertyTree res)) (\<lambda>(info, commands).
        Inr (da_requestResult res, info, commands)))"

definition GetProtocolInfo_asyncExecute ::
  "int \<Rightarrow> nat \<Rightarrow> ('tree, 'ep) R2000 \<Rightarrow> ('tree, 'ep) R2000 \<times> bool" where
  "GetProtocolInfo_asyncExecute timeout callable device =
     asyncSendHttpCommand COMMAND_GET_PROTOCOL_INFO [] callable timeout device"

section \<open>Protocol version\<close>

definition GetProtocolVersion_execute ::
  "'tree ptree_ops \<Rightarrow> 'tree sender \<Rightarrow> (RequestResult \<times> PFSDP) result" where
  "GetProtocolVersion_execute ops send =
     bind_result (GetProtocolInfo_execute ops send) (\<lambda>(requestResult, parameters, ignore).
       if requestResult = SUCCESS then Inr (requestResult, PFSDP_UNKNOWN)
       else bind_result (pm_at parameters PARAMETER_PROTOCOL_VERSION_MAJOR) (\<lambda>major.
            bind_result (pm_at parameters PARAMETER_PROTOCOL_VERSION_MINOR) (\<lambda>minor.
            bind_result (protocolVersionFromString major minor) (\<lambda>version.
              Inr (requestResult, version)))))"

text \<open>The completion of the information command, followed by that of the version command.\<close>

definition GetProtocolVersion_onComplete ::
  "'tree ptree_ops \<Rightarrow> 'tree DeviceAnswer \<Rightarrow> (RequestResult \<times> PFSDP) result" where
  "GetProtocolVersion_onComplete ops res =
     bind_result (GetProtocolInfo_onComplete ops res) (\<lambda>(requestResult, parameters, ignore).
       if requestResult \<noteq> SUCCESS then Inr (requestResult, PFSDP_UNKNOWN)
       else bind_result (pm_at parameters PARAMETER_PROTOCOL_VERSION_MAJOR) (\<lambda>major.
            bind_result (pm_at parameters PARAMETER_PROTOCOL_VERSION_MINOR) (\<lambda>minor.
            bind_result (protocolVersionFromString major minor) (\<lambda>version.
              Inr (requestResult, version)))))"

definition GetProtocolVersion_asyncExecute ::
  "int \<Rightarrow> nat \<Rightarrow> ('tree, 'ep) R2000 \<Rightarrow> ('tree, 'ep) R2000 \<times> bool" where
  "GetProtocolVersion_asyncExecute timeout callable device =
     GetProtocolInfo_asyncExecute timeout callable device"

text \<open>
  The overload that returns a future waits in a task of its own for the information command: \<open>None\<close>
  stands for a command that could not be submitted.
\<close>

definition GetProtocolVersion_asyncResult ::
  "protocol_info option \<Rightarrow> (RequestResult \<times> PFSDP) result" where
  "GetProtocolVersion_asyncResult future =
     (case future of
        None \<Rightarrow> Inr (FAILED, PFSDP_UNKNOWN)
      | Some (requestResult, parameters, ignore) \<Rightarrow>
          if requestResult \<noteq> SUCCESS then Inr (requestResult, PFSDP_UNKNOWN)
          else bind_result (pm_at parameters PARAMETER_PROTOCOL_VERSION_MAJOR) (\<lambda>major.
               bind_result (pm_at parameters PARAMETER_PROTOCOL_VERSION_MINOR) (\<lambda>minor.
               bind_result (protocolVersionFromString major minor) (\<lambda>version.
                 Inr (requestResult, version)))))"

section \<open>Handles\<close>

text \<open>The completions that give the result of the request alone.\<close>

definition ReleaseHandle_onComplete :: "'tree DeviceAnswer \<Rightarrow> RequestResult result" where
  "ReleaseHandle_onComplete res = Inr (da_requestResult res)"

definition ReleaseHandle_asyncExecute ::
  "string \<Rightarrow> int \<Rightarrow> nat \<Rightarrow> ('tree, 'ep) R2000 \<Rightarrow> ('tree, 'ep) R2000 \<times> bool" where
  "ReleaseHandle_asyncExecute handle timeout callable device =
     asyncSendHttpCommand COMMAND_RELEASE_HANDLE [(PARAMETER_NAME_HANDLE, handle)] callable timeout device"

definition StartScanOutput_onComplete :: "'tree DeviceAnswer \<Rightarrow> RequestResult result" where
  "StartScanOutput_onComplete res = Inr (da_requestResult res)"

definition StartScanOutput_asyncExecute ::
  "string \<Rightarrow> int \<Rightarrow> nat \<Rightarrow> ('tree, 'ep) R2000 \<Rightarrow> ('tree, 'ep) R2000 \<times> bool" where
  "StartScanOutput_asyncExecute handle timeout callable device =
     asyncSendHttpCommand COMMAND_START_SCAN_OUTPUT [(PARAMETER_NAME_HANDLE, handle)] callable timeout device"

definition StopScanOutput_onComplete :: "'tree DeviceAnswer \<Rightarrow> RequestResult result" where
  "StopScanOutput_onComplete res = Inr (da_requestResult res)"

definition StopScanOutput_asyncExecute ::
  "string \<Rightarrow> int \<Rightarrow> nat \<Rightarrow> ('tree, 'ep) R2000 \<Rightarrow> ('tree, 'ep) R2000 \<times> bool" where
  "StopScanOutput_asyncExecute handle timeout callable device =
     asyncSendHttpCommand COMMAND_STOP_SCAN_OUTPUT [(PARAMETER_NAME_HANDLE, handle)] callable timeout device"

definition FeedWatchdog_onComplete :: "'tree DeviceAnswer \<Rightarrow> RequestResult result" where
  "FeedWatchdog_onComplete res = Inr (da_requestResult res)"

definition FeedWatchdog_asyncExecute ::
  "string \<Rightarrow> int \<Rightarrow> nat \<Rightarrow> ('tree, 'ep) R2000 \<Rightarrow> ('tree, 'ep) R2000 \<times> bool" where
  "FeedWatchdog_asyncExecute handle timeout callable device =
     asyncSendHttpCommand COMMAND_FEED_WATCHDOG [(PARAMETER_NAME_HANDLE, handle)] callable timeout device"

text \<open>
  The blocking commands over several handles, one after the other, from left to right
  (\<open>RecursiveExecutorHelper\<close>). The members read \<open>value\<close> of a handle, which is private in
  \<open>DeviceHandle\<close>: they can be instantiated for a derived class with a member of this name. A handle is
  given here by its value. An exception of a request leaves the command, with the results so far.
\<close>

fun RecursiveExecutorHelper_resolve :: "('b \<Rightarrow> 's \<Rightarrow> 's result) \<Rightarrow> 'b list \<Rightarrow> 's \<Rightarrow> 's result" where
  "RecursiveExecutorHelper_resolve fn [] s = Inr s"
| "RecursiveExecutorHelper_resolve fn (builder # args) s =
     bind_result (fn builder s) (RecursiveExecutorHelper_resolve fn args)"

definition ReleaseHandle_execute :: "'tree sender \<Rightarrow> string list \<Rightarrow> RequestResult list result" where
  "ReleaseHandle_execute send handles =
     RecursiveExecutorHelper_resolve
       (\<lambda>handle requestResults.
          bind_result (send COMMAND_RELEASE_HANDLE [(PARAMETER_NAME_HANDLE, handle)]) (\<lambda>deviceAnswer.
            Inr (requestResults @ [da_requestResult deviceAnswer])))
       handles []"

definition StartScanOutput_execute :: "'tree sender \<Rightarrow> string list \<Rightarrow> RequestResult list result" where
  "StartScanOutput_execute send handles =
     RecursiveExecutorHelper_resolve
       (\<lambda>handle requestResults.
          bind_result (send COMMAND_START_SCAN_OUTPUT [(PARAMETER_NAME_HANDLE, handle)]) (\<lambda>deviceAnswer.
            Inr (requestResults @ [da_requestResult deviceAnswer])))
       handles []"

definition StopScanOutput_execute :: "'tree sender \<Rightarrow> string list \<Rightarrow> RequestResult list result" where
  "StopScanOutput_execute send handles =
     RecursiveExecutorHelper_resolve
       (\<lambda>handle requestResults.
          bind_result (send COMMAND_STOP_SCAN_OUTPUT [(PARAMETER_NAME_HANDLE, handle)]) (\<lambda>deviceAnswer.
            Inr (requestResults @ [da_requestResult deviceAnswer])))
       handles []"

definition FeedWatchdog_execute :: "'tree sender \<Rightarrow> string list \<Rightarrow> RequestResult list result" where
  "FeedWatchdog_execute send handles =
     RecursiveExecutorHelper_resolve
       (\<lambda>handle requestResults.
          bind_result (send COMMAND_FEED_WATCHDOG [(PARAMETER_NAME_HANDLE, handle)]) (\<lambda>deviceAnswer.
            Inr (requestResults @ [da_requestResult deviceAnswer])))
       handles []"

section \<open>Parameters\<close>

definition GetParameters_onComplete ::
  "'tree ptree_ops \<Rightarrow> ParametersList \<Rightarrow> 'tree DeviceAnswer \<Rightarrow> (RequestResult \<times> ParametersMap) result" where
  "GetParameters_onComplete ops parameters res =
     (if \<not> DeviceAnswer_bool res then Inr (da_requestResult res, [])
      else Inr (da_requestResult res, extractParametersValues ops parameters (da_propertyTree res)))"

text \<open>With the names that the completion will look for.\<close>

definition GetParameters_asyncExecute ::
  "ParametersList list \<Rightarrow> int \<Rightarrow> nat \<Rightarrow> ('tree, 'ep) R2000
   \<Rightarrow> (ParametersList \<times> ('tree, 'ep) R2000 \<times> bool) result" where
  "GetParameters_asyncExecute builders timeout callable device =
     bind_result (chainAndConvertParametersToString builders) (\<lambda>(chain, parameters).
       Inr (parameters,
         asyncSendHttpCommand COMMAND_GET_PARAMETER [(PARAMETER_NAME_LIST, chain)] callable timeout device))"

definition SetParameters_execute :: "'tree sender \<Rightarrow> ParametersMap list \<Rightarrow> RequestResult result" where
  "SetParameters_execute send builders =
     bind_result (send COMMAND_SET_PARAMETER (ParametersChaining_map builders [])) (\<lambda>deviceAnswer.
       Inr (da_requestResult deviceAnswer))"

definition SetParameters_onComplete :: "'tree DeviceAnswer \<Rightarrow> RequestResult result" where
  "SetParameters_onComplete res = Inr (da_requestResult res)"

definition SetParameters_asyncExecute ::
  "ParametersMap list \<Rightarrow> int \<Rightarrow> nat \<Rightarrow> ('tree, 'ep) R2000 \<Rightarrow> ('tree, 'ep) R2000 \<times> bool" where
  "SetParameters_asyncExecute builders timeout callable device =
     asyncSendHttpCommand COMMAND_SET_PARAMETER (ParametersChaining_map builders []) callable timeout device"

text \<open>The overload with a callable takes one builder.\<close>

definition SetParameters_asyncExecute_one ::
  "ParametersMap \<Rightarrow> int \<Rightarrow> nat \<Rightarrow> ('tree, 'ep) R2000 \<Rightarrow> ('tree, 'ep) R2000 \<times> bool" where
  "SetParameters_asyncExecute_one parameters timeout callable device =
     asyncSendHttpCommand COMMAND_SET_PARAMETER parameters callable timeout device"

definition FetchParameterList_execute ::
  "'tree ptree_ops \<Rightarrow> 'tree sender \<Rightarrow> (RequestResult \<times> ParametersList) result" where
  "FetchParameterList_execute ops send =
     bind_result (send COMMAND_LIST_PARAMETERS []) (\<lambda>deviceAnswer.
       if \<not> DeviceAnswer_bool deviceAnswer then Inr (da_requestResult deviceAnswer, [])
       else bind_result (extractParametersFromPropertyTree ops (da_propertyTree deviceAnswer)) (\<lambda>parameters.
         Inr (da_requestResult deviceAnswer, parameters)))"

definition FetchParameterList_onComplete ::
  "'tree ptree_ops \<Rightarrow> 'tree DeviceAnswer \<Rightarrow> (RequestResult \<times> ParametersList) result" where
  "FetchParameterList_onComplete ops res =
     (if \<not> DeviceAnswer_bool res then Inr (da_requestResult res, [])
      else bind_result (extractParametersFromPropertyTree ops (da_propertyTree res)) (\<lambda>parameters.
        Inr (da_requestResult res, parameters)))"

definition FetchParameterList_asyncExecute ::
  "int \<Rightarrow> nat \<Rightarrow> ('tree, 'ep) R2000 \<Rightarrow> ('tree, 'ep) R2000 \<times> bool" where
  "FetchParameterList_asyncExecute timeout callable device =
     asyncSendHttpCommand COMMAND_LIST_PARAMETERS [] callable timeout device"

section \<open>The device\<close>

definition FactoryResetDevice_execute :: "'tree sender \<Rightarrow> RequestResult result" where
  "FactoryResetDevice_execute send =
     bind_result (send COMMAND_FACTORY_RESET []) (\<lambda>deviceAnswer. Inr (da_requestResult deviceAnswer))"

definition FactoryResetDevice_onComplete :: "'tree DeviceAnswer \<Rightarrow> RequestResult result" where
  "FactoryResetDevice_onComplete res = Inr (da_requestResult res)"

definition FactoryResetDevice_asyncExecute ::
  "int \<Rightarrow> nat \<Rightarrow> ('tree, 'ep) R2000 \<Rightarrow> ('tree, 'ep) R2000 \<times> bool" where
  "FactoryResetDevice_asyncExecute timeout callable device =
     asyncSendHttpCommand COMMAND_FACTORY_RESET [] callable timeout device"

definition RebootDevice_execute :: "'tree sender \<Rightarrow> RequestResult result" where
  "RebootDevice_execute send =
     bind_result (send COMMAND_REBOOT_DEVICE []) (\<lambda>deviceAnswer. Inr (da_requestResult deviceAnswer))"

definition RebootDevice_onComplete :: "'tree DeviceAnswer \<Rightarrow> RequestResult result" where
  "RebootDevice_onComplete res = Inr (da_requestResult res)"

definition RebootDevice_asyncExecute ::
  "int \<Rightarrow> nat \<Rightarrow> ('tree, 'ep) R2000 \<Rightarrow> ('tree, 'ep) R2000 \<times> bool" where
  "RebootDevice_asyncExecute timeout callable device =
     asyncSendHttpCommand COMMAND_REBOOT_DEVICE [] callable timeout device"

section \<open>Requesting a handle\<close>

text \<open>The builder is given by the parameters its \<open>build\<close> returns.\<close>

definition RequestTcpHandle_execute ::
  "'tree ptree_ops \<Rightarrow> 'tree sender \<Rightarrow> ParametersMap \<Rightarrow> (RequestResult \<times> int \<times> string) result" where
  "RequestTcpHandle_execute ops send parameters =
     bind_result (send COMMAND_REQUEST_TCP_HANDLE parameters) (\<lambda>deviceAnswer.
       if \<not> DeviceAnswer_bool deviceAnswer then Inr (da_requestResult deviceAnswer, 0, [])
       else bind_result (extractTcpHandleInfo ops (da_propertyTree deviceAnswer)) (\<lambda>(port, handle).
         Inr (da_requestResult deviceAnswer, port, handle)))"

definition RequestTcpHandle_onComplete ::
  "'tree ptree_ops \<Rightarrow> 'tree DeviceAnswer \<Rightarrow> (RequestResult \<times> int \<times> string) result" where
  "RequestTcpHandle_onComplete ops res =
     (if \<not> DeviceAnswer_bool res then Inr (da_requestResult res, 0, [])
      else bind_result (extractTcpHandleInfo ops (da_propertyTree res)) (\<lambda>(port, handle).
        Inr (da_requestResult res, port, handle)))"

definition RequestTcpHandle_asyncExecute ::
  "ParametersMap \<Rightarrow> int \<Rightarrow> nat \<Rightarrow> ('tree, 'ep) R2000 \<Rightarrow> ('tree, 'ep) R2000 \<times> bool" where
  "RequestTcpHandle_asyncExecute parameters timeout callable device =
     asyncSendHttpCommand COMMAND_REQUEST_TCP_HANDLE parameters callable timeout device"

definition RequestUdpHandle_execute ::
  "'tree ptree_ops \<Rightarrow> 'tree sender \<Rightarrow> ParametersMap \<Rightarrow> (RequestResult \<times> string) result" where
  "RequestUdpHandle_execute ops send parameters =
     bind_result (send COMMAND_REQUEST_UDP_HANDLE parameters) (\<lambda>deviceAnswer.
       if \<not> DeviceAnswer_bool deviceAnswer then Inr (da_requestResult deviceAnswer, [])
       else bind_result (extractUdpHandleInfo ops (da_propertyTree deviceAnswer)) (\<lambda>handle.
         Inr (da_requestResult deviceAnswer, handle)))"

definition RequestUdpHandle_onComplete ::
  "'tree ptree_ops \<Rightarrow> 'tree DeviceAnswer \<Rightarrow> (RequestResult \<times> string) result" where
  "RequestUdpHandle_onComplete ops res =
     (if \<not> DeviceAnswer_bool res then Inr (da_requestResult res, [])
      else bind_result (extractUdpHandleInfo ops (da_propertyTree res)) (\<lambda>handle.
        Inr (da_requestResult res, handle)))"

definition RequestUdpHandle_asyncExecute ::
  "ParametersMap \<Rightarrow> int \<Rightarrow> nat \<Rightarrow> ('tree, 'ep) R2000 \<Rightarrow> ('tree, 'ep) R2000 \<times> bool" where
  "RequestUdpHandle_asyncExecute parameters timeout callable device =
     asyncSendHttpCommand COMMAND_REQUEST_UDP_HANDLE parameters callable timeout device"

section \<open>The configuration of a stream\<close>

definition GetScanOutputConfig_onComplete ::
  "'tree ptree_ops \<Rightarrow> 'tree DeviceAnswer \<Rightarrow> (RequestResult \<times> ParametersMap option) result" where
  "GetScanOutputConfig_onComplete ops res =
     (if \<not> DeviceAnswer_bool res then Inr (da_requestResult res, None)
      else bind_result (getScanOutputConfig ops (da_propertyTree res)) (\<lambda>config.
        Inr (da_requestResult res, Some config)))"

definition GetScanOutputConfig_asyncExecute ::
  "string \<Rightarrow> int \<Rightarrow> nat \<Rightarrow> ('tree, 'ep) R2000 \<Rightarrow> ('tree, 'ep) R2000 \<times> bool" where
  "GetScanOutputConfig_asyncExecute handle timeout callable device =
     asyncSendHttpCommand COMMAND_GET_SCAN_OUTPUT_CONFIG [(PARAMETER_NAME_HANDLE, handle)] callable timeout device"

definition SetScanOutputConfig_onComplete :: "'tree DeviceAnswer \<Rightarrow> RequestResult result" where
  "SetScanOutputConfig_onComplete res = Inr (da_requestResult res)"

definition SetScanOutputConfig_asyncExecute ::
  "ParametersMap \<Rightarrow> int \<Rightarrow> nat \<Rightarrow> ('tree, 'ep) R2000 \<Rightarrow> ('tree, 'ep) R2000 \<times> bool" where
  "SetScanOutputConfig_asyncExecute parameters timeout callable device =
     asyncSendHttpCommand COMMAND_SET_SCAN_OUTPUT_CONFIG parameters callable timeout device"

section \<open>Commands over several handles\<close>

lemma resolve_results:
  assumes "\<forall>handle \<in> set handles. send command [(PARAMETER_NAME_HANDLE, handle)] = Inr (answer handle)"
  shows "RecursiveExecutorHelper_resolve
      (\<lambda>handle requestResults.
         bind_result (send command [(PARAMETER_NAME_HANDLE, handle)]) (\<lambda>deviceAnswer.
           Inr (requestResults @ [da_requestResult deviceAnswer])))
      handles results = Inr (results @ map (\<lambda>handle. da_requestResult (answer handle)) handles)"
  using assms by (induction handles arbitrary: results) simp_all

text \<open>When every request is answered, the results are those of the answers, in the order of the handles.\<close>

lemma execute_results:
  "\<forall>handle \<in> set handles. send COMMAND_RELEASE_HANDLE [(PARAMETER_NAME_HANDLE, handle)] = Inr (answer handle) \<Longrightarrow>
   ReleaseHandle_execute send handles = Inr (map (\<lambda>handle. da_requestResult (answer handle)) handles)"
  "\<forall>handle \<in> set handles. send COMMAND_START_SCAN_OUTPUT [(PARAMETER_NAME_HANDLE, handle)] = Inr (answer handle) \<Longrightarrow>
   StartScanOutput_execute send handles = Inr (map (\<lambda>handle. da_requestResult (answer handle)) handles)"
  "\<forall>handle \<in> set handles. send COMMAND_STOP_SCAN_OUTPUT [(PARAMETER_NAME_HANDLE, handle)] = Inr (answer handle) \<Longrightarrow>
   StopScanOutput_execute send handles = Inr (map (\<lambda>handle. da_requestResult (answer handle)) handles)"
  "\<forall>handle \<in> set handles. send COMMAND_FEED_WATCHDOG [(PARAMETER_NAME_HANDLE, handle)] = Inr (answer handle) \<Longrightarrow>
   FeedWatchdog_execute send handles = Inr (map (\<lambda>handle. da_requestResult (answer handle)) handles)"
  unfolding ReleaseHandle_execute_def StartScanOutput_execute_def StopScanOutput_execute_def FeedWatchdog_execute_def
  by (drule resolve_results [where results = "[]"], simp only: append_Nil)+

section \<open>What all commands share\<close>

text \<open>
  A completion gives the result of a request that failed as it is, and may throw only on an answer
  that reports success. This is what the handler of the client needs to call it back safely.
\<close>

locale device_command =
  fixes complete :: "'tree DeviceAnswer \<Rightarrow> 'r result"
    and failure :: "RequestResult \<Rightarrow> 'r"
  assumes complete_failed:
    "da_requestResult answer \<noteq> SUCCESS \<Longrightarrow> complete answer = Inr (failure (da_requestResult answer))"
begin

lemma complete_of [simp]: "res \<noteq> SUCCESS \<Longrightarrow> complete (DeviceAnswer_of ops res) = Inr (failure res)"
  by (simp add: complete_failed DeviceAnswer_of_def)

text \<open>The values that a list of calls gives to the caller.\<close>

definition values_given :: "'tree DeviceAnswer list \<Rightarrow> 'r list" where
  "values_given answers = concat (map (\<lambda>a. case complete a of Inl _ \<Rightarrow> [] | Inr v \<Rightarrow> [v]) answers)"

lemma values_given_simps [simp]:
  "values_given [] = []"
  "values_given (a # answers) = (case complete a of Inl _ \<Rightarrow> [] | Inr v \<Rightarrow> [v]) @ values_given answers"
  by (simp_all add: values_given_def)

text \<open>The value of the blocking command, where it has one, and a failure otherwise.\<close>

definition settled :: "error_code \<Rightarrow> 'tree DeviceAnswer result \<Rightarrow> 'r" where
  "settled error http =
     (case error of
        No_Error \<Rightarrow> (case bind_result http complete of Inl _ \<Rightarrow> failure FAILED | Inr v \<Rightarrow> v)
      | Operation_Aborted \<Rightarrow> failure TIMEOUT
      | Network_Error \<Rightarrow> failure FAILED)"

lemma connection_settles:
  assumes "\<forall>a. throws (jb_callable j) a \<longleftrightarrow> (\<exists>e. complete a = Inl e)"
  shows "\<exists>answers.
    r2_calls (onSocketConnectionAttemptCompleted ops throws error socket j r) = r2_calls r @ map (Pair j) answers \<and>
    values_given answers = [settled error (HttpGet_socket ops socket (jb_request j))] \<and>
    r2_io (onSocketConnectionAttemptCompleted ops throws error socket j r) = r2_io r"
proof -
  have quiet: "\<not> throws (jb_callable j) (DeviceAnswer_of ops res)" if "res \<noteq> SUCCESS" for res
    using assms that by simp
  have one: ?thesis
    if "onSocketConnectionAttemptCompleted ops throws error socket j r = invoke j a r"
      and "complete a = Inr (settled error (HttpGet_socket ops socket (jb_request j)))" for a
    using that by (intro exI [of _ "[a]"]) (simp add: invoke_def)
  show ?thesis
  proof (cases error)
    case No_Error
    note error = this
    show ?thesis
    proof (cases "HttpGet_socket ops socket (jb_request j)")
      case (Inl e)
      show ?thesis
        by (rule one [of "DeviceAnswer_of ops FAILED"])
          (simp_all add: onSocketConnectionAttemptCompleted_def error Inl invoke_uncaught_def quiet settled_def)
    next
      case (Inr a)
      show ?thesis
      proof (cases "complete a")
        case (Inl e)
        with assms have "throws (jb_callable j) a" by blast
        with Inl show ?thesis
          by (intro exI [of _ "[a, DeviceAnswer_of ops FAILED]"])
            (simp add: onSocketConnectionAttemptCompleted_def error Inr invoke_def invoke_uncaught_def quiet
              settled_def Let_def)
      next
        case given: (Inr v)
        with assms have "\<not> throws (jb_callable j) a" by simp
        with given show ?thesis
          by (intro one [of a]) (simp_all add: onSocketConnectionAttemptCompleted_def error Inr settled_def Let_def)
      qed
    qed
  next
    case Operation_Aborted
    show ?thesis
      by (rule one [of "DeviceAnswer_of ops TIMEOUT"])
        (simp_all add: onSocketConnectionAttemptCompleted_def Operation_Aborted invoke_uncaught_def quiet settled_def)
  next
    case Network_Error
    show ?thesis
      by (rule one [of "DeviceAnswer_of ops FAILED"])
        (simp_all add: onSocketConnectionAttemptCompleted_def Network_Error invoke_uncaught_def quiet settled_def)
  qed
qed

end

text \<open>Every completion keeps the contract.\<close>

lemmas onComplete_defs =
  GetProtocolInfo_onComplete_def GetProtocolVersion_onComplete_def ReleaseHandle_onComplete_def
  StartScanOutput_onComplete_def StopScanOutput_onComplete_def FeedWatchdog_onComplete_def
  GetParameters_onComplete_def SetParameters_onComplete_def FetchParameterList_onComplete_def
  FactoryResetDevice_onComplete_def RebootDevice_onComplete_def RequestTcpHandle_onComplete_def
  RequestUdpHandle_onComplete_def GetScanOutputConfig_onComplete_def SetScanOutputConfig_onComplete_def

interpretation get_protocol_info: device_command "GetProtocolInfo_onComplete ops" "\<lambda>res. (res, [], [])"
  by unfold_locales (simp add: onComplete_defs DeviceAnswer_bool_def)

interpretation get_protocol_version: device_command "GetProtocolVersion_onComplete ops" "\<lambda>res. (res, PFSDP_UNKNOWN)"
  by unfold_locales (simp add: onComplete_defs DeviceAnswer_bool_def)

interpretation release_handle: device_command ReleaseHandle_onComplete "\<lambda>res. res"
  by unfold_locales (simp add: onComplete_defs)

interpretation start_scan_output: device_command StartScanOutput_onComplete "\<lambda>res. res"
  by unfold_locales (simp add: onComplete_defs)

interpretation stop_scan_output: device_command StopScanOutput_onComplete "\<lambda>res. res"
  by unfold_locales (simp add: onComplete_defs)

interpretation feed_watchdog: device_command FeedWatchdog_onComplete "\<lambda>res. res"
  by unfold_locales (simp add: onComplete_defs)

interpretation get_parameters: device_command "GetParameters_onComplete ops names" "\<lambda>res. (res, [])"
  by unfold_locales (simp add: onComplete_defs DeviceAnswer_bool_def)

interpretation set_parameters: device_command SetParameters_onComplete "\<lambda>res. res"
  by unfold_locales (simp add: onComplete_defs)

interpretation fetch_parameter_list: device_command "FetchParameterList_onComplete ops" "\<lambda>res. (res, [])"
  by unfold_locales (simp add: onComplete_defs DeviceAnswer_bool_def)

interpretation factory_reset_device: device_command FactoryResetDevice_onComplete "\<lambda>res. res"
  by unfold_locales (simp add: onComplete_defs)

interpretation reboot_device: device_command RebootDevice_onComplete "\<lambda>res. res"
  by unfold_locales (simp add: onComplete_defs)

interpretation request_tcp_handle: device_command "RequestTcpHandle_onComplete ops" "\<lambda>res. (res, 0, [])"
  by unfold_locales (simp add: onComplete_defs DeviceAnswer_bool_def)

interpretation request_udp_handle: device_command "RequestUdpHandle_onComplete ops" "\<lambda>res. (res, [])"
  by unfold_locales (simp add: onComplete_defs DeviceAnswer_bool_def)

interpretation get_scan_output_config: device_command "GetScanOutputConfig_onComplete ops" "\<lambda>res. (res, None)"
  by unfold_locales (simp add: onComplete_defs DeviceAnswer_bool_def)

interpretation set_scan_output_config: device_command SetScanOutputConfig_onComplete "\<lambda>res. res"
  by unfold_locales (simp add: onComplete_defs)

section \<open>Properties\<close>

lemma RequestTcpHandle_execute_eq:
  "RequestTcpHandle_execute ops send parameters =
     bind_result (send COMMAND_REQUEST_TCP_HANDLE parameters) (RequestTcpHandle_onComplete ops)"
  by (simp add: RequestTcpHandle_execute_def RequestTcpHandle_onComplete_def [abs_def])

lemma RequestUdpHandle_execute_eq:
  "RequestUdpHandle_execute ops send parameters =
     bind_result (send COMMAND_REQUEST_UDP_HANDLE parameters) (RequestUdpHandle_onComplete ops)"
  by (simp add: RequestUdpHandle_execute_def RequestUdpHandle_onComplete_def [abs_def])

text \<open>
  C21: The completion of the asynchronous request for a TCP handle gives its caller exactly one result,
  whatever the connection and the device do: the one the blocking command would return for the same
  exchange; a failure where the blocking command throws, when the answer does not parse or has no
  port or handle; and a time-out or a failure when the connection did not succeed. No exception
  reaches the task of the io service.
\<close>

theorem tcp_handle_request_settles:
  assumes "\<forall>a. throws (jb_callable j) a \<longleftrightarrow> (\<exists>e. RequestTcpHandle_onComplete ops a = Inl e)"
  shows "\<exists>answers.
    r2_calls (onSocketConnectionAttemptCompleted ops throws error socket j r) = r2_calls r @ map (Pair j) answers \<and>
    concat (map (\<lambda>a. case RequestTcpHandle_onComplete ops a of Inl _ \<Rightarrow> [] | Inr v \<Rightarrow> [v]) answers) =
      [case error of
         No_Error \<Rightarrow>
           (case RequestTcpHandle_execute ops (\<lambda>_ _. HttpGet_socket ops socket (jb_request j)) parameters of
              Inl _ \<Rightarrow> (FAILED, 0, []) | Inr v \<Rightarrow> v)
       | Operation_Aborted \<Rightarrow> (TIMEOUT, 0, [])
       | Network_Error \<Rightarrow> (FAILED, 0, [])] \<and>
    r2_io (onSocketConnectionAttemptCompleted ops throws error socket j r) = r2_io r"
  using request_tcp_handle.connection_settles [where throws = throws and j = j, OF assms,
      where ops = ops and error = error and socket = socket and r = r]
  unfolding request_tcp_handle.values_given_def request_tcp_handle.settled_def RequestTcpHandle_execute_eq .

text \<open>The device answers without a port: the caller gets a failure, once.\<close>

theorem tcp_handle_request_settles_witness:
  "\<exists>answers. r2_calls (onSocketConnectionAttemptCompleted example_ptree_ops
        (\<lambda>_ a. \<exists>e. RequestTcpHandle_onComplete example_ptree_ops a = Inl e) No_Error (\<lambda>_. example_exchange)
        (example_job 1) (R2000_new :: (string, nat) R2000)) = map (Pair (example_job 1)) answers \<and>
     concat (map (\<lambda>a. case RequestTcpHandle_onComplete example_ptree_ops a of Inl _ \<Rightarrow> [] | Inr v \<Rightarrow> [v]) answers)
       = [case RequestTcpHandle_execute example_ptree_ops
             (\<lambda>_ _. HttpGet_socket example_ptree_ops (\<lambda>_. example_exchange) (jb_request (example_job 1))) [] of
           Inl _ \<Rightarrow> (FAILED, 0, []) | Inr v \<Rightarrow> v]"
  using tcp_handle_request_settles [where throws = "\<lambda>_ a. \<exists>e. RequestTcpHandle_onComplete example_ptree_ops a = Inl e"
      and j = "example_job 1" and ops = example_ptree_ops and r = "R2000_new :: (string, nat) R2000"
      and error = No_Error and socket = "\<lambda>_. example_exchange" and parameters = "[]"]
  by (simp add: R2000_new_def) blast

text \<open>
  The blocking command for the protocol version never returns a version: its test is inverted, so
  it returns \<open>UNKNOWN\<close> when the information was obtained and throws \<open>std::out_of_range\<close> when it was not,
  as it then looks for the version in an empty map.
\<close>

lemma blocking_protocol_version:
  "GetProtocolVersion_execute ops send =
     (case GetProtocolInfo_execute ops send of
        Inl e \<Rightarrow> Inl e
      | Inr (res, info, commands) \<Rightarrow> if res = SUCCESS then Inr (SUCCESS, PFSDP_UNKNOWN) else Inl Out_Of_Range)"
proof (cases "GetProtocolInfo_execute ops send")
  case (Inr x)
  obtain res info commands where x: "x = (res, info, commands)" by (cases x)
  have "res \<noteq> SUCCESS \<Longrightarrow> info = []"
    using Inr x
    by (auto simp: GetProtocolInfo_execute_def DeviceAnswer_bool_def result_simps split: if_splits)
  then show ?thesis using Inr x by (simp add: GetProtocolVersion_execute_def pm_at_def)
qed (simp add: GetProtocolVersion_execute_def)

text \<open>
  The asynchronous command for the parameters of some builders asks for the names of all of them,
  in order, separated by semicolons, and gives, for a device that reports success, exactly these
  names, each with the value the device sent for it or with the empty string.
\<close>

theorem parameters_obtained:
  assumes "concat builders \<noteq> []" and "da_requestResult answer = SUCCESS"
  shows "\<exists>names.
    GetParameters_asyncExecute builders timeout callable device =
      Inr (names, asyncSendHttpCommand COMMAND_GET_PARAMETER
        [(PARAMETER_NAME_LIST, butlast (concat (map (\<lambda>n. n @ '';'') (concat builders))))] callable timeout device) \<and>
    (\<exists>obtained. GetParameters_onComplete ops names answer = Inr (SUCCESS, obtained) \<and>
      pm_distinct obtained \<and>
      map_of obtained =
        (\<lambda>name. if name \<in> set (concat builders)
           then Some (case pt_get_optional_string ops (da_propertyTree answer) name of None \<Rightarrow> [] | Some v \<Rightarrow> v)
           else None))"
proof -
  have chain: "chainAndConvertParametersToString builders =
      Inr (butlast (concat (map (\<lambda>n. n @ '';'') (concat builders))), concat builders)"
    using assms(1)
    by (auto simp: chainAndConvertParametersToString_def Let_def ParametersChaining_list_concat chained_names)
  let ?obtained = "extractParametersValues ops (concat builders) (da_propertyTree answer)"
  have "pm_distinct ?obtained" by (rule extractParametersValues_distinct)
  moreover have "GetParameters_onComplete ops (concat builders) answer = Inr (SUCCESS, ?obtained)"
    using assms(2) by (simp add: GetParameters_onComplete_def DeviceAnswer_bool_def)
  ultimately show ?thesis
    using extractParametersValues_lookup [of ops "concat builders" "da_propertyTree answer"]
    by (intro exI conjI) (auto simp: GetParameters_asyncExecute_def chain)
qed

theorem parameters_obtained_witness:
  "\<exists>obtained. GetParameters_onComplete example_ptree_ops [''vendor'', ERROR_TEXT] (DeviceAnswer_with SUCCESS ''{}'')
     = Inr (SUCCESS, obtained) \<and> map_of obtained ERROR_TEXT = Some ''success''"
  using parameters_obtained [of "[[''vendor''], [ERROR_TEXT]]" "DeviceAnswer_with SUCCESS ''{}''" 5000 1
      "R2000_new :: (string, nat) R2000" example_ptree_ops]
  by (auto simp: DeviceAnswer_with_def example_ptree_ops_def GetParameters_asyncExecute_def
      chainAndConvertParametersToString_def ParametersChaining_list_concat)

end
