(* ===== verification/Client_Task.thy ===== *)
theory Client_Task
  imports Device_Commands
begin

text \<open>
  The tasks that send one command per round through the asynchronous client and wait for its future: the
  watchdog of a link (\<open>DataLink::watchdogTask\<close>, on a client it shares with the other users of the device)
  and the status watcher (\<open>StatusWatcher::statusWatcherTask\<close>, on a client of its own). Here is their common
  part: the state of such a task together with its client, its steps, and what follows for any task.
\<close>

section \<open>A task and its client\<close>

text \<open>
  What a task is made of: its command, what it makes of an answer, what a round does with the outcome,
  the flag that ends it, and the calls by which a user changes its object.
\<close>

record ('tree, 'o, 'c, 'w) task_ops =
  to_command :: string
  to_parameters :: ParametersMap
  to_timeout :: int
  to_complete :: "'tree DeviceAnswer \<Rightarrow> 'o"
  to_body :: "'o option \<Rightarrow> 'w \<Rightarrow> 'w"
  to_interrupted :: "'w \<Rightarrow> bool"
  to_interrupt :: "'w \<Rightarrow> 'w"
  to_leave :: "'w \<Rightarrow> 'w"
  to_call :: "'c \<Rightarrow> 'w \<Rightarrow> 'w"

text \<open>
  \<open>rq_future\<close> is the future the task waits for, named by the callback that settles it.
\<close>

record ('tree, 'ep, 'w) requester =
  rq_client :: "('tree, 'ep) R2000"
  rq_task :: 'w
  rq_future :: "nat option"

definition requester_new :: "'w \<Rightarrow> ('tree, 'ep, 'w) requester" where
  "requester_new w = \<lparr>rq_client = R2000_new, rq_task = w, rq_future = None\<rparr>"

text \<open>Each command has a callback of its own.\<close>

definition fresh_callable :: "nat \<Rightarrow> ('tree, 'ep) R2000 \<Rightarrow> bool" where
  "fresh_callable callable r \<longleftrightarrow> callable \<notin> jb_callable ` set (Worker_accepted (r2_worker r))"

text \<open>A future holds the value of the first call of its callback.\<close>

definition future_answer :: "nat \<Rightarrow> ('tree, 'ep) R2000 \<Rightarrow> 'tree DeviceAnswer option" where
  "future_answer callable r = map_option snd (find (\<lambda>call. jb_callable (fst call) = callable) (r2_calls r))"

definition task_send ::
  "('tree, 'o, 'c, 'w) task_ops \<Rightarrow> nat \<Rightarrow> ('tree, 'ep) R2000 \<Rightarrow> ('tree, 'ep) R2000 \<times> bool" where
  "task_send task callable r = asyncSendHttpCommand (to_command task) (to_parameters task) callable (to_timeout task) r"

definition task_request :: "('tree, 'o, 'c, 'w) task_ops \<Rightarrow> string" where
  "task_request task = makeRequestFromParameters (to_command task) (to_parameters task)"

text \<open>
  What is done besides the steps of the client: the task asks, unless it finds the flag set, and then
  leaves; it goes on at once when its command is refused, and when its future has an answer otherwise; the
  destructor sets the flag; a user calls an operation. On a shared client the other users send and cancel
  commands.
\<close>

inductive task_act ::
  "('tree, 'o, 'c, 'w) task_ops \<Rightarrow> bool \<Rightarrow> ('tree, 'ep, 'w) requester \<Rightarrow> ('tree, 'ep, 'w) requester \<Rightarrow> bool"
  for task shared where
  ask: "rq_future s = None \<Longrightarrow> \<not> to_interrupted task (rq_task s) \<Longrightarrow> fresh_callable callable (rq_client s) \<Longrightarrow>
    task_send task callable (rq_client s) = (r, True) \<Longrightarrow>
    task_act task shared s (s\<lparr>rq_client := r, rq_future := Some callable\<rparr>)"
| refused: "rq_future s = None \<Longrightarrow> \<not> to_interrupted task (rq_task s) \<Longrightarrow> fresh_callable callable (rq_client s) \<Longrightarrow>
    task_send task callable (rq_client s) = (r, False) \<Longrightarrow>
    task_act task shared s (s\<lparr>rq_client := r, rq_task := to_body task None (rq_task s)\<rparr>)"
| answered: "rq_future s = Some callable \<Longrightarrow> future_answer callable (rq_client s) = Some answer \<Longrightarrow>
    task_act task shared s
      (s\<lparr>rq_task := to_body task (Some (to_complete task answer)) (rq_task s), rq_future := None\<rparr>)"
| leave: "rq_future s = None \<Longrightarrow> to_interrupted task (rq_task s) \<Longrightarrow>
    task_act task shared s (s\<lparr>rq_task := to_leave task (rq_task s)\<rparr>)"
| interrupt: "task_act task shared s (s\<lparr>rq_task := to_interrupt task (rq_task s)\<rparr>)"
| call: "task_act task shared s (s\<lparr>rq_task := to_call task c (rq_task s)\<rparr>)"
| other: "shared \<Longrightarrow> fresh_callable callable (rq_client s) \<Longrightarrow>
    asyncSendHttpCommand command parameters callable timeout (rq_client s) = (r, queued) \<Longrightarrow>
    task_act task shared s (s\<lparr>rq_client := r\<rparr>)"
| cancel: "shared \<Longrightarrow> task_act task shared s (s\<lparr>rq_client := cancelPendingCommands (rq_client s)\<rparr>)"

text \<open>The steps of the task with its client.\<close>

inductive task_step ::
  "'tree ptree_ops \<Rightarrow> 'tree callbacks \<Rightarrow> ('tree, 'o, 'c, 'w) task_ops \<Rightarrow> bool
   \<Rightarrow> ('tree, 'ep, 'w) requester \<Rightarrow> ('tree, 'ep, 'w) requester \<Rightarrow> bool"
  for ops throws task shared where
  client: "R2000_step ops throws (rq_client s) r \<Longrightarrow> task_step ops throws task shared s (s\<lparr>rq_client := r\<rparr>)"
| act: "task_act task shared s s' \<Longrightarrow> task_step ops throws task shared s s'"

lemmas task_acts = task_act.intros [THEN act]

lemma task_step_cases [consumes 1, case_names client ask refused answered leave interrupt call other cancel]:
  assumes "task_step ops throws task shared s s'"
  obtains (client) r where "s' = s\<lparr>rq_client := r\<rparr>" "R2000_step ops throws (rq_client s) r"
  | (ask) callable r where "s' = s\<lparr>rq_client := r, rq_future := Some callable\<rparr>" "rq_future s = None"
      "\<not> to_interrupted task (rq_task s)" "fresh_callable callable (rq_client s)"
      "task_send task callable (rq_client s) = (r, True)"
  | (refused) callable r where "s' = s\<lparr>rq_client := r, rq_task := to_body task None (rq_task s)\<rparr>"
      "rq_future s = None" "\<not> to_interrupted task (rq_task s)" "fresh_callable callable (rq_client s)"
      "task_send task callable (rq_client s) = (r, False)"
  | (answered) callable answer where
      "s' = s\<lparr>rq_task := to_body task (Some (to_complete task answer)) (rq_task s), rq_future := None\<rparr>"
      "rq_future s = Some callable" "future_answer callable (rq_client s) = Some answer"
  | (leave) "s' = s\<lparr>rq_task := to_leave task (rq_task s)\<rparr>" "rq_future s = None" "to_interrupted task (rq_task s)"
  | (interrupt) "s' = s\<lparr>rq_task := to_interrupt task (rq_task s)\<rparr>"
  | (call) c where "s' = s\<lparr>rq_task := to_call task c (rq_task s)\<rparr>"
  | (other) callable command parameters timeout r queued where "s' = s\<lparr>rq_client := r\<rparr>" "shared"
      "fresh_callable callable (rq_client s)"
      "asyncSendHttpCommand command parameters callable timeout (rq_client s) = (r, queued)"
  | (cancel) "s' = s\<lparr>rq_client := cancelPendingCommands (rq_client s)\<rparr>" "shared"
  using assms
proof cases
  case (client r)
  then show ?thesis by (rule that(1))
next
  case act
  then show ?thesis by cases (fact that)+
qed

inductive task_run ::
  "'tree ptree_ops \<Rightarrow> 'tree callbacks \<Rightarrow> ('tree, 'o, 'c, 'w) task_ops \<Rightarrow> bool \<Rightarrow> 'w
   \<Rightarrow> ('tree, 'ep, 'w) requester \<Rightarrow> bool"
  for ops throws task shared w where
  start: "task_run ops throws task shared w (requester_new w)"
| step: "task_run ops throws task shared w s \<Longrightarrow> task_step ops throws task shared s s' \<Longrightarrow>
    task_run ops throws task shared w s'"

lemma task_run_steps:
  "(task_step ops throws task shared)\<^sup>*\<^sup>* s s' \<Longrightarrow> task_run ops throws task shared w s \<Longrightarrow> task_run ops throws task shared w s'"
  by (induction rule: rtranclp_induct) (auto intro: task_run.step)

lemma client_steps:
  "(R2000_step ops throws)\<^sup>*\<^sup>* r r' \<Longrightarrow> (task_step ops throws task shared)\<^sup>*\<^sup>* (s\<lparr>rq_client := r\<rparr>) (s\<lparr>rq_client := r'\<rparr>)"
proof (induction rule: rtranclp_induct)
  case (step y z)
  have "task_step ops throws task shared (s\<lparr>rq_client := y\<rparr>) (s\<lparr>rq_client := z\<rparr>)"
    using task_step.client [of ops throws "s\<lparr>rq_client := y\<rparr>" z task shared] step(2) by simp
  with step(3) show ?case by (rule rtranclp.rtrancl_into_rtrancl)
qed simp

lemma call_steps:
  "(task_step ops throws task shared)\<^sup>*\<^sup>* s (s\<lparr>rq_task := fold (to_call task) cs (rq_task s)\<rparr>)"
proof (induction cs arbitrary: s)
  case (Cons c cs)
  have "task_step ops throws task shared s (s\<lparr>rq_task := to_call task c (rq_task s)\<rparr>)" by (rule task_acts(6))
  from converse_rtranclp_into_rtranclp [OF this Cons.IH] show ?case by simp
qed simp

section \<open>The client under a task\<close>

text \<open>A submission, as the callbacks and the futures see it.\<close>

lemma submission_accepted:
  assumes "asyncSendHttpCommand command parameters callable timeout r = (r', queued)"
  shows "Worker_accepted (r2_worker r') = Worker_accepted (r2_worker r) @
      (if queued then [\<lparr>jb_request = makeRequestFromParameters command parameters, jb_callable = callable,
                        jb_timeout = timeout\<rparr>] else [])"
    and "r2_calls r' = r2_calls r" and "r2_operations r' = r2_operations r" and "r2_io r' = r2_io r"
  using assms
  by (auto simp: asyncSendHttpCommand_def pushJob_def Worker_accepted_def Let_def split: if_splits)

lemma cancel_accepted [simp]:
  "r2_worker (cancelPendingCommands r) = r2_worker r" "r2_calls (cancelPendingCommands r) = r2_calls r"
  by (simp_all add: submission_defs)

text \<open>The jobs accepted in a run, and the calls made for them.\<close>

abbreviation accepted :: "('tree, 'ep, 'w) requester \<Rightarrow> job list" where
  "accepted s \<equiv> Worker_accepted (r2_worker (rq_client s))"

lemma R2000_step_accepted:
  assumes "R2000_step ops throws r r'"
  shows "Worker_accepted (r2_worker r') = Worker_accepted (r2_worker r)"
  using assms
  by cases (simp_all add: R2000_worker_step_def resolverHandler_def deadline_defs submission_defs
      ioServiceTask_run_returns_def ioServiceTask_wait_def Let_def split: list.split)

text \<open>Whether callbacks throw or not, only commands whose jobs the worker has run are under way or answered.\<close>

definition calls_executed :: "('tree, 'ep) R2000 \<Rightarrow> bool" where
  "calls_executed r \<longleftrightarrow>
     op_job ` set (r2_operations r) \<union> fst ` set (r2_calls r) \<subseteq> set (wk_executed (r2_worker r))"

lemma image_op_job_cancel_set [simp]: "op_job ` cancel_resolve ` P = op_job ` P" "op_job ` cancel_connect ` P = op_job ` P"
  by (simp_all add: image_image)

lemma calls_executed_cancel [simp]:
  "calls_executed (asyncSocket_close r) = calls_executed r" "calls_executed (asyncResolver_cancel r) = calls_executed r"
  by (simp_all add: calls_executed_def asyncSocket_close_def asyncResolver_cancel_def)

lemma calls_executed_worker:
  assumes "calls_executed r"
  shows "calls_executed (R2000_worker_step ops throws now r)"
proof -
  have job: "calls_executed (asyncWorkerJob ops throws now j s)"
    if "calls_executed s" "j \<in> set (wk_executed (r2_worker s))" for j s
  proof -
    have "calls_executed (asyncSocket_close s)" using that(1) by simp
    with that show ?thesis
      by (auto simp: asyncWorkerJob_def onEndpointResolutionAttemptCompleted_def calls_executed_def Let_def
          scheduleNextSocketConnectionDeadline_def scheduleNextEndpointResolutionDeadline_def
          ioServiceTaskCv_notify_one_def asyncSocket_close_def split: option.split)
  qed
  show ?thesis
  proof (cases "\<not> wk_finished (r2_worker r) \<and> wk_localJobQueue (r2_worker r) \<noteq> []")
    case True
    then obtain j js where queue: "\<not> wk_finished (r2_worker r)" "wk_localJobQueue (r2_worker r) = j # js"
      by (cases "wk_localJobQueue (r2_worker r)") auto
    show ?thesis
      unfolding worker_step_runs_job [OF queue]
      by (rule job) (use assms in \<open>auto simp: calls_executed_def\<close>)
  next
    case False
    then show ?thesis
      using assms by (auto simp: R2000_worker_step_def Worker_task_step_def Let_def calls_executed_def split: list.split)
  qed
qed

lemma end_job: "call \<in> set (calls_of_end ops throws (Resolution_Ended j error)) \<Longrightarrow> fst call = j"
  "call \<in> set (calls_of_end ops throws (Connection_Ended j error socket)) \<Longrightarrow> fst call = j"
  by (cases error; auto split: sum.splits if_splits)+

lemma calls_executed_step:
  assumes "R2000_step ops throws r r'" and "calls_executed r"
  shows "calls_executed r'"
  using assms(1)
proof cases
  case (work now)
  then show ?thesis using calls_executed_worker [OF assms(2)] by simp
next
  case (resolved before j c after error endpoints now)
  let ?s = "r\<lparr>r2_operations := before @ after, r2_deviceEndpoints := Some endpoints\<rparr>"
  have "calls_executed ?s" and j: "j \<in> set (wk_executed (r2_worker r))"
    using assms(2) resolved by (auto simp: calls_executed_def)
  then have "calls_executed (asyncSocket_close ?s)" by simp
  then show ?thesis
    using \<open>calls_executed ?s\<close> j resolved(1)
    by (cases error)
      (auto simp: resolverHandler_def onEndpointResolutionAttemptCompleted_def Let_def calls_executed_def invoke_defs
        asyncSocket_close_def scheduleNextSocketConnectionDeadline_def)
next
  case (connected before j endpoints c after error socket)
  have "r2_operations r' = before @ after" and worker: "r2_worker r' = r2_worker r"
    using connected(1)
    by (simp_all add: onSocketConnectionAttemptCompleted_def invoke_defs Let_def split: error_code.split sum.split)
  then have "op_job ` set (r2_operations r') \<subseteq> set (wk_executed (r2_worker r))"
    using assms(2) connected(3) by (auto simp: calls_executed_def)
  moreover have "fst ` set (r2_calls r') \<subseteq> insert j (fst ` set (r2_calls r))"
    using connected(1) end_job(2) by (fastforce simp: connection_calls)
  then have "fst ` set (r2_calls r') \<subseteq> set (wk_executed (r2_worker r))"
    by (rule subset_trans) (use assms(2) connected(3) in \<open>auto simp: calls_executed_def\<close>)
  ultimately show ?thesis by (simp add: calls_executed_def worker)
qed (use assms(2) in \<open>simp_all add: deadline_defs ioServiceTask_run_returns_def ioServiceTask_wait_def\<close>,
     simp_all add: calls_executed_def)

lemma R2000_run_accepted:
  assumes "R2000_run ops throws js r"
  shows "Worker_accepted (r2_worker r) = js \<and> calls_executed r"
  using assms
proof induction
  case start
  show ?case by (simp add: R2000_new_def Worker_new_def Worker_accepted_def calls_executed_def)
next
  case (step js r r')
  then show ?case using R2000_step_accepted calls_executed_step by metis
next
  case (cancel js r)
  then show ?case by (simp add: cancelPendingCommands_def) (simp add: submission_defs)
next
  case (submit js r command parameters callable timeout r' queued)
  then show ?case
    by (fastforce simp: asyncSendHttpCommand_def pushJob_def Worker_accepted_def calls_executed_def Let_def
        split: if_splits)
qed

lemma R2000_run_called:
  assumes "R2000_run ops throws js r"
  shows "fst ` set (r2_calls r) \<subseteq> set js"
  using R2000_run_accepted [OF assms] by (auto simp: calls_executed_def Worker_accepted_def)

lemma R2000_run_calls:
  assumes "\<forall>cb a. \<not> throws cb a" and "R2000_run ops throws js r"
  shows "mset (map fst (r2_calls r)) \<subseteq># mset (Worker_accepted (r2_worker r))"
  using R2000_run_accounts [OF assms]
  by (auto simp: R2000_accounts_def accounting Worker_accepted_def simp flip: mset_map intro: subset_mset.trans)

lemma calls_grow:
  assumes "R2000_step ops throws r r'"
  shows "\<exists>later. r2_calls r' = r2_calls r @ later"
  using step_explained [OF assms] by (auto simp: new_calls_def)

text \<open>
  In every run the client is in an execution of its own, the callbacks of the commands are distinct, and
  the future of the task belongs to a command with the request of the task.
\<close>

definition task_inv ::
  "'tree ptree_ops \<Rightarrow> 'tree callbacks \<Rightarrow> ('tree, 'o, 'c, 'w) task_ops \<Rightarrow> ('tree, 'ep, 'w) requester \<Rightarrow> bool" where
  "task_inv ops throws task s \<longleftrightarrow>
     R2000_run ops throws (accepted s) (rq_client s) \<and> distinct (map jb_callable (accepted s)) \<and>
     (\<forall>callable. rq_future s = Some callable \<longrightarrow>
        (\<exists>j \<in> set (accepted s). jb_callable j = callable \<and> jb_request j = task_request task))"

lemma task_inv_submission:
  assumes "task_inv ops throws task s" and "fresh_callable callable (rq_client s)"
    and "asyncSendHttpCommand command parameters callable timeout (rq_client s) = (r, queued)"
  shows "task_inv ops throws task (s\<lparr>rq_client := r, rq_task := w\<rparr>)"
    and "queued \<Longrightarrow> makeRequestFromParameters command parameters = task_request task \<Longrightarrow>
      task_inv ops throws task (s\<lparr>rq_client := r, rq_future := Some callable\<rparr>)"
proof -
  have run: "R2000_run ops throws (Worker_accepted (r2_worker r)) r"
    using submit [of ops throws "accepted s" "rq_client s", OF _ assms(3)] assms(1) submission_accepted(1) [OF assms(3)]
    by (auto simp: task_inv_def split: if_splits)
  show "task_inv ops throws task (s\<lparr>rq_client := r, rq_task := w\<rparr>)"
    using assms(1,2) run submission_accepted(1) [OF assms(3)]
    by (auto simp: task_inv_def fresh_callable_def)
  show "task_inv ops throws task (s\<lparr>rq_client := r, rq_future := Some callable\<rparr>)"
    if "queued" "makeRequestFromParameters command parameters = task_request task"
    using that assms(1,2) run submission_accepted(1) [OF assms(3)]
    by (auto simp: task_inv_def fresh_callable_def)
qed

lemma task_inv_step:
  assumes "task_step ops throws task shared s s'" and "task_inv ops throws task s"
  shows "task_inv ops throws task s'"
  using assms(1)
proof (cases rule: task_step_cases)
  case (client r)
  have "R2000_run ops throws (accepted s) (rq_client s)" using assms(2) by (simp add: task_inv_def)
  from R2000_step_accepted [OF client(2)] R2000_run.step [OF this client(2)]
  show ?thesis using assms(2) client by (simp add: task_inv_def)
next
  case (ask callable r)
  then show ?thesis
    using task_inv_submission(2) [OF assms(2) ask(4) ask(5) [unfolded task_send_def]] by (simp add: task_request_def)
next
  case (refused callable r)
  then show ?thesis
    using task_inv_submission(1) [OF assms(2) refused(4) refused(5) [unfolded task_send_def]] by simp
next
  case (other callable command parameters timeout r queued)
  then show ?thesis
    using task_inv_submission(1) [OF assms(2) other(3,4), of "rq_task s"] by simp
next
  case cancel
  then show ?thesis using assms(2) by (auto simp: task_inv_def intro: R2000_run.cancel)
qed (use assms(2) in \<open>simp_all add: task_inv_def\<close>)

lemma task_inv_run:
  assumes "task_run ops throws task shared w s"
  shows "task_inv ops throws task s"
  using assms
proof induction
  case start
  show ?case
    using R2000_run.start [of ops throws]
    by (simp add: task_inv_def requester_new_def R2000_new_def Worker_new_def Worker_accepted_def)
next
  case (step s s')
  then show ?case using task_inv_step by blast
qed

lemma future_answer_call:
  assumes "future_answer callable r = Some answer"
  shows "\<exists>j. (j, answer) \<in> set (r2_calls r) \<and> jb_callable j = callable"
proof -
  obtain j where "find (\<lambda>call. jb_callable (fst call) = callable) (r2_calls r) = Some (j, answer)"
    using assms by (auto simp: future_answer_def)
  then obtain i where "i < length (r2_calls r)" "jb_callable (fst (r2_calls r ! i)) = callable" "(j, answer) = r2_calls r ! i"
    unfolding find_Some_iff by blast
  then show ?thesis using nth_mem [of i "r2_calls r"] by (metis fst_conv)
qed

text \<open>The answer that settles the future is one to a request of the task.\<close>

lemma answer_to_request:
  assumes "task_inv ops throws task s"
    and "rq_future s = Some callable" and "future_answer callable (rq_client s) = Some answer"
  shows "\<exists>j. (j, answer) \<in> set (r2_calls (rq_client s)) \<and> jb_request j = task_request task"
proof -
  obtain j where j: "(j, answer) \<in> set (r2_calls (rq_client s))" "jb_callable j = callable"
    using future_answer_call [OF assms(3)] by blast
  have "R2000_run ops throws (accepted s) (rq_client s)" using assms(1) by (simp add: task_inv_def)
  then have "j \<in> set (accepted s)" using R2000_run_called j(1) by force
  moreover obtain j' where "j' \<in> set (accepted s)" "jb_callable j' = callable" "jb_request j' = task_request task"
    using assms(1,2) by (auto simp: task_inv_def)
  moreover have "distinct (map jb_callable (accepted s))" using assms(1) by (simp add: task_inv_def)
  ultimately have "j = j'" using j(2) by (auto simp: distinct_map dest: inj_onD)
  with j(1) \<open>jb_request j' = task_request task\<close> show ?thesis by blast
qed

section \<open>A task that waits for ever\<close>

text \<open>
  A task whose command is in progress on a client that is asleep, and that nobody else uses, stays where
  it is: it waits for ever.
\<close>

definition stuck :: "('tree, 'ep, 'w) requester \<Rightarrow> bool" where
  "stuck s \<longleftrightarrow> asleep (rq_client s) \<and>
     (\<exists>callable. rq_future s = Some callable \<and> future_answer callable (rq_client s) = None)"

text \<open>
  A task can always get there when its client has nothing to do: the notification of its next request
  comes between the end of \<open>run\<close> and the wait of the io service task.
\<close>

lemma request_lost:
  assumes "ready endpoints r" and "worker_serves r" and "asyncSendHttpCommand command parameters callable timeout
      (r\<lparr>r2_io := Returned\<rparr>) = (r1, queued)"
  shows "queued \<and> (\<exists>r'. (R2000_step ops throws)\<^sup>*\<^sup>* r1 r' \<and> asleep r' \<and> r2_calls r' = r2_calls r)"
proof -
  let ?j = "\<lparr>jb_request = makeRequestFromParameters command parameters, jb_callable = callable, jb_timeout = timeout\<rparr>"
  have idle: "wk_localJobQueue (r2_worker r) = []" "wk_jobs (r2_worker r) = []"
    using assms(1) by (simp_all add: ready_def worker_idle_def)
  have serves: "\<not> wk_finished (r2_worker r)" "\<not> wk_interruptFlag (r2_worker r)" "wk_maxJob (r2_worker r) = - 1"
    using assms(2) by (simp_all add: worker_serves_def)
  let ?r1 = "r\<lparr>r2_io := Returned, r2_worker := (r2_worker r)\<lparr>wk_jobs := [?j]\<rparr>\<rparr>"
  let ?r2 = "r\<lparr>r2_io := Returned, r2_worker := (r2_worker r)\<lparr>wk_localJobQueue := [?j], wk_jobs := []\<rparr>\<rparr>"
  let ?r3 = "R2000_worker_step ops throws 0 ?r2"
  have "r1 = ?r1" "queued"
    using assms(3) serves idle by (cases r; simp add: asyncSendHttpCommand_def pushJob_def Let_def)+
  moreover have "R2000_step ops throws ?r1 ?r2"
    using work [of ops throws True ?r1 0] serves idle by (simp add: worker_step_takes_queue)
  moreover have "R2000_step ops throws ?r2 ?r3" by (rule work)
  moreover have "asleep ?r3"
    using serves
    by (simp add: worker_step_runs_job asleep_def worker_idle_def)
      (simp add: asyncWorkerJob_def onEndpointResolutionAttemptCompleted_def submission_defs Let_def split: option.split)
  moreover have "r2_calls ?r3 = r2_calls r" by (simp add: worker_makes_no_call)
  ultimately show ?thesis by (meson converse_rtranclp_into_rtranclp r_into_rtranclp)
qed

lemma fresh_exists: "\<exists>callable. fresh_callable callable r"
  unfolding fresh_callable_def using ex_new_if_finite [of "jb_callable ` set (Worker_accepted (r2_worker r))"] by auto

lemma fresh_unanswered:
  assumes "task_inv ops throws task s" and "fresh_callable callable (rq_client s)"
  shows "\<forall>call \<in> set (r2_calls (rq_client s)). jb_callable (fst call) \<noteq> callable"
proof -
  have "R2000_run ops throws (accepted s) (rq_client s)" using assms(1) by (simp add: task_inv_def)
  from R2000_run_called [OF this] show ?thesis using assms(2) unfolding fresh_callable_def by force
qed

lemma task_can_hang:
  assumes "\<forall>cb a. \<not> throws cb a" and "task_run ops throws task shared w s" and "rq_future s = None"
    and "\<not> to_interrupted task (rq_task s)" and "ready endpoints (rq_client s)" and "r2_io (rq_client s) \<noteq> Waiting"
  shows "\<exists>s'. (task_step ops throws task shared)\<^sup>*\<^sup>* s s' \<and> stuck s' \<and> rq_task s' = rq_task s"
proof -
  have inv: "task_inv ops throws task s" by (rule task_inv_run [OF assms(2)])
  obtain callable where fresh: "fresh_callable callable (rq_client s)" using fresh_exists by blast
  let ?r = "(rq_client s)\<lparr>r2_io := Returned\<rparr>"
  obtain r1 queued where sent: "task_send task callable ?r = (r1, queued)" by fastforce
  have "worker_serves (rq_client s)" using inv worker_serves_run by (auto simp: task_inv_def)
  from request_lost [OF assms(5) this sent [unfolded task_send_def], of ops throws]
  obtain r where queued: "queued" and r: "(R2000_step ops throws)\<^sup>*\<^sup>* r1 r" "asleep r" "r2_calls r = r2_calls (rq_client s)"
    by blast
  let ?s1 = "s\<lparr>rq_client := ?r\<rparr>"
  let ?s2 = "?s1\<lparr>rq_client := r1, rq_future := Some callable\<rparr>"
  let ?s3 = "?s2\<lparr>rq_client := r\<rparr>"
  have "ioServiceTask_run_returns (rq_client s) = ?r"
    using assms(5,6) by (cases "r2_io (rq_client s)") (simp_all add: ready_def ioServiceTask_run_returns_def)
  then have "task_step ops throws task shared s ?s1"
    using task_step.client [of ops throws s ?r task shared] run_returns [of ops throws True "rq_client s"] by simp
  moreover have "task_step ops throws task shared ?s1 ?s2"
    using task_acts(1) [of ?s1 task callable r1 ops throws shared] assms(3,4) fresh sent queued
    by (simp add: fresh_callable_def)
  moreover have "(task_step ops throws task shared)\<^sup>*\<^sup>* ?s2 ?s3"
    using client_steps [OF r(1), of task shared ?s2] by (cases s) simp
  ultimately have "(task_step ops throws task shared)\<^sup>*\<^sup>* s ?s3"
    by (meson converse_rtranclp_into_rtranclp)
  moreover have "stuck ?s3"
    using fresh_unanswered [OF inv fresh] r(2,3)
    by (fastforce simp: stuck_def future_answer_def find_None_iff)
  ultimately show ?thesis by (intro exI [of _ ?s3]) simp
qed

section \<open>A task that is not stuck can go on\<close>

lemma drained_answers:
  assumes "\<forall>cb a. \<not> throws cb a" and "task_inv ops throws task s" and "rq_future s = Some callable"
    and "worker_idle (rq_client s)" and "r2_operations (rq_client s) = []"
  shows "\<exists>answer. future_answer callable (rq_client s) = Some answer"
proof -
  obtain j where j: "j \<in> set (accepted s)" "jb_callable j = callable" using assms(2,3) by (auto simp: task_inv_def)
  have "R2000_run ops throws (accepted s) (rq_client s)" using assms(2) by (simp add: task_inv_def)
  from R2000_run_accounts [OF assms(1) this] have "mset (accepted s) = mset (map fst (r2_calls (rq_client s)))"
    using assms(4,5) by (auto simp: R2000_accounts_def accounting Worker_accepted_def worker_idle_def)
  then have "j \<in> set (map fst (r2_calls (rq_client s)))" using j(1) by (metis set_mset_mset)
  then obtain call where "call \<in> set (r2_calls (rq_client s))" "fst call = j" by auto
  then have "find (\<lambda>call. jb_callable (fst call) = callable) (r2_calls (rq_client s)) \<noteq> None"
    unfolding find_None_iff using j(2) by blast
  then show ?thesis by (auto simp: future_answer_def)
qed

lemma task_answers:
  assumes "\<forall>cb a. \<not> throws cb a" and "task_run ops throws task shared w s" and "\<not> stuck s"
  shows "\<exists>s'. (task_step ops throws task shared)\<^sup>*\<^sup>* s s' \<and> rq_future s' = None"
proof (cases "rq_future s")
  case None
  then show ?thesis by blast
next
  case (Some callable)
  have inv: "task_inv ops throws task s" by (rule task_inv_run [OF assms(2)])
  obtain r answer where r: "(R2000_step ops throws)\<^sup>*\<^sup>* (rq_client s) r" "future_answer callable r = Some answer"
  proof (cases "future_answer callable (rq_client s)")
    case None
    then have "\<not> asleep (rq_client s)" using assms(3) Some by (auto simp: stuck_def)
    then obtain r where r: "(R2000_step ops throws)\<^sup>*\<^sup>* (rq_client s) r" "worker_idle r" "r2_operations r = []"
      using client_drains [OF assms(1), of ops "accepted s" "rq_client s"] inv by (auto simp: task_inv_def)
    have path: "(task_step ops throws task shared)\<^sup>*\<^sup>* s (s\<lparr>rq_client := r\<rparr>)"
      using client_steps [OF r(1), of task shared s] by simp
    have "task_inv ops throws task (s\<lparr>rq_client := r\<rparr>)"
      by (rule task_inv_run [OF task_run_steps [OF path assms(2)]])
    from drained_answers [OF assms(1) this] Some r(2,3) r(1) that show ?thesis by auto
  qed (use that in blast)
  let ?s1 = "s\<lparr>rq_client := r\<rparr>"
  let ?s2 = "?s1\<lparr>rq_task := to_body task (Some (to_complete task answer)) (rq_task ?s1), rq_future := None\<rparr>"
  have "(task_step ops throws task shared)\<^sup>*\<^sup>* s ?s1" using client_steps [OF r(1), of task shared s] by simp
  moreover have "task_step ops throws task shared ?s1 ?s2"
    using task_acts(3) [of ?s1 callable answer ops throws task shared] Some r(2) by simp
  ultimately have "(task_step ops throws task shared)\<^sup>*\<^sup>* s ?s2" by (rule rtranclp.rtrancl_into_rtrancl)
  then show ?thesis by (intro exI [of _ ?s2]) simp
qed

lemma task_ends:
  assumes "\<forall>cb a. \<not> throws cb a" and "task_run ops throws task shared w s" and "\<not> stuck s"
    and "\<forall>w. to_interrupted task (to_interrupt task w)"
  shows "\<exists>s' v. (task_step ops throws task shared)\<^sup>*\<^sup>* s s' \<and> rq_task s' = to_leave task v"
proof -
  obtain s1 where s1: "(task_step ops throws task shared)\<^sup>*\<^sup>* s s1" "rq_future s1 = None"
    using task_answers [OF assms(1-3)] by blast
  let ?s2 = "s1\<lparr>rq_task := to_interrupt task (rq_task s1)\<rparr>"
  let ?s3 = "?s2\<lparr>rq_task := to_leave task (rq_task ?s2)\<rparr>"
  have "task_step ops throws task shared s1 ?s2" by (rule task_acts(5))
  moreover have "task_step ops throws task shared ?s2 ?s3" by (rule task_acts(4)) (use s1(2) assms(4) in simp_all)
  ultimately have "(task_step ops throws task shared)\<^sup>*\<^sup>* s ?s3" using s1(1) by (meson rtranclp.rtrancl_into_rtrancl)
  then show ?thesis by (intro exI [of _ ?s3] exI [of _ "rq_task ?s2"]) simp
qed

section \<open>What the outcomes of a task come from\<close>

text \<open>
  The contract of a task: \<open>holds\<close> says what its object owes to the outcomes of its rounds, \<open>status\<close> is what
  only a round changes.
\<close>

locale client_task =
  fixes task :: "('tree, 'o, 'c, 'w) task_ops"
    and holds :: "('o \<Rightarrow> bool) \<Rightarrow> 'w \<Rightarrow> bool"
    and status :: "'w \<Rightarrow> 's"
  assumes holds_mono: "holds P w \<Longrightarrow> (\<And>v. P v \<Longrightarrow> Q v) \<Longrightarrow> holds Q w"
    and holds_body: "holds P w \<Longrightarrow> (\<And>v. outcome = Some v \<Longrightarrow> P v) \<Longrightarrow> holds P (to_body task outcome w)"
    and holds_interrupt: "holds P w \<Longrightarrow> holds P (to_interrupt task w)"
    and holds_leave: "holds P w \<Longrightarrow> holds P (to_leave task w)"
    and holds_call: "holds P w \<Longrightarrow> holds P (to_call task c w)"
    and status_interrupt: "status (to_interrupt task w) = status w"
    and status_call: "status (to_call task c w) = status w"
begin

text \<open>The values of the answers the device gave to the requests of the task.\<close>

definition obtained :: "('tree, 'ep) R2000 \<Rightarrow> 'o \<Rightarrow> bool" where
  "obtained r v \<longleftrightarrow>
     (\<exists>j answer. (j, answer) \<in> set (r2_calls r) \<and> jb_request j = task_request task \<and> v = to_complete task answer)"

lemma obtained_mono: "r2_calls r' = r2_calls r @ later \<Longrightarrow> obtained r v \<Longrightarrow> obtained r' v"
  by (auto simp: obtained_def)

lemma holds_client:
  assumes "holds (obtained r) w" and "r2_calls r' = r2_calls r @ later"
  shows "holds (obtained r') w"
  using assms(1) by (rule holds_mono) (rule obtained_mono [OF assms(2)])

lemma outcomes_obtained:
  assumes "task_run ops throws task shared w s" and "holds (\<lambda>_. False) w"
  shows "holds (obtained (rq_client s)) (rq_task s)"
  using assms(1)
proof induction
  case start
  show ?case using assms(2) by (simp add: requester_new_def holds_mono)
next
  case (step s s')
  have inv: "task_inv ops throws task s" using step(1) by (rule task_inv_run)
  from step(2) show ?case
  proof (cases rule: task_step_cases)
    case (client r)
    then show ?thesis using calls_grow [OF client(2)] holds_client [OF step(3)] by auto
  next
    case (ask callable r)
    then show ?thesis
      using holds_client [OF step(3), of r "[]"] submission_accepted(2) [OF ask(5) [unfolded task_send_def]] by simp
  next
    case (refused callable r)
    then show ?thesis
      using holds_client [OF step(3), of r "[]"] submission_accepted(2) [OF refused(5) [unfolded task_send_def]]
      by (auto intro: holds_body)
  next
    case (answered callable answer)
    have "obtained (rq_client s) (to_complete task answer)"
      using answer_to_request [OF inv answered(2,3)] by (auto simp: obtained_def)
    then show ?thesis using answered step(3) by (auto intro: holds_body)
  next
    case (other callable command parameters timeout r queued)
    then show ?thesis using holds_client [OF step(3), of r "[]"] submission_accepted(2) [OF other(4)] by simp
  next
    case cancel
    then show ?thesis using holds_client [OF step(3), of "cancelPendingCommands (rq_client s)" "[]"] by simp
  qed (use step(3) in \<open>simp_all add: holds_leave holds_interrupt holds_call\<close>)
qed

text \<open>A stuck task keeps its status.\<close>

lemma stuck_step:
  assumes "task_step ops throws task False s s'" and "stuck s"
  shows "stuck s' \<and> status (rq_task s') = status (rq_task s) \<and> rq_future s' = rq_future s"
  using assms(1)
proof (cases rule: task_step_cases)
  case (client r)
  then show ?thesis
    using asleep_step [OF client(2)] assms(2) by (auto simp: stuck_def future_answer_def)
qed (use assms(2) in \<open>auto simp: stuck_def status_interrupt status_call\<close>)

lemma stuck_for_ever:
  assumes "(task_step ops throws task False)\<^sup>*\<^sup>* s s'" and "stuck s"
  shows "stuck s' \<and> status (rq_task s') = status (rq_task s) \<and> rq_future s' = rq_future s"
  using assms by (induction rule: rtranclp_induct) (use stuck_step in fastforce)+

end

section \<open>A task that has its client for itself\<close>

text \<open>
  The requests are answered one by one and in their order: all but the last, and the last one as soon as
  it is answered, which may be before the task has seen it.
\<close>

definition one_by_one :: "('tree, 'ep, 'w) requester \<Rightarrow> bool" where
  "one_by_one s \<longleftrightarrow>
     (case rq_future s of
        None \<Rightarrow> map fst (r2_calls (rq_client s)) = accepted s
      | Some callable \<Rightarrow>
          \<exists>before j. accepted s = before @ [j] \<and> jb_callable j = callable \<and>
            (map fst (r2_calls (rq_client s)) = before \<or> map fst (r2_calls (rq_client s)) = before @ [j]))"

lemma later_calls:
  assumes "mset (before @ later) \<subseteq># mset (before @ js)" and "length js \<le> 1"
  shows "later = [] \<or> later = js"
proof -
  have sub: "mset later \<subseteq># mset js" using assms(1) by simp
  then have "length later \<le> length js" by (metis size_mset size_mset_mono)
  with assms(2) sub show ?thesis by (cases later; cases js) auto
qed

lemma one_by_one_client:
  assumes "\<forall>cb a. \<not> throws cb a" and "task_inv ops throws task s" and "R2000_step ops throws (rq_client s) r"
    and "one_by_one s"
  shows "one_by_one (s\<lparr>rq_client := r\<rparr>)"
proof -
  obtain later where later: "r2_calls r = r2_calls (rq_client s) @ later" using calls_grow [OF assms(3)] by blast
  have run: "R2000_run ops throws (accepted s) (rq_client s)" using assms(2) by (simp add: task_inv_def)
  have same: "Worker_accepted (r2_worker r) = accepted s" by (rule R2000_step_accepted [OF assms(3)])
  have "mset (map fst (r2_calls r)) \<subseteq># mset (accepted s)"
    using R2000_run_calls [OF assms(1) R2000_run.step [OF run assms(3)]] by (simp only: same)
  then have sub: "mset (map fst (r2_calls (rq_client s)) @ map fst later) \<subseteq># mset (accepted s)"
    by (simp add: later)
  show ?thesis
  proof (cases "rq_future s")
    case None
    then have "map fst later = []"
      using assms(4) sub later_calls [of "map fst (r2_calls (rq_client s))" "map fst later" "[]"]
      by (auto simp: one_by_one_def)
    then show ?thesis using None assms(4) by (simp add: one_by_one_def same later)
  next
    case (Some callable)
    then obtain before j where future: "accepted s = before @ [j]" "jb_callable j = callable"
      "map fst (r2_calls (rq_client s)) = before \<or> map fst (r2_calls (rq_client s)) = before @ [j]"
      using assms(4) by (auto simp: one_by_one_def)
    have "map fst (r2_calls r) = before \<or> map fst (r2_calls r) = before @ [j]"
      using future(3)
    proof
      assume calls: "map fst (r2_calls (rq_client s)) = before"
      then show ?thesis using later_calls [of before "map fst later" "[j]"] sub future(1) by (auto simp: later)
    next
      assume calls: "map fst (r2_calls (rq_client s)) = before @ [j]"
      then show ?thesis using later_calls [of "before @ [j]" "map fst later" "[]"] sub future(1) by (auto simp: later)
    qed
    with future Some show ?thesis by (auto simp: one_by_one_def same)
  qed
qed

lemma one_by_one_step:
  assumes "\<forall>cb a. \<not> throws cb a" and "task_inv ops throws task s" and "task_step ops throws task False s s'"
    and "one_by_one s"
  shows "one_by_one s'"
  using assms(3)
proof (cases rule: task_step_cases)
  case (client r)
  then show ?thesis using one_by_one_client [OF assms(1,2) _ assms(4)] by simp
next
  case (ask callable r)
  then show ?thesis
    using submission_accepted(1,2) [OF ask(5) [unfolded task_send_def]] assms(4) by (auto simp: one_by_one_def)
next
  case (refused callable r)
  then show ?thesis
    using submission_accepted(1,2) [OF refused(5) [unfolded task_send_def]] assms(4) by (simp add: one_by_one_def)
next
  case (answered callable answer)
  obtain j' where call: "(j', answer) \<in> set (r2_calls (rq_client s))" "jb_callable j' = callable"
    using future_answer_call [OF answered(3)] by blast
  obtain before j where future: "accepted s = before @ [j]" "jb_callable j = callable"
    "map fst (r2_calls (rq_client s)) = before \<or> map fst (r2_calls (rq_client s)) = before @ [j]"
    using assms(4) answered(2) by (auto simp: one_by_one_def)
  have "j' \<in> set (map fst (r2_calls (rq_client s)))" using call(1) by force
  moreover have "jb_callable j \<notin> jb_callable ` set before"
    using assms(2) future(1) by (simp add: task_inv_def)
  ultimately have "map fst (r2_calls (rq_client s)) = accepted s"
    using future call(2) by (metis imageI)
  then show ?thesis using answered by (simp add: one_by_one_def)
qed (use assms(4) in \<open>simp_all add: one_by_one_def split: option.splits\<close>)

lemma one_by_one_run:
  assumes "\<forall>cb a. \<not> throws cb a" and "task_run ops throws task False w s"
  shows "one_by_one s"
  using assms(2)
proof induction
  case start
  show ?case
    by (simp add: one_by_one_def requester_new_def R2000_new_def Worker_new_def Worker_accepted_def)
next
  case (step s s')
  then show ?case using one_by_one_step [OF assms(1) task_inv_run [OF step(1)]] by blast
qed

text \<open>So at most one request is under way, and none is when the task asks.\<close>

lemma one_request:
  assumes "\<forall>cb a. \<not> throws cb a" and "task_run ops throws task False w s"
  shows "length (wk_localJobQueue (r2_worker (rq_client s)) @ wk_jobs (r2_worker (rq_client s)))
      + length (r2_operations (rq_client s)) \<le> (if rq_future s = None then 0 else 1)"
proof -
  have "R2000_run ops throws (accepted s) (rq_client s)"
    using task_inv_run [OF assms(2)] by (simp add: task_inv_def)
  from R2000_run_accounts [OF assms(1) this]
  have "mset (accepted s) = mset (wk_localJobQueue (r2_worker (rq_client s)) @ wk_jobs (r2_worker (rq_client s)))
      + mset (map op_job (r2_operations (rq_client s))) + mset (map fst (r2_calls (rq_client s)))"
    by (auto simp: R2000_accounts_def accounting Worker_accepted_def)
  from arg_cong [where f = size, OF this]
  have "length (accepted s) = length (wk_localJobQueue (r2_worker (rq_client s)) @ wk_jobs (r2_worker (rq_client s)))
      + length (r2_operations (rq_client s)) + length (map fst (r2_calls (rq_client s)))"
    by (simp only: size_union size_mset length_map)
  moreover have "length (accepted s) \<le> length (map fst (r2_calls (rq_client s))) + (if rq_future s = None then 0 else 1)"
  proof (cases "rq_future s")
    case None
    then have "map fst (r2_calls (rq_client s)) = accepted s"
      using one_by_one_run [OF assms] by (simp add: one_by_one_def)
    then show ?thesis by simp
  next
    case (Some callable)
    then obtain before j where "accepted s = before @ [j]"
      "map fst (r2_calls (rq_client s)) = before \<or> map fst (r2_calls (rq_client s)) = before @ [j]"
      using one_by_one_run [OF assms] by (auto simp: one_by_one_def)
    then have "length (accepted s) = Suc (length before)" "length before \<le> length (map fst (r2_calls (rq_client s)))"
      by (simp, metis length_append le_add1 order_refl)
    with Some show ?thesis by simp
  qed
  ultimately show ?thesis by linarith
qed

lemma never_refused:
  assumes "\<forall>cb a. \<not> throws cb a" and "task_run ops throws task False w s" and "rq_future s = None"
  shows "snd (task_send task callable (rq_client s))"
  using one_request [OF assms(1,2)] assms(3)
  by (simp add: task_send_def asyncSendHttpCommand_def pushJob_def Let_def)

text \<open>A round of a task whose client has nothing to do can complete.\<close>

lemma round_completes:
  assumes "\<forall>cb a. \<not> throws cb a" and "task_run ops throws task shared w s" and "rq_future s = None"
    and "\<not> to_interrupted task (rq_task s)" and "ready endpoints (rq_client s)" and "endpoints \<noteq> []"
    and "HttpGet_socket ops socket (task_request task) = Inr answer"
  shows "\<exists>s'. (task_step ops throws task shared)\<^sup>*\<^sup>* s s' \<and> rq_future s' = None \<and> ready endpoints (rq_client s') \<and>
    r2_io (rq_client s') = Running \<and>
    rq_task s' = to_body task (Some (to_complete task answer)) (rq_task s)"
proof -
  have inv: "task_inv ops throws task s" by (rule task_inv_run [OF assms(2)])
  obtain callable where fresh: "fresh_callable callable (rq_client s)" using fresh_exists by blast
  obtain r1 queued where sent: "task_send task callable (rq_client s) = (r1, queued)" by fastforce
  have "worker_serves (rq_client s)" using inv worker_serves_run by (auto simp: task_inv_def)
  from submitted_completes [where throws = throws and socket = socket, OF assms(5) this assms(6)
      sent [unfolded task_send_def] assms(7) [unfolded task_request_def]] assms(1)
  obtain r where queued: "queued" and r: "(R2000_step ops throws)\<^sup>*\<^sup>* r1 r" "ready endpoints r" "r2_io r = Running"
    "r2_calls r = r2_calls (rq_client s) @ [(\<lparr>jb_request = task_request task, jb_callable = callable,
       jb_timeout = to_timeout task\<rparr>, answer)]"
    by (auto simp: task_request_def)
  let ?s1 = "s\<lparr>rq_client := r1, rq_future := Some callable\<rparr>"
  let ?s2 = "?s1\<lparr>rq_client := r\<rparr>"
  let ?s3 = "?s2\<lparr>rq_task := to_body task (Some (to_complete task answer)) (rq_task s), rq_future := None\<rparr>"
  have "task_step ops throws task shared s ?s1"
    using task_acts(1) [of s task callable r1 ops throws shared] assms(3,4) fresh sent queued by simp
  moreover have "(task_step ops throws task shared)\<^sup>*\<^sup>* ?s1 ?s2"
    using client_steps [OF r(1), of task shared ?s1] by (cases s) simp
  moreover have "future_answer callable r = Some answer"
    using fresh_unanswered [OF inv fresh] by (simp add: future_answer_def r(4) find_append_skip)
  then have "task_step ops throws task shared ?s2 ?s3"
    using task_acts(3) [of ?s2 callable answer ops throws task shared] by simp
  ultimately have "(task_step ops throws task shared)\<^sup>*\<^sup>* s ?s3"
    by (meson converse_rtranclp_into_rtranclp rtranclp.rtrancl_into_rtrancl rtranclp_trans)
  then show ?thesis using r(2,3) by (intro exI [of _ ?s3]) simp
qed

text \<open>And so can any number of rounds, with any answers the device may give.\<close>

lemma rounds_complete:
  assumes "\<forall>cb a. \<not> throws cb a" and "\<forall>outcome w. to_interrupted task (to_body task outcome w) = to_interrupted task w"
    and "endpoints \<noteq> []" and "\<forall>answer \<in> set answers. \<exists>socket. HttpGet_socket ops socket (task_request task) = Inr answer"
    and "task_run ops throws task shared w s" and "rq_future s = None" and "\<not> to_interrupted task (rq_task s)"
    and "ready endpoints (rq_client s)"
  shows "\<exists>s'. (task_step ops throws task shared)\<^sup>*\<^sup>* s s' \<and> rq_future s' = None \<and> ready endpoints (rq_client s') \<and>
    rq_task s' = fold (\<lambda>answer. to_body task (Some (to_complete task answer))) answers (rq_task s)"
  using assms(4-8)
proof (induction answers arbitrary: s)
  case Nil
  then show ?case by auto
next
  case (Cons answer answers)
  obtain socket where "HttpGet_socket ops socket (task_request task) = Inr answer" using Cons.prems(1) by auto
  from round_completes [where socket = socket, OF assms(1) Cons.prems(2-5) assms(3) this]
  obtain s1 where s1: "(task_step ops throws task shared)\<^sup>*\<^sup>* s s1" "rq_future s1 = None" "ready endpoints (rq_client s1)"
    "rq_task s1 = to_body task (Some (to_complete task answer)) (rq_task s)" by blast
  have run: "task_run ops throws task shared w s1" by (rule task_run_steps [OF s1(1) Cons.prems(2)])
  have going: "\<not> to_interrupted task (rq_task s1)" using Cons.prems(4) assms(2) by (simp add: s1(4))
  have "\<forall>answer \<in> set answers. \<exists>socket. HttpGet_socket ops socket (task_request task) = Inr answer"
    using Cons.prems(1) by simp
  from Cons.IH [OF this run s1(2) going s1(3)] obtain s' where "(task_step ops throws task shared)\<^sup>*\<^sup>* s1 s'" "rq_future s' = None" "ready endpoints (rq_client s')"
    "rq_task s' = fold (\<lambda>answer. to_body task (Some (to_complete task answer))) answers (rq_task s1)"
    by blast
  with rtranclp_trans [OF s1(1) this(1)] s1(4) show ?case by auto
qed

end
