(* ===== verification/Status_Watcher.thy ===== *)
theory Status_Watcher
  imports Device_Commands
begin

text \<open>
  The status watcher (\<open>include/StatusWatcher.hpp\<close>, \<open>src/StatusWatcher.cpp\<close>): the interpretation of the
  status the device sends, and the task that requests it periodically and reports connections and
  disconnections. A callback is its identity; the calls made are recorded in order. A status is the map
  of its values; its time stamp is not modelled.
\<close>

section \<open>Flags\<close>

text \<open>\<open>std::bitset<32>\<close> over the flags.\<close>

type_synonym StatusFlagInterpreter = u32

definition isInitializing :: "StatusFlagInterpreter \<Rightarrow> bool" where "isInitializing flags = bit flags 0"
definition outputScanIsMuted :: "StatusFlagInterpreter \<Rightarrow> bool" where "outputScanIsMuted flags = bit flags 3"
definition headHasUnstableRotation :: "StatusFlagInterpreter \<Rightarrow> bool" where "headHasUnstableRotation flags = bit flags 4"
definition deviceHasWarning :: "StatusFlagInterpreter \<Rightarrow> bool" where "deviceHasWarning flags = bit flags 9"
definition hasLensContaminationWarning :: "StatusFlagInterpreter \<Rightarrow> bool" where "hasLensContaminationWarning flags = bit flags 10"
definition hasLowTemperatureWarning :: "StatusFlagInterpreter \<Rightarrow> bool" where "hasLowTemperatureWarning flags = bit flags 11"
definition hasHighTemperatureWarning :: "StatusFlagInterpreter \<Rightarrow> bool" where "hasHighTemperatureWarning flags = bit flags 12"
definition hasDeviceOverloadWarning :: "StatusFlagInterpreter \<Rightarrow> bool" where "hasDeviceOverloadWarning flags = bit flags 13"
definition deviceHasError :: "StatusFlagInterpreter \<Rightarrow> bool" where "deviceHasError flags = bit flags 17"
definition hasLensContaminationError :: "StatusFlagInterpreter \<Rightarrow> bool" where "hasLensContaminationError flags = bit flags 18"
definition hasLowTemperatureError :: "StatusFlagInterpreter \<Rightarrow> bool" where "hasLowTemperatureError flags = bit flags 19"
definition hasHighTemperatureError :: "StatusFlagInterpreter \<Rightarrow> bool" where "hasHighTemperatureError flags = bit flags 20"
definition hasDeviceOverloadError :: "StatusFlagInterpreter \<Rightarrow> bool" where "hasDeviceOverloadError flags = bit flags 21"
definition hasUnrecoverableDefect :: "StatusFlagInterpreter \<Rightarrow> bool" where "hasUnrecoverableDefect flags = bit flags 31"

section \<open>Values\<close>

text \<open>
  The casts of an optional value. \<open>quiet_NaN\<close> of an integer type is 0. The signed cast reads an \<open>int\<close>,
  the 32-bit cast an \<open>unsigned long\<close> that is truncated. The general template throws.
\<close>

definition castQuietly :: "string \<Rightarrow> string option \<Rightarrow> 'a result" where
  "castQuietly type_name opt = Inl (Not_Implemented (''QuietCastOptionalHelper<'' @ type_name @ ''>::Not implemented.''))"

definition castQuietly_int64 :: "string option \<Rightarrow> int result" where
  "castQuietly_int64 opt = (case opt of None \<Rightarrow> Inr 0 | Some s \<Rightarrow> stoi s)"

definition castQuietly_uint64 :: "string option \<Rightarrow> u64 result" where
  "castQuietly_uint64 opt = (case opt of None \<Rightarrow> Inr 0 | Some s \<Rightarrow> stoul s)"

definition castQuietly_uint32 :: "string option \<Rightarrow> u32 result" where
  "castQuietly_uint32 opt =
     (case opt of None \<Rightarrow> Inr 0 | Some s \<Rightarrow> bind_result (stoul s) (\<lambda>v. Inr (ucast v)))"

text \<open>The names under which the values of a status are looked up.\<close>

definition PARAMETER_STATUS_LOAD_INDICATION :: string where [simp]: "PARAMETER_STATUS_LOAD_INDICATION = ''load_indication''"
definition PARAMETER_STATUS_SYSTEM_TIME_RAW :: string where [simp]: "PARAMETER_STATUS_SYSTEM_TIME_RAW = ''system_time_raw''"
definition PARAMETER_STATUS_UP_TIME :: string where [simp]: "PARAMETER_STATUS_UP_TIME = ''up_time''"
definition PARAMETER_STATUS_POWER_CYCLES :: string where [simp]: "PARAMETER_STATUS_POWER_CYCLES = ''power_cycles''"
definition PARAMETER_STATUS_OPERATION_TIME :: string where [simp]: "PARAMETER_STATUS_OPERATION_TIME = ''operation_time''"
definition PARAMETER_STATUS_OPERATION_TIME_SCALED :: string where [simp]: "PARAMETER_STATUS_OPERATION_TIME_SCALED = ''operation_time_scaled''"
definition PARAMETER_STATUS_TEMPERATURE_CURRENT :: string where [simp]: "PARAMETER_STATUS_TEMPERATURE_CURRENT = ''temperature_current''"
definition PARAMETER_STATUS_TEMPERATURE_MIN :: string where [simp]: "PARAMETER_STATUS_TEMPERATURE_MIN = ''temperature_min''"
definition PARAMETER_STATUS_TEMPERATURE_MAX :: string where [simp]: "PARAMETER_STATUS_TEMPERATURE_MAX = ''temperature_max''"

type_synonym DeviceStatus = ParametersMap

definition getOptionalFromParameters :: "ParametersMap \<Rightarrow> string \<Rightarrow> string option" where
  "getOptionalFromParameters parameters key = (if \<not> pm_count parameters key then None else map_of parameters key)"

definition getStatusFlags :: "DeviceStatus \<Rightarrow> StatusFlagInterpreter result" where
  "getStatusFlags status =
     (let optional = getOptionalFromParameters status PARAMETER_STATUS_FLAGS
      in if optional \<noteq> None then castQuietly_uint32 optional else Inr 0x00000000)"

text \<open>The getters catch the two exceptions of \<open>std::stoul\<close> and return the value given as fallback.\<close>

definition otherwise :: "u64 result \<Rightarrow> u64 \<Rightarrow> u64 result" where
  "otherwise r fallback =
     (case r of Inl Invalid_Argument \<Rightarrow> Inr fallback | Inl Out_Of_Range \<Rightarrow> Inr fallback | _ \<Rightarrow> r)"

definition getCpuLoad :: "DeviceStatus \<Rightarrow> u64 \<Rightarrow> u64 result" where
  "getCpuLoad status fallback =
     otherwise (castQuietly_uint64 (getOptionalFromParameters status PARAMETER_STATUS_LOAD_INDICATION)) fallback"

definition getRawSystemTime :: "DeviceStatus \<Rightarrow> u64 \<Rightarrow> u64 result" where
  "getRawSystemTime status fallback =
     otherwise (castQuietly_uint64 (getOptionalFromParameters status PARAMETER_STATUS_SYSTEM_TIME_RAW)) fallback"

definition getUptime :: "DeviceStatus \<Rightarrow> u64 \<Rightarrow> u64 result" where
  "getUptime status fallback =
     otherwise (castQuietly_uint64 (getOptionalFromParameters status PARAMETER_STATUS_UP_TIME)) fallback"

definition getPowerCyclesCount :: "DeviceStatus \<Rightarrow> u64 \<Rightarrow> u64 result" where
  "getPowerCyclesCount status fallback =
     otherwise (castQuietly_uint64 (getOptionalFromParameters status PARAMETER_STATUS_POWER_CYCLES)) fallback"

definition getOperationTime :: "DeviceStatus \<Rightarrow> u64 \<Rightarrow> u64 result" where
  "getOperationTime status fallback =
     otherwise (castQuietly_uint64 (getOptionalFromParameters status PARAMETER_STATUS_OPERATION_TIME)) fallback"

definition getScaledOperationTime :: "DeviceStatus \<Rightarrow> u64 \<Rightarrow> u64 result" where
  "getScaledOperationTime status fallback =
     otherwise (castQuietly_uint64 (getOptionalFromParameters status PARAMETER_STATUS_OPERATION_TIME_SCALED)) fallback"

definition getCurrentTemperature :: "DeviceStatus \<Rightarrow> u64 \<Rightarrow> u64 result" where
  "getCurrentTemperature status fallback =
     otherwise (castQuietly_uint64 (getOptionalFromParameters status PARAMETER_STATUS_TEMPERATURE_CURRENT)) fallback"

definition getMinimalTemperature :: "DeviceStatus \<Rightarrow> u64 \<Rightarrow> u64 result" where
  "getMinimalTemperature status fallback =
     otherwise (castQuietly_uint64 (getOptionalFromParameters status PARAMETER_STATUS_TEMPERATURE_MIN)) fallback"

definition getMaximalTemperature :: "DeviceStatus \<Rightarrow> u64 \<Rightarrow> u64 result" where
  "getMaximalTemperature status fallback =
     otherwise (castQuietly_uint64 (getOptionalFromParameters status PARAMETER_STATUS_TEMPERATURE_MAX)) fallback"

section \<open>The watcher\<close>

datatype watcher_event = Status_Available nat DeviceStatus | Device_Connected nat | Device_Disconnected nat

record StatusWatcher =
  sw_lastStatusReceived :: DeviceStatus
  sw_interruptFlag :: bool
  sw_onStatusAvailableCallbacks :: "nat list"
  sw_onDeviceConnectedCallbacks :: "nat list"
  sw_onDeviceDisconnectedCallbacks :: "nat list"
  sw_isConnected :: bool
  sw_disconnectionTriggerThreshold :: u64
  sw_disconnectionHitCount :: u32
  sw_running :: bool
  sw_events :: "watcher_event list"

definition StatusWatcher_new :: StatusWatcher where
  "StatusWatcher_new =
     \<lparr>sw_lastStatusReceived = [], sw_interruptFlag = False, sw_onStatusAvailableCallbacks = [],
      sw_onDeviceConnectedCallbacks = [], sw_onDeviceDisconnectedCallbacks = [], sw_isConnected = False,
      sw_disconnectionTriggerThreshold = 3, sw_disconnectionHitCount = 0, sw_running = True,
      sw_events = []\<rparr>"

definition StatusWatcher_isAlive :: "StatusWatcher \<Rightarrow> bool" where
  "StatusWatcher_isAlive w = sw_isConnected w"

definition addOnStatusAvailableCallback :: "nat \<Rightarrow> StatusWatcher \<Rightarrow> StatusWatcher" where
  "addOnStatusAvailableCallback callback w =
     w\<lparr>sw_onStatusAvailableCallbacks := sw_onStatusAvailableCallbacks w @ [callback]\<rparr>"

text \<open>The registration is in two steps, between which the task may run: the call of a callback whose
  device is connected, and its addition to the list.\<close>

definition addOnDeviceConnectedCallback_call :: "nat \<Rightarrow> StatusWatcher \<Rightarrow> StatusWatcher" where
  "addOnDeviceConnectedCallback_call callback w =
     (if sw_isConnected w then w\<lparr>sw_events := sw_events w @ [Device_Connected callback]\<rparr> else w)"

definition addOnDeviceConnectedCallback_add :: "nat \<Rightarrow> StatusWatcher \<Rightarrow> StatusWatcher" where
  "addOnDeviceConnectedCallback_add callback w =
     w\<lparr>sw_onDeviceConnectedCallbacks := sw_onDeviceConnectedCallbacks w @ [callback]\<rparr>"

definition addOnDeviceDisconnectedCallback :: "nat \<Rightarrow> StatusWatcher \<Rightarrow> StatusWatcher" where
  "addOnDeviceDisconnectedCallback callback w =
     w\<lparr>sw_onDeviceDisconnectedCallbacks := sw_onDeviceDisconnectedCallbacks w @ [callback]\<rparr>"

definition getLastReceivedStatus :: "StatusWatcher \<Rightarrow> DeviceStatus" where
  "getLastReceivedStatus w = sw_lastStatusReceived w"

text \<open>The threshold is signed; it is stored in an unsigned variable.\<close>

definition setDisconnectionTriggerThreshold :: "int \<Rightarrow> StatusWatcher \<Rightarrow> StatusWatcher" where
  "setDisconnectionTriggerThreshold threshold w = w\<lparr>sw_disconnectionTriggerThreshold := word_of_int threshold\<rparr>"

definition setStatusToOutputAndFireNewStatusEvent :: "DeviceStatus \<Rightarrow> StatusWatcher \<Rightarrow> StatusWatcher" where
  "setStatusToOutputAndFireNewStatusEvent status w =
     (let w1 = w\<lparr>sw_lastStatusReceived := status\<rparr>
      in w1\<lparr>sw_events := sw_events w1
              @ map (\<lambda>callback. Status_Available callback status) (sw_onStatusAvailableCallbacks w1)\<rparr>)"

definition fireDeviceConnectionEvent :: "StatusWatcher \<Rightarrow> StatusWatcher" where
  "fireDeviceConnectionEvent w =
     w\<lparr>sw_events := sw_events w @ map Device_Connected (sw_onDeviceConnectedCallbacks w)\<rparr>"

definition fireDeviceDisconnectionEvent :: "StatusWatcher \<Rightarrow> StatusWatcher" where
  "fireDeviceDisconnectionEvent w =
     w\<lparr>sw_events := sw_events w @ map Device_Disconnected (sw_onDeviceDisconnectedCallbacks w)\<rparr>"

text \<open>The parameters the task asks for, with the calls of the builder in their order.\<close>

definition systemStatus :: ParametersList where
  "systemStatus =
     build_ro RoSystemStatus_method
       [RoSystemStatus_requestLoadIndication, RoSystemStatus_requestSystemTimeRaw, RoSystemStatus_requestUpTime,
        RoSystemStatus_requestPowerCycles, RoSystemStatus_requestOperationTime,
        RoSystemStatus_requestOperationTimeScaled, RoSystemStatus_requestCurrentTemperature,
        RoSystemStatus_requestMinimalTemperature, RoSystemStatus_requestMaximalTemperature,
        RoSystemStatus_requestStatusFlags]"

text \<open>
  What a round of the task does with the outcome of its command, which is \<open>None\<close> when it could not be
  submitted. The hit count is an \<open>unsigned int\<close> and is compared with the 64-bit threshold.
\<close>

definition statusWatcherTask_body ::
  "(RequestResult \<times> ParametersMap) option \<Rightarrow> StatusWatcher \<Rightarrow> StatusWatcher" where
  "statusWatcherTask_body outcome w =
     (case outcome of
        None \<Rightarrow> w
      | Some (requestResult, obtainedParameters) \<Rightarrow>
          (if requestResult = SUCCESS
           then let w1 = w\<lparr>sw_disconnectionHitCount := 0\<rparr>;
                    w2 = setStatusToOutputAndFireNewStatusEvent obtainedParameters w1;
                    wasConnected = sw_isConnected w2;
                    w3 = w2\<lparr>sw_isConnected := True\<rparr>
                in if \<not> wasConnected then fireDeviceConnectionEvent w3 else w3
           else let w1 = w\<lparr>sw_disconnectionHitCount := sw_disconnectionHitCount w + 1\<rparr>
                in if sw_disconnectionTriggerThreshold w1 \<le> ucast (sw_disconnectionHitCount w1)
                   then let wasConnected = sw_isConnected w1;
                            w2 = w1\<lparr>sw_isConnected := False\<rparr>
                        in if wasConnected then fireDeviceDisconnectionEvent w2 else w2
                   else w1))"

text \<open>A whole round: the test of the loop, and the round when it goes on.\<close>

definition statusWatcherTask_round ::
  "(RequestResult \<times> ParametersMap) option \<Rightarrow> StatusWatcher \<Rightarrow> StatusWatcher" where
  "statusWatcherTask_round outcome w =
     (if sw_interruptFlag w then w\<lparr>sw_running := False\<rparr> else statusWatcherTask_body outcome w)"

text \<open>The destructor interrupts the task and waits for it.\<close>

definition StatusWatcher_destroy :: "StatusWatcher \<Rightarrow> StatusWatcher" where
  "StatusWatcher_destroy w =
     (if \<not> sw_interruptFlag w then w\<lparr>sw_interruptFlag := True, sw_running := False\<rparr> else w)"

section \<open>Rounds\<close>

lemma ucast_of_nat_u64: "(ucast (of_nat n :: u64) :: u32) = of_nat n"
  by (simp add: word_unat_eq_iff unsigned_ucast_eq unsigned_of_nat take_bit_of_nat)


lemmas round_defs =
  statusWatcherTask_round_def statusWatcherTask_body_def setStatusToOutputAndFireNewStatusEvent_def fireDeviceConnectionEvent_def
  fireDeviceDisconnectionEvent_def Let_def

abbreviation rounds :: "(RequestResult \<times> ParametersMap) option list \<Rightarrow> StatusWatcher \<Rightarrow> StatusWatcher" where
  "rounds outcomes w \<equiv> fold statusWatcherTask_round outcomes w"

lemma round_keeps:
  "sw_interruptFlag (statusWatcherTask_round outcome w) = sw_interruptFlag w"
  "sw_disconnectionTriggerThreshold (statusWatcherTask_round outcome w) = sw_disconnectionTriggerThreshold w"
  "sw_onDeviceConnectedCallbacks (statusWatcherTask_round outcome w) = sw_onDeviceConnectedCallbacks w"
  "sw_onDeviceDisconnectedCallbacks (statusWatcherTask_round outcome w) = sw_onDeviceDisconnectedCallbacks w"
  by (auto simp: round_defs split: option.split)

lemma round_busy: "\<not> sw_interruptFlag w \<Longrightarrow> statusWatcherTask_round None w = w"
  by (simp add: round_defs)

lemma round_success:
  assumes "\<not> sw_interruptFlag w"
  shows "sw_disconnectionHitCount (statusWatcherTask_round (Some (SUCCESS, ps)) w) = 0"
    and "sw_isConnected (statusWatcherTask_round (Some (SUCCESS, ps)) w)"
  using assms by (simp_all add: round_defs)

lemma round_failure:
  assumes "\<not> sw_interruptFlag w" and "res \<noteq> SUCCESS"
  shows "sw_disconnectionHitCount (statusWatcherTask_round (Some (res, ps)) w) = sw_disconnectionHitCount w + 1"
    and "sw_isConnected (statusWatcherTask_round (Some (res, ps)) w) \<longleftrightarrow>
      sw_isConnected w \<and> \<not> sw_disconnectionTriggerThreshold w \<le> ucast (sw_disconnectionHitCount w + 1)"
  using assms by (simp_all add: round_defs)

lemma rounds_keep:
  "sw_interruptFlag (rounds outcomes w) = sw_interruptFlag w"
  "sw_disconnectionTriggerThreshold (rounds outcomes w) = sw_disconnectionTriggerThreshold w"
  "sw_onDeviceConnectedCallbacks (rounds outcomes w) = sw_onDeviceConnectedCallbacks w"
  "sw_onDeviceDisconnectedCallbacks (rounds outcomes w) = sw_onDeviceDisconnectedCallbacks w"
  by (induction outcomes arbitrary: w) (simp_all add: round_keeps)

text \<open>The results of the commands that could be submitted, and the failures since the last success.\<close>

definition results :: "(RequestResult \<times> ParametersMap) option list \<Rightarrow> RequestResult list" where
  "results outcomes = concat (map (\<lambda>outcome. case outcome of None \<Rightarrow> [] | Some (res, _) \<Rightarrow> [res]) outcomes)"

definition trailing_failures :: "RequestResult list \<Rightarrow> nat" where
  "trailing_failures rs = length (takeWhile (\<lambda>res. res \<noteq> SUCCESS) (rev rs))"

lemma results_simps [simp]:
  "results [] = []"
  "results (outcomes @ [None]) = results outcomes"
  "results (outcomes @ [Some (res, ps)]) = results outcomes @ [res]"
  by (simp_all add: results_def)

lemma trailing_failures_simps [simp]:
  "trailing_failures [] = 0"
  "trailing_failures (rs @ [res]) = (if res = SUCCESS then 0 else Suc (trailing_failures rs))"
  by (simp_all add: trailing_failures_def)

lemma results_length: "length (results outcomes) \<le> length outcomes"
  by (induction outcomes rule: rev_induct) (auto simp: results_def split: option.split)

lemma trailing_failures_le: "trailing_failures rs \<le> length rs"
  unfolding trailing_failures_def using length_takeWhile_le [of _ "rev rs"] by simp

lemma unat_Suc_u32: "Suc n < 2 ^ 32 \<Longrightarrow> unat h = n \<Longrightarrow> unat (h + 1 :: u32) = Suc n"
  by (simp add: unat_word_ariths)

lemma rounds_state:
  assumes "\<not> sw_interruptFlag w" and "\<not> sw_isConnected w" and "sw_disconnectionHitCount w = 0"
    and "length outcomes < 2 ^ 32"
  shows "unat (sw_disconnectionHitCount (rounds outcomes w)) = trailing_failures (results outcomes) \<and>
    (sw_isConnected (rounds outcomes w) \<longleftrightarrow>
       trailing_failures (results outcomes) < length (results outcomes) \<and>
       (trailing_failures (results outcomes) = 0 \<or>
        trailing_failures (results outcomes) < unat (sw_disconnectionTriggerThreshold w)))"
  using assms(4)
proof (induction outcomes rule: rev_induct)
  case Nil
  then show ?case using assms by simp
next
  case (snoc outcome outcomes)
  let ?v = "rounds outcomes w"
  let ?f = "trailing_failures (results outcomes)"
  have IH: "unat (sw_disconnectionHitCount ?v) = ?f"
    "sw_isConnected ?v \<longleftrightarrow> ?f < length (results outcomes) \<and>
       (?f = 0 \<or> ?f < unat (sw_disconnectionTriggerThreshold w))"
    using snoc by auto
  have running: "\<not> sw_interruptFlag ?v" using assms(1) by (simp add: rounds_keep)
  show ?case
  proof (cases outcome)
    case None
    then show ?thesis using IH running by (simp add: round_busy)
  next
    case (Some p)
    obtain res ps where p: "p = (res, ps)" by (cases p)
    show ?thesis
    proof (cases "res = SUCCESS")
      case True
      then show ?thesis using running by (simp add: Some p round_success)
    next
      case False
      have "Suc ?f < 2 ^ 32"
        using snoc.prems trailing_failures_le [of "results outcomes"] results_length [of outcomes] by simp
      then have hit: "unat (sw_disconnectionHitCount ?v + 1) = Suc ?f" using IH(1) by (rule unat_Suc_u32)
      have "sw_disconnectionTriggerThreshold ?v \<le> ucast (sw_disconnectionHitCount ?v + 1) \<longleftrightarrow>
          unat (sw_disconnectionTriggerThreshold w) \<le> Suc ?f"
        by (simp add: word_le_nat_alt unat_ucast_up hit rounds_keep)
      then show ?thesis
        using False running IH hit by (auto simp: Some p round_failure)
    qed
  qed
qed

section \<open>From the answer of the device to the values of a status\<close>

lemma status_value:
  assumes "map_of status name = Some (nat_to_string n)" and "n < 2 ^ 64"
  shows "otherwise (castQuietly_uint64 (getOptionalFromParameters status name)) fallback = Inr (of_nat n)"
  using assms
  by (simp add: getOptionalFromParameters_def pm_count_iff castQuietly_uint64_def stoul_nat_to_string otherwise_def)

lemma systemStatus_names:
  "set systemStatus = {PARAMETER_LOAD_INDICATION, PARAMETER_SYSTEM_TIME_RAW, PARAMETER_UP_TIME,
      PARAMETER_POWER_CYCLES, PARAMETER_OPERATION_TIME, PARAMETER_OPERATION_TIME_SCALED,
      PARAMETER_TEMPERATURE_CURRENT, PARAMETER_TEMPERATURE_MIN, PARAMETER_TEMPERATURE_MAX, PARAMETER_STATUS_FLAGS}"
  by (simp add: systemStatus_def build_ro_def ADD_RO_PARAMETER_BUILDER_METHOD_def)

text \<open>
  When the device answers the request of the status watcher with a number below 2^64 for each of the ten
  names, the status it gets returns exactly these numbers from its getters, whatever their fallback, and
  the flags modulo 2^32.
\<close>

lemma status_values:
  assumes "da_requestResult answer = SUCCESS"
    and "\<forall>name \<in> set systemStatus.
      pt_get_optional_string ops (da_propertyTree answer) name = Some (nat_to_string (v name)) \<and> v name < 2 ^ 64"
  shows "\<exists>status. GetParameters_onComplete ops systemStatus answer = Inr (SUCCESS, status) \<and>
    getCpuLoad status fallback = Inr (of_nat (v PARAMETER_LOAD_INDICATION)) \<and>
    getRawSystemTime status fallback = Inr (of_nat (v PARAMETER_SYSTEM_TIME_RAW)) \<and>
    getUptime status fallback = Inr (of_nat (v PARAMETER_UP_TIME)) \<and>
    getPowerCyclesCount status fallback = Inr (of_nat (v PARAMETER_POWER_CYCLES)) \<and>
    getOperationTime status fallback = Inr (of_nat (v PARAMETER_OPERATION_TIME)) \<and>
    getScaledOperationTime status fallback = Inr (of_nat (v PARAMETER_OPERATION_TIME_SCALED)) \<and>
    getCurrentTemperature status fallback = Inr (of_nat (v PARAMETER_TEMPERATURE_CURRENT)) \<and>
    getMinimalTemperature status fallback = Inr (of_nat (v PARAMETER_TEMPERATURE_MIN)) \<and>
    getMaximalTemperature status fallback = Inr (of_nat (v PARAMETER_TEMPERATURE_MAX)) \<and>
    getStatusFlags status = Inr (of_nat (v PARAMETER_STATUS_FLAGS))"
proof -
  let ?status = "extractParametersValues ops systemStatus (da_propertyTree answer)"
  have lookup: "map_of ?status name = Some (nat_to_string (v name))" "v name < 18446744073709551616"
    if "name \<in> set systemStatus" for name
    using that assms(2) by (simp_all add: extractParametersValues_lookup)
  have flags: "getStatusFlags ?status = Inr (of_nat (v PARAMETER_STATUS_FLAGS))"
    using lookup [of PARAMETER_STATUS_FLAGS]
    by (simp add: systemStatus_names getStatusFlags_def getOptionalFromParameters_def pm_count_iff castQuietly_uint32_def
        stoul_nat_to_string Let_def ucast_of_nat_u64)
  show ?thesis
    by (intro exI [of _ ?status] conjI flags;
        (unfold getCpuLoad_def getRawSystemTime_def getUptime_def getPowerCyclesCount_def getOperationTime_def
           getScaledOperationTime_def getCurrentTemperature_def getMinimalTemperature_def getMaximalTemperature_def;
         rule status_value; simp add: lookup systemStatus_names |
         simp add: assms(1) GetParameters_onComplete_def DeviceAnswer_bool_def))
qed

section \<open>Properties\<close>

text \<open>
  C35: After any number of rounds of a new task below 2^32, the device is reported as connected exactly
  when a command has succeeded and the commands that failed since the last success are fewer than the
  threshold, or none; commands that could not be submitted do not count.
\<close>

theorem watcher_alive:
  assumes "\<not> sw_interruptFlag w" and "\<not> sw_isConnected w" and "sw_disconnectionHitCount w = 0"
    and "length outcomes < 2 ^ 32"
  shows "StatusWatcher_isAlive (fold statusWatcherTask_round outcomes w) \<longleftrightarrow>
    (let failures = trailing_failures (results outcomes)
     in failures < length (results outcomes) \<and>
        (failures = 0 \<or> failures < unat (sw_disconnectionTriggerThreshold w)))"
  using rounds_state [OF assms] by (simp add: StatusWatcher_isAlive_def Let_def)

theorem watcher_alive_witness:
  "StatusWatcher_isAlive (fold statusWatcherTask_round
     [Some (SUCCESS, []), Some (TIMEOUT, []), None, Some (FAILED, [])] StatusWatcher_new) \<and>
   \<not> StatusWatcher_isAlive (fold statusWatcherTask_round
     [Some (SUCCESS, []), Some (TIMEOUT, []), Some (FAILED, []), None, Some (FAILED, [])] StatusWatcher_new)"
  by (intro conjI; subst watcher_alive) (simp_all add: StatusWatcher_new_def results_def trailing_failures_def)

text \<open>The events other than new statuses.\<close>

fun connection_event :: "watcher_event \<Rightarrow> bool" where
  "connection_event (Status_Available _ _) = False"
| "connection_event _ = True"

lemma connection_event_map [simp]:
  "filter connection_event (map (\<lambda>c. Status_Available c s) cs) = []"
  "filter connection_event (map Device_Connected cs) = map Device_Connected cs"
  "filter connection_event (map Device_Disconnected cs) = map Device_Disconnected cs"
  by (induction cs) simp_all

text \<open>What one round reports: a change of the connection, to all callbacks, or nothing.\<close>

abbreviation report :: "StatusWatcher \<Rightarrow> bool \<Rightarrow> watcher_event list" where
  "report w connected \<equiv>
     if connected then map Device_Connected (sw_onDeviceConnectedCallbacks w)
     else map Device_Disconnected (sw_onDeviceDisconnectedCallbacks w)"

lemma round_reports:
  "filter connection_event (sw_events (statusWatcherTask_round outcome w)) =
     filter connection_event (sw_events w) @
     (if sw_isConnected (statusWatcherTask_round outcome w) = sw_isConnected w then []
      else report w (sw_isConnected (statusWatcherTask_round outcome w)))"
  by (auto simp: round_defs split: option.split)

text \<open>
  C34: Whatever the outcomes of the commands, the reports alternate: starting from a disconnected watcher
  the first is a connection, each report goes to all callbacks registered for it, and the last one
  agrees with the status the user can ask for.
\<close>

theorem watcher_reports_alternate:
  assumes "\<not> sw_isConnected w" and "sw_events w = []"
  shows "\<exists>changes.
    filter connection_event (sw_events (fold statusWatcherTask_round outcomes w)) =
      concat (map (\<lambda>connected. if connected then map Device_Connected (sw_onDeviceConnectedCallbacks w)
                   else map Device_Disconnected (sw_onDeviceDisconnectedCallbacks w)) changes) \<and>
    distinct_adj (False # changes) \<and>
    StatusWatcher_isAlive (fold statusWatcherTask_round outcomes w) = last (False # changes)"
proof (induction outcomes rule: rev_induct)
  case Nil
  show ?case using assms by (intro exI [of _ "[]"]) (simp add: StatusWatcher_isAlive_def)
next
  case (snoc outcome outcomes)
  let ?v = "rounds outcomes w"
  let ?v' = "statusWatcherTask_round outcome ?v"
  obtain changes where changes:
    "filter connection_event (sw_events ?v) = concat (map (report w) changes)"
    "distinct_adj (False # changes)" "sw_isConnected ?v = last (False # changes)"
    using snoc by (auto simp: StatusWatcher_isAlive_def)
  show ?case
  proof (cases "sw_isConnected ?v' = sw_isConnected ?v")
    case True
    with changes show ?thesis
      by (intro exI [of _ changes]) (simp add: round_reports StatusWatcher_isAlive_def)
  next
    case False
    have "distinct_adj ((False # changes) @ [sw_isConnected ?v'])"
      using False changes(2,3) unfolding distinct_adj_append_iff by auto
    with False changes show ?thesis
      by (intro exI [of _ "changes @ [sw_isConnected ?v']"])
        (simp add: round_reports rounds_keep StatusWatcher_isAlive_def)
  qed
qed

theorem watcher_reports_alternate_witness:
  "\<exists>changes. filter connection_event (sw_events (fold statusWatcherTask_round
       [Some (SUCCESS, []), Some (SUCCESS, []), Some (FAILED, [])] StatusWatcher_new)) =
     concat (map (\<lambda>connected. if connected then map Device_Connected (sw_onDeviceConnectedCallbacks StatusWatcher_new)
                   else map Device_Disconnected (sw_onDeviceDisconnectedCallbacks StatusWatcher_new)) changes) \<and>
     distinct_adj (False # changes) \<and>
     StatusWatcher_isAlive (fold statusWatcherTask_round
       [Some (SUCCESS, []), Some (SUCCESS, []), Some (FAILED, [])] StatusWatcher_new) = last (False # changes)"
  by (rule watcher_reports_alternate) (simp_all add: StatusWatcher_new_def)

end
