(* ===== verification/Supervision.thy ===== *)
theory Supervision
  imports Client_Task Status_Watcher Data_Link
begin

text \<open>
  The two tasks of the driver that run on the asynchronous client, as instances of \<open>Client_Task\<close>: the status
  watcher with the client it owns, and the watchdog of a link on the client of its device. What they
  report is traced back to the answers of the device.
\<close>

section \<open>The status watcher and its client\<close>

text \<open>The operations a user of a watcher may call while its task runs.\<close>

datatype watcher_call =
    Add_Status_Callback nat
  | Call_If_Connected nat
  | Add_Connected_Callback nat
  | Add_Disconnected_Callback nat
  | Set_Threshold int

fun watcher_apply :: "watcher_call \<Rightarrow> StatusWatcher \<Rightarrow> StatusWatcher" where
  "watcher_apply (Add_Status_Callback c) = addOnStatusAvailableCallback c"
| "watcher_apply (Call_If_Connected c) = addOnDeviceConnectedCallback_call c"
| "watcher_apply (Add_Connected_Callback c) = addOnDeviceConnectedCallback_add c"
| "watcher_apply (Add_Disconnected_Callback c) = addOnDeviceDisconnectedCallback c"
| "watcher_apply (Set_Threshold n) = setDisconnectionTriggerThreshold n"

text \<open>The names of a status, as one command asks for them.\<close>

definition status_names :: string where
  "status_names = (case chainAndConvertParametersToString [systemStatus] of Inr (chain, _) \<Rightarrow> chain | Inl _ \<Rightarrow> [])"

definition status_outcome :: "'tree ptree_ops \<Rightarrow> 'tree DeviceAnswer \<Rightarrow> RequestResult \<times> ParametersMap" where
  "status_outcome ops answer =
     (da_requestResult answer,
      if DeviceAnswer_bool answer then extractParametersValues ops systemStatus (da_propertyTree answer) else [])"

definition status_task ::
  "'tree ptree_ops \<Rightarrow> ('tree, RequestResult \<times> ParametersMap, watcher_call, StatusWatcher) task_ops" where
  "status_task ops =
     \<lparr>to_command = COMMAND_GET_PARAMETER, to_parameters = [(PARAMETER_NAME_LIST, status_names)], to_timeout = 1000,
      to_complete = status_outcome ops, to_body = statusWatcherTask_body,
      to_interrupted = sw_interruptFlag, to_interrupt = (\<lambda>w. w\<lparr>sw_interruptFlag := True\<rparr>),
      to_leave = (\<lambda>w. w\<lparr>sw_running := False\<rparr>), to_call = watcher_apply\<rparr>"

text \<open>The command of the task is the one of \<open>Device_Commands\<close>, and so is what it makes of an answer.\<close>

lemma systemStatus_chain:
  "chainAndConvertParametersToString [systemStatus] = Inr (status_names, systemStatus)"
proof -
  have "systemStatus \<noteq> []"
    by (simp add: systemStatus_def build_ro_def ADD_RO_PARAMETER_BUILDER_METHOD_def)
  then have "\<exists>chain. chainAndConvertParametersToString [systemStatus] = Inr (chain, systemStatus)"
    by (auto simp: chainAndConvertParametersToString_def Let_def ParametersChaining_list_concat chained_names)
  then show ?thesis by (auto simp: status_names_def)
qed

lemma status_task_command:
  "GetParameters_asyncExecute [systemStatus] 1000 callable r = Inr (systemStatus, task_send (status_task ops) callable r)"
  by (simp add: GetParameters_asyncExecute_def systemStatus_chain task_send_def status_task_def)

lemma status_task_outcome: "GetParameters_onComplete ops systemStatus answer = Inr (status_outcome ops answer)"
  by (simp add: GetParameters_onComplete_def status_outcome_def)

lemma status_task_round:
  "statusWatcherTask_round outcome w =
     (if to_interrupted (status_task ops) w then to_leave (status_task ops) w else to_body (status_task ops) outcome w)"
  by (simp add: status_task_def statusWatcherTask_round_def)

text \<open>
  What a watcher owes to the outcomes of its rounds: the statuses and the reports of a connection come
  from successes, the reports of a disconnection from a failure.
\<close>

definition watcher_owes :: "(RequestResult \<times> ParametersMap \<Rightarrow> bool) \<Rightarrow> StatusWatcher \<Rightarrow> bool" where
  "watcher_owes P w \<longleftrightarrow>
     (\<forall>callback status. Status_Available callback status \<in> set (sw_events w) \<longrightarrow> P (SUCCESS, status)) \<and>
     (sw_lastStatusReceived w = [] \<or> P (SUCCESS, sw_lastStatusReceived w)) \<and>
     (sw_isConnected w \<or> (\<exists>callback. Device_Connected callback \<in> set (sw_events w)) \<longrightarrow> (\<exists>status. P (SUCCESS, status))) \<and>
     (\<forall>callback. Device_Disconnected callback \<in> set (sw_events w) \<longrightarrow> (\<exists>res status. res \<noteq> SUCCESS \<and> P (res, status)))"

lemma watcher_owes_body:
  assumes "watcher_owes P w" and "\<And>v. outcome = Some v \<Longrightarrow> P v"
  shows "watcher_owes P (statusWatcherTask_body outcome w)"
proof (cases outcome)
  case None
  then show ?thesis using assms(1) by (simp add: statusWatcherTask_body_def)
next
  case (Some v)
  obtain res status where v: "v = (res, status)" by (cases v)
  have "P (res, status)" using assms(2) Some v by simp
  then show ?thesis
    using assms(1) unfolding Some v watcher_owes_def
    by (cases "res = SUCCESS") (auto simp: round_defs)
qed

interpretation status_watcher: client_task "status_task ops" watcher_owes
  "\<lambda>w. (sw_isConnected w, sw_lastStatusReceived w, sw_running w)"
proof unfold_locales
  fix P Q :: "RequestResult \<times> ParametersMap \<Rightarrow> bool" and w
  assume "watcher_owes P w" "\<And>v. P v \<Longrightarrow> Q v"
  then show "watcher_owes Q w" unfolding watcher_owes_def by blast
next
  fix P w outcome
  assume "watcher_owes P w" "\<And>v. outcome = Some v \<Longrightarrow> P v"
  then show "watcher_owes P (to_body (status_task ops) outcome w)" by (simp add: status_task_def watcher_owes_body)
next
  fix P w c
  assume owes: "watcher_owes P w"
  then show "watcher_owes P (to_interrupt (status_task ops) w)" "watcher_owes P (to_leave (status_task ops) w)"
    by (simp_all add: status_task_def watcher_owes_def)
  show "watcher_owes P (to_call (status_task ops) c w)"
    using owes
    by (cases c) (auto simp: status_task_def watcher_owes_def addOnStatusAvailableCallback_def
        addOnDeviceConnectedCallback_call_def addOnDeviceConnectedCallback_add_def
        addOnDeviceDisconnectedCallback_def setDisconnectionTriggerThreshold_def)
next
  fix w c
  let ?status = "\<lambda>w. (sw_isConnected w, sw_lastStatusReceived w, sw_running w)"
  show "?status (to_interrupt (status_task ops) w) = ?status w" by (simp add: status_task_def)
  show "?status (to_call (status_task ops) c w) = ?status w"
    by (cases c) (auto simp: status_task_def addOnStatusAvailableCallback_def
        addOnDeviceConnectedCallback_call_def addOnDeviceConnectedCallback_add_def
        addOnDeviceDisconnectedCallback_def setDisconnectionTriggerThreshold_def)
qed

section \<open>The watchdog of a link and the client of its device\<close>

text \<open>What else happens to a link while its watchdog runs.\<close>

datatype link_call =
    Add_Lost_Callback nat
  | Add_Scan_Callback nat
  | Publish Scan
  | Stall_Round time_point

fun link_apply :: "link_call \<Rightarrow> DataLink \<Rightarrow> DataLink" where
  "link_apply (Add_Lost_Callback c) = addOnDataLinkConnectionLostCallback c"
| "link_apply (Add_Scan_Callback c) = addOnNewScanAvailableCallback c"
| "link_apply (Publish scan) = setOutputScanFromCompletedFactory scan"
| "link_apply (Stall_Round now) = stallMonitoringTask_round now"

definition watchdog_task :: "string \<Rightarrow> ('tree, RequestResult, link_call, DataLink) task_ops" where
  "watchdog_task handle =
     \<lparr>to_command = COMMAND_FEED_WATCHDOG, to_parameters = [(PARAMETER_NAME_HANDLE, handle)], to_timeout = 1000,
      to_complete = da_requestResult, to_body = watchdogTask_body,
      to_interrupted = dl_interruptFlag, to_interrupt = (\<lambda>link. link\<lparr>dl_interruptFlag := True\<rparr>),
      to_leave = (\<lambda>link. link\<lparr>dl_watchdogTask := False\<rparr>), to_call = link_apply\<rparr>"

lemma watchdog_task_command:
  "FeedWatchdog_asyncExecute handle 1000 callable r = task_send (watchdog_task handle) callable r"
  "FeedWatchdog_onComplete answer = Inr (to_complete (watchdog_task handle) answer)"
  by (simp_all add: FeedWatchdog_asyncExecute_def FeedWatchdog_onComplete_def task_send_def watchdog_task_def)

lemma watchdog_task_round:
  "watchdogTask_round outcome link =
     (if to_interrupted (watchdog_task handle) link then to_leave (watchdog_task handle) link
      else to_body (watchdog_task handle) outcome link)"
  by (simp add: watchdog_task_def watchdogTask_round_def)

text \<open>A reported loss is owed to a failure.\<close>

definition link_owes :: "(RequestResult \<Rightarrow> bool) \<Rightarrow> DataLink \<Rightarrow> bool" where
  "link_owes P link \<longleftrightarrow>
     (\<forall>callback. Connection_Lost callback \<in> set (dl_events link) \<longrightarrow> (\<exists>res. res \<noteq> SUCCESS \<and> P res))"

lemmas link_call_defs =
  addOnDataLinkConnectionLostCallback_def addOnNewScanAvailableCallback_def setOutputScanFromCompletedFactory_def
  fireOnScanAvailableEvent_def stallMonitoringTask_round_def

interpretation link_watchdog: client_task "watchdog_task handle" link_owes dl_watchdogTask
proof unfold_locales
  fix P Q :: "RequestResult \<Rightarrow> bool" and link
  assume "link_owes P link" "\<And>v. P v \<Longrightarrow> Q v"
  then show "link_owes Q link" unfolding link_owes_def by blast
next
  fix P link outcome
  assume "link_owes P link" "\<And>v. outcome = Some v \<Longrightarrow> P v"
  then show "link_owes P (to_body (watchdog_task handle) outcome link)"
    by (auto simp: watchdog_task_def watchdogTask_body_def link_owes_def fireDataLinkConnectionLostEvent_def Let_def
        split: option.split)
next
  fix P link c
  assume owes: "link_owes P link"
  then show "link_owes P (to_interrupt (watchdog_task handle) link)" "link_owes P (to_leave (watchdog_task handle) link)"
    by (simp_all add: watchdog_task_def link_owes_def)
  show "link_owes P (to_call (watchdog_task handle) c link)"
    using owes by (cases c) (auto simp: watchdog_task_def link_owes_def link_call_defs Let_def)
next
  fix link c
  show "dl_watchdogTask (to_interrupt (watchdog_task handle) link) = dl_watchdogTask link"
    by (simp add: watchdog_task_def)
  show "dl_watchdogTask (to_call (watchdog_task handle) c link) = dl_watchdogTask link"
    by (cases c) (auto simp: watchdog_task_def link_call_defs Let_def)
qed

section \<open>Properties\<close>

text \<open>The values of an answer the device gave to a request of the watcher; and a request that failed.\<close>

definition status_request :: string where
  "status_request = makeRequestFromParameters COMMAND_GET_PARAMETER [(PARAMETER_NAME_LIST, status_names)]"

definition status_given :: "'tree ptree_ops \<Rightarrow> ('tree, 'ep) R2000 \<Rightarrow> DeviceStatus \<Rightarrow> bool" where
  "status_given ops r status \<longleftrightarrow>
     (\<exists>j answer socket. (j, answer) \<in> set (r2_calls r) \<and> jb_request j = status_request \<and>
        HttpGet_socket ops socket status_request = Inr answer \<and> da_requestResult answer = SUCCESS \<and>
        status = extractParametersValues ops systemStatus (da_propertyTree answer))"

definition request_failed :: "string \<Rightarrow> ('tree, 'ep) R2000 \<Rightarrow> bool" where
  "request_failed request r \<longleftrightarrow>
     (\<exists>j answer. (j, answer) \<in> set (r2_calls r) \<and> jb_request j = request \<and> da_requestResult answer \<noteq> SUCCESS)"

lemma status_task_simps [simp]:
  "task_request (status_task ops) = status_request" "to_complete (status_task ops) = status_outcome ops"
  "to_body (status_task ops) = statusWatcherTask_body" "to_interrupted (status_task ops) = sw_interruptFlag"
  "to_call (status_task ops) = watcher_apply"
  by (simp_all add: task_request_def status_task_def status_request_def)

lemma status_obtained:
  assumes "task_run ops throws (status_task ops) False w s"
    and "status_watcher.obtained ops (rq_client s) (res, status)"
  shows "if res = SUCCESS then status_given ops (rq_client s) status else request_failed status_request (rq_client s)"
proof -
  obtain j answer where call: "(j, answer) \<in> set (r2_calls (rq_client s))" "jb_request j = status_request"
    "(res, status) = status_outcome ops answer"
    using assms(2) unfolding status_watcher.obtained_def by auto
  have run: "R2000_run ops throws (accepted s) (rq_client s)"
    using task_inv_run [OF assms(1)] by (simp add: task_inv_def)
  show ?thesis
  proof (cases "res = SUCCESS")
    case True
    then have "da_requestResult answer = SUCCESS" using call(3) by (simp add: status_outcome_def)
    from success_from_device [OF run call(1) this] this call True show ?thesis
      by (auto simp: status_given_def status_outcome_def DeviceAnswer_bool_def)
  next
    case False
    with call show ?thesis by (auto simp: request_failed_def status_outcome_def)
  qed
qed

text \<open>
  C10: In every run of the watcher with its client, whatever the network does, whatever a callback throws
  on and whenever callbacks are added: every status given to a callback or returned as the last one holds
  the values of an answer the device gave to the request of the watcher; the device is alive, or a
  connection reported, only if there was such an answer; and a disconnection is reported only if some
  request of the watcher failed.
\<close>

theorem statuses_real:
  assumes "task_run ops throws (status_task ops) False StatusWatcher_new s"
  shows "(\<forall>callback status. Status_Available callback status \<in> set (sw_events (rq_task s)) \<longrightarrow>
      status_given ops (rq_client s) status) \<and>
    (getLastReceivedStatus (rq_task s) = [] \<or> status_given ops (rq_client s) (getLastReceivedStatus (rq_task s))) \<and>
    (StatusWatcher_isAlive (rq_task s) \<or> (\<exists>callback. Device_Connected callback \<in> set (sw_events (rq_task s))) \<longrightarrow>
      (\<exists>status. status_given ops (rq_client s) status)) \<and>
    (\<forall>callback. Device_Disconnected callback \<in> set (sw_events (rq_task s)) \<longrightarrow>
      request_failed status_request (rq_client s))"
proof -
  have "watcher_owes (\<lambda>_. False) StatusWatcher_new" by (simp add: watcher_owes_def StatusWatcher_new_def)
  from status_watcher.outcomes_obtained [OF assms this]
  have owes: "watcher_owes (status_watcher.obtained ops (rq_client s)) (rq_task s)" .
  have "status_watcher.obtained ops (rq_client s) (res, status) \<Longrightarrow>
      if res = SUCCESS then status_given ops (rq_client s) status else request_failed status_request (rq_client s)" for res status
    by (rule status_obtained [OF assms])
  then have "watcher_owes (\<lambda>(res, status).
      if res = SUCCESS then status_given ops (rq_client s) status else request_failed status_request (rq_client s)) (rq_task s)"
    by (intro status_watcher.holds_mono [OF owes]) auto
  then show ?thesis
    unfolding watcher_owes_def getLastReceivedStatus_def StatusWatcher_isAlive_def by fastforce
qed

text \<open>A device that answers every name with its length, and the first round of a watcher on it.\<close>

definition example_status_ops :: "string ptree_ops" where
  "example_status_ops =
     example_ptree_ops\<lparr>pt_get_optional_string :=
       \<lambda>_ name. Some (if name = ERROR_TEXT then ''success'' else nat_to_string (length name))\<rparr>"

definition example_status :: DeviceStatus where
  "example_status = extractParametersValues example_status_ops systemStatus ''{}''"

lemma example_status_values:
  "name \<in> set systemStatus \<Longrightarrow> pt_get_optional_string example_status_ops tree name = Some (nat_to_string (length name))"
  by (auto simp: systemStatus_names example_status_ops_def)

lemma example_status_tree:
  "pt_read_json example_status_ops (cleaned_body [CHR ''{'', LF, CHR ''}'']) = Inr ''{}''"
  "verifyErrorCode example_status_ops ''{}''"
  by (simp_all add: example_status_ops_def example_ptree_ops_def cleaned_body_def LF_def CR_def verifyErrorCode_def)

lemma response_success:
  assumes "response_pieces (socket (''GET '' @ path @ '' HTTP/1.0'' @ [CR, LF, CR, LF])) 200 body"
    and "pt_read_json ops (cleaned_body body) = Inr tree" and "verifyErrorCode ops tree"
  shows "HttpGet_socket ops socket path = Inr (DeviceAnswer_with SUCCESS tree)"
  unfolding response_answer [where socket = socket, OF assms(1)] by (simp add: answer_of_response_def assms(2,3))

lemma new_watcher_ready:
  "ready endpoints (rq_client (requester_new w))" "rq_future (requester_new w) = None" "rq_task (requester_new w) = w"
  by (simp_all add: ready_def worker_idle_def requester_new_def R2000_new_def Worker_new_def)

lemma new_watcher_runs [simp]: "sw_interruptFlag StatusWatcher_new = False"
  by (simp add: StatusWatcher_new_def)

lemma example_first_round:
  "\<exists>s :: (string, nat, StatusWatcher) requester.
     task_run example_status_ops (\<lambda>_ _. False) (status_task example_status_ops) False StatusWatcher_new s \<and>
     rq_future s = None \<and> ready [7] (rq_client s) \<and> r2_io (rq_client s) = Running \<and>
     rq_task s = statusWatcherTask_body (Some (SUCCESS, example_status)) StatusWatcher_new"
proof -
  let ?s = "requester_new StatusWatcher_new :: (string, nat, StatusWatcher) requester"
  have answer: "HttpGet_socket example_status_ops (\<lambda>_. example_exchange) (task_request (status_task example_status_ops)) =
      Inr (DeviceAnswer_with SUCCESS ''{}'')"
    by (rule response_success [where socket = "\<lambda>_. example_exchange", OF example_exchange_response example_status_tree])
  have outcome: "status_outcome example_status_ops (DeviceAnswer_with SUCCESS ''{}'') = (SUCCESS, example_status)"
    by (simp add: status_outcome_def DeviceAnswer_with_def DeviceAnswer_bool_def example_status_def)
  obtain s where "(task_step example_status_ops (\<lambda>_ _. False) (status_task example_status_ops) False)\<^sup>*\<^sup>* ?s s"
    "rq_future s = None" "ready [7] (rq_client s)" "r2_io (rq_client s) = Running"
    "rq_task s = statusWatcherTask_body (Some (SUCCESS, example_status)) StatusWatcher_new"
    using round_completes [where throws = "\<lambda>_ _. False" and shared = False and socket = "\<lambda>_. example_exchange"
        and s = ?s and endpoints = "[7]", OF _ task_run.start new_watcher_ready(2) _ new_watcher_ready(1) _ answer]
    by (auto simp: new_watcher_ready outcome)
  moreover from task_run_steps [OF this(1) task_run.start]
  have "task_run example_status_ops (\<lambda>_ _. False) (status_task example_status_ops) False StatusWatcher_new s" .
  ultimately show ?thesis by blast
qed

theorem statuses_real_witness:
  "\<exists>s :: (string, nat, StatusWatcher) requester.
     task_run example_status_ops (\<lambda>_ _. False) (status_task example_status_ops) False StatusWatcher_new s \<and>
     StatusWatcher_isAlive (rq_task s) \<and> (\<exists>status. status_given example_status_ops (rq_client s) status)"
proof -
  obtain s :: "(string, nat, StatusWatcher) requester" where
    run: "task_run example_status_ops (\<lambda>_ _. False) (status_task example_status_ops) False StatusWatcher_new s"
    and "rq_task s = statusWatcherTask_body (Some (SUCCESS, example_status)) StatusWatcher_new"
    using example_first_round by blast
  then have alive: "StatusWatcher_isAlive (rq_task s)" by (simp add: round_defs StatusWatcher_isAlive_def)
  with statuses_real [OF run] run show ?thesis by blast
qed

text \<open>
  C18: When its callbacks of commands do not throw, the watcher never has more than one request under way,
  and its requests are answered in their order. Whenever it asks, its client accepts the request: the
  branch of a busy device is never taken.
\<close>

theorem watcher_one_request:
  assumes "\<forall>cb a. \<not> throws cb a" and "task_run ops throws (status_task ops) False w s"
  shows "length (wk_localJobQueue (r2_worker (rq_client s)) @ wk_jobs (r2_worker (rq_client s)))
      + length (r2_operations (rq_client s)) \<le> 1 \<and>
    (\<exists>unanswered. Worker_accepted (r2_worker (rq_client s)) = map fst (r2_calls (rq_client s)) @ unanswered \<and>
       length unanswered \<le> 1) \<and>
    (rq_future s = None \<longrightarrow>
       (\<exists>r. GetParameters_asyncExecute [systemStatus] 1000 callable (rq_client s) = Inr (systemStatus, r, True)))"
proof (intro conjI impI)
  show "length (wk_localJobQueue (r2_worker (rq_client s)) @ wk_jobs (r2_worker (rq_client s)))
      + length (r2_operations (rq_client s)) \<le> 1"
    using one_request [OF assms] by (simp split: if_splits)
  show "\<exists>unanswered. Worker_accepted (r2_worker (rq_client s)) = map fst (r2_calls (rq_client s)) @ unanswered \<and>
       length unanswered \<le> 1"
    using one_by_one_run [OF assms] by (auto simp: one_by_one_def split: option.splits)
  show "\<exists>r. GetParameters_asyncExecute [systemStatus] 1000 callable (rq_client s) = Inr (systemStatus, r, True)"
    if "rq_future s = None"
    using never_refused [OF assms that, of callable]
    unfolding status_task_command [where ops = ops] by (metis prod.collapse)
qed

theorem watcher_one_request_witness:
  "\<exists>s :: (string, nat, StatusWatcher) requester.
     task_run example_status_ops (\<lambda>_ _. False) (status_task example_status_ops) False StatusWatcher_new s \<and>
     StatusWatcher_isAlive (rq_task s) \<and>
     (\<exists>r. GetParameters_asyncExecute [systemStatus] 1000 5 (rq_client s) = Inr (systemStatus, r, True))"
proof -
  obtain s :: "(string, nat, StatusWatcher) requester" where
    run: "task_run example_status_ops (\<lambda>_ _. False) (status_task example_status_ops) False StatusWatcher_new s"
    and s: "rq_future s = None" "rq_task s = statusWatcherTask_body (Some (SUCCESS, example_status)) StatusWatcher_new"
    using example_first_round by blast
  then have alive: "StatusWatcher_isAlive (rq_task s)" by (simp add: round_defs StatusWatcher_isAlive_def)
  with watcher_one_request [OF _ run, of 5] run s(1) show ?thesis by blast
qed

text \<open>
  C16: A watcher whose callbacks of commands do not throw can hang for good, and the user cannot see it:
  whenever it is between two rounds, its client has nothing to do and the io service task is not asleep,
  there is a continuation after which nothing that can happen changes what the watcher says of the device:
  if it says that the device is alive it says so for ever, the last status stays, and the destructor waits
  for ever for the end of the task.
\<close>

theorem watcher_can_hang:
  assumes "\<forall>cb a. \<not> throws cb a" and "task_run ops throws (status_task ops) False w s"
    and "rq_future s = None" and "\<not> sw_interruptFlag (rq_task s)" and "ready endpoints (rq_client s)"
    and "r2_io (rq_client s) \<noteq> Waiting"
  shows "\<exists>s'. (task_step ops throws (status_task ops) False)\<^sup>*\<^sup>* s s' \<and>
    (\<forall>s''. (task_step ops throws (status_task ops) False)\<^sup>*\<^sup>* s' s'' \<longrightarrow>
       StatusWatcher_isAlive (rq_task s'') = StatusWatcher_isAlive (rq_task s) \<and>
       getLastReceivedStatus (rq_task s'') = getLastReceivedStatus (rq_task s) \<and>
       sw_running (rq_task s'') = sw_running (rq_task s))"
proof -
  obtain s' where s': "(task_step ops throws (status_task ops) False)\<^sup>*\<^sup>* s s'" "stuck s'" "rq_task s' = rq_task s"
    using task_can_hang [OF assms(1-3) _ assms(5,6)] assms(4) by auto
  have "StatusWatcher_isAlive (rq_task s'') = StatusWatcher_isAlive (rq_task s) \<and>
      getLastReceivedStatus (rq_task s'') = getLastReceivedStatus (rq_task s) \<and>
      sw_running (rq_task s'') = sw_running (rq_task s)"
    if "(task_step ops throws (status_task ops) False)\<^sup>*\<^sup>* s' s''" for s''
    using status_watcher.stuck_for_ever [OF that s'(2)] s'(3)
    by (simp add: StatusWatcher_isAlive_def getLastReceivedStatus_def)
  with s'(1) show ?thesis by blast
qed

theorem watcher_can_hang_witness:
  "\<exists>s :: (string, nat, StatusWatcher) requester.
     task_run example_status_ops (\<lambda>_ _. False) (status_task example_status_ops) False StatusWatcher_new s \<and>
     (\<forall>s'. (task_step example_status_ops (\<lambda>_ _. False) (status_task example_status_ops) False)\<^sup>*\<^sup>* s s' \<longrightarrow>
        StatusWatcher_isAlive (rq_task s') \<and> sw_running (rq_task s'))"
proof -
  obtain s :: "(string, nat, StatusWatcher) requester" where
    run: "task_run example_status_ops (\<lambda>_ _. False) (status_task example_status_ops) False StatusWatcher_new s"
    and s: "rq_future s = None" "ready [7] (rq_client s)" "r2_io (rq_client s) = Running"
    "rq_task s = statusWatcherTask_body (Some (SUCCESS, example_status)) StatusWatcher_new"
    using example_first_round by blast
  then have task: "StatusWatcher_isAlive (rq_task s)" "sw_running (rq_task s)" "\<not> sw_interruptFlag (rq_task s)"
    by (simp_all add: round_defs StatusWatcher_isAlive_def StatusWatcher_new_def)
  with watcher_can_hang [OF _ run s(1) task(3) s(2)] s(3) obtain s' where
    path: "(task_step example_status_ops (\<lambda>_ _. False) (status_task example_status_ops) False)\<^sup>*\<^sup>* s s'"
    "\<forall>s''. (task_step example_status_ops (\<lambda>_ _. False) (status_task example_status_ops) False)\<^sup>*\<^sup>* s' s'' \<longrightarrow>
       StatusWatcher_isAlive (rq_task s'') \<and> sw_running (rq_task s'')" by auto
  with task_run_steps [OF path(1) run] show ?thesis by blast
qed

text \<open>
  C15: With a device that answers it hangs in no other way: in every run of the watcher in which the
  callbacks of commands do not throw, there is a continuation, in which the device may have to answer, to
  the end of its task, so that the destructor returns, unless the task waits for an answer that has not
  come while the io service task of its client is out of \<open>run\<close> and the worker has no job
  left; and then there is none.
\<close>

theorem watcher_can_end:
  assumes "\<forall>cb a. \<not> throws cb a" and "task_run ops throws (status_task ops) False w s"
  shows "(\<exists>s'. (task_step ops throws (status_task ops) False)\<^sup>*\<^sup>* s s' \<and> \<not> sw_running (rq_task s')) \<longleftrightarrow>
    \<not> (sw_running (rq_task s) \<and>
       (r2_io (rq_client s) = Returned \<or> r2_io (rq_client s) = Waiting) \<and>
       wk_localJobQueue (r2_worker (rq_client s)) = [] \<and> wk_jobs (r2_worker (rq_client s)) = [] \<and>
       (\<exists>callable. rq_future s = Some callable \<and> future_answer callable (rq_client s) = None))"
proof -
  have "\<exists>s'. (task_step ops throws (status_task ops) False)\<^sup>*\<^sup>* s s' \<and> \<not> sw_running (rq_task s')" if "\<not> stuck s"
    using task_ends [OF assms that] by (fastforce simp: status_task_def)
  moreover have "sw_running (rq_task s') = sw_running (rq_task s)"
    if "stuck s" "(task_step ops throws (status_task ops) False)\<^sup>*\<^sup>* s s'" for s'
    using status_watcher.stuck_for_ever [OF that(2,1)] by simp
  ultimately show ?thesis unfolding stuck_def asleep_def worker_idle_def by blast
qed

theorem watcher_can_end_witness:
  "\<exists>s' :: (string, nat, StatusWatcher) requester.
     (task_step example_status_ops (\<lambda>_ _. False) (status_task example_status_ops) False)\<^sup>*\<^sup>* (requester_new StatusWatcher_new) s' \<and>
     \<not> sw_running (rq_task s')"
  by (rule iffD2 [OF watcher_can_end [OF _ task_run.start]]) (simp_all add: requester_new_def)

text \<open>
  C9: From the bytes of an answer to the user of the watcher: between two rounds of a watcher whose client
  has nothing to do and whose io service task has not ended, when the callbacks of commands do not throw,
  let there be endpoints of the device, the ones the client has already found or, when it has found none
  yet, any. If the device responds with code 200 to the request of the watcher, in whatever pieces, and
  the body holds no error and a number below 2^64 for each name, then there is a continuation to the end
  of a round after which the device is alive, every callback for connections has been called if it was not
  alive before, every callback for statuses has been called with the new status, and the nine getters of
  the values of the last status return these numbers, and the one of the flags the number of the flags
  modulo 2^32.
\<close>

theorem status_from_response:
  assumes "\<forall>cb a. \<not> throws cb a" and "task_run ops throws (status_task ops) False w s"
    and "rq_future s = None" and "\<not> sw_interruptFlag (rq_task s)" and "ready endpoints (rq_client s)" and "endpoints \<noteq> []"
    and "response_pieces (socket (''GET '' @ status_request @ '' HTTP/1.0'' @ [CR, LF, CR, LF])) 200 body"
    and "pt_read_json ops (cleaned_body body) = Inr tree" and "verifyErrorCode ops tree"
    and "\<forall>name \<in> set systemStatus. pt_get_optional_string ops tree name = Some (nat_to_string (v name)) \<and> v name < 2 ^ 64"
  shows "\<exists>s' status. (task_step ops throws (status_task ops) False)\<^sup>*\<^sup>* s s' \<and> rq_future s' = None \<and>
    StatusWatcher_isAlive (rq_task s') \<and> getLastReceivedStatus (rq_task s') = status \<and>
    sw_events (rq_task s') = sw_events (rq_task s)
      @ map (\<lambda>callback. Status_Available callback status) (sw_onStatusAvailableCallbacks (rq_task s))
      @ (if StatusWatcher_isAlive (rq_task s) then [] else map Device_Connected (sw_onDeviceConnectedCallbacks (rq_task s))) \<and>
    getCpuLoad status fallback = Inr (of_nat (v PARAMETER_LOAD_INDICATION)) \<and>
    getRawSystemTime status fallback = Inr (of_nat (v PARAMETER_SYSTEM_TIME_RAW)) \<and>
    getUptime status fallback = Inr (of_nat (v PARAMETER_UP_TIME)) \<and>
    getPowerCyclesCount status fallback = Inr (of_nat (v PARAMETER_POWER_CYCLES)) \<and>
    getOperationTime status fallback = Inr (of_nat (v PARAMETER_OPERATION_TIME)) \<and>
    getScaledOperationTime status fallback = Inr (of_nat (v PARAMETER_OPERATION_TIME_SCALED)) \<and>
    getCurrentTemperature status fallback = Inr (of_nat (v PARAMETER_TEMPERATURE_CURRENT)) \<and>
    getMinimalTemperature status fallback = Inr (of_nat (v PARAMETER_TEMPERATURE_MIN)) \<and>
    getMaximalTemperature status fallback = Inr (of_nat (v PARAMETER_TEMPERATURE_MAX)) \<and>
    getStatusFlags status = Inr (of_nat (v PARAMETER_STATUS_FLAGS mod 2 ^ 32))"
proof -
  let ?answer = "DeviceAnswer_with SUCCESS tree"
  have answer: "HttpGet_socket ops socket (task_request (status_task ops)) = Inr ?answer"
    using response_success [where socket = socket, OF assms(7-9)] by simp
  obtain s' where s': "(task_step ops throws (status_task ops) False)\<^sup>*\<^sup>* s s'" "rq_future s' = None"
    "rq_task s' = statusWatcherTask_body (Some (status_outcome ops ?answer)) (rq_task s)"
    using round_completes [where socket = socket, OF assms(1-3) _ assms(5,6) answer] assms(4) by auto
  obtain status where status: "status_outcome ops ?answer = (SUCCESS, status)"
    by (simp add: status_outcome_def DeviceAnswer_with_def)
  have "StatusWatcher_isAlive (rq_task s')" "getLastReceivedStatus (rq_task s') = status"
    "sw_events (rq_task s') = sw_events (rq_task s)
      @ map (\<lambda>callback. Status_Available callback status) (sw_onStatusAvailableCallbacks (rq_task s))
      @ (if StatusWatcher_isAlive (rq_task s) then [] else map Device_Connected (sw_onDeviceConnectedCallbacks (rq_task s)))"
    by (simp_all add: s'(3) status round_defs StatusWatcher_isAlive_def getLastReceivedStatus_def)
  moreover have "da_requestResult ?answer = SUCCESS" "da_propertyTree ?answer = tree"
    by (simp_all add: DeviceAnswer_with_def)
  from status_values [OF this(1), of ops v fallback] this(2) assms(10) obtain st where
    "GetParameters_onComplete ops systemStatus ?answer = Inr (SUCCESS, st)" and
    getters: "getCpuLoad st fallback = Inr (of_nat (v PARAMETER_LOAD_INDICATION))"
    "getRawSystemTime st fallback = Inr (of_nat (v PARAMETER_SYSTEM_TIME_RAW))"
    "getUptime st fallback = Inr (of_nat (v PARAMETER_UP_TIME))"
    "getPowerCyclesCount st fallback = Inr (of_nat (v PARAMETER_POWER_CYCLES))"
    "getOperationTime st fallback = Inr (of_nat (v PARAMETER_OPERATION_TIME))"
    "getScaledOperationTime st fallback = Inr (of_nat (v PARAMETER_OPERATION_TIME_SCALED))"
    "getCurrentTemperature st fallback = Inr (of_nat (v PARAMETER_TEMPERATURE_CURRENT))"
    "getMinimalTemperature st fallback = Inr (of_nat (v PARAMETER_TEMPERATURE_MIN))"
    "getMaximalTemperature st fallback = Inr (of_nat (v PARAMETER_TEMPERATURE_MAX))"
    "getStatusFlags st = Inr (of_nat (v PARAMETER_STATUS_FLAGS))"
    by metis
  then have "st = status" using status status_task_outcome [of ops ?answer] by simp
  moreover have "(of_nat n :: u32) = of_nat (n mod 2 ^ 32)" for n
    by (simp add: word_unat_eq_iff unsigned_of_nat take_bit_eq_mod)
  then have "getStatusFlags st = Inr (of_nat (v PARAMETER_STATUS_FLAGS mod 2 ^ 32))" using getters(10) by metis
  ultimately show ?thesis using s'(1,2) getters(1-9) by blast
qed

theorem status_from_response_witness:
  "\<exists>s' :: (string, nat, StatusWatcher) requester.
     (task_step example_status_ops (\<lambda>_ _. False) (status_task example_status_ops) False)\<^sup>*\<^sup>* (requester_new StatusWatcher_new) s' \<and>
     StatusWatcher_isAlive (rq_task s') \<and> getUptime (getLastReceivedStatus (rq_task s')) 5 = Inr 7"
proof -
  have numbers: "\<forall>name \<in> set systemStatus.
      pt_get_optional_string example_status_ops ''{}'' name = Some (nat_to_string (length name)) \<and> length name < 2 ^ 64"
    using example_status_values by (simp add: systemStatus_names)
  show ?thesis
    using status_from_response [where throws = "\<lambda>_ _. False" and socket = "\<lambda>_. example_exchange" and endpoints = "[7]"
        and s = "requester_new StatusWatcher_new :: (string, nat, StatusWatcher) requester" and fallback = 5,
        OF _ task_run.start new_watcher_ready(2) _ new_watcher_ready(1) _ example_exchange_response example_status_tree numbers]
    by (auto simp: new_watcher_ready)
qed


lemma watchdog_task_simps [simp]:
  "to_complete (watchdog_task handle) answer = da_requestResult answer"
  "to_body (watchdog_task handle) = watchdogTask_body" "to_interrupted (watchdog_task handle) = dl_interruptFlag"
  by (simp_all add: watchdog_task_def)

text \<open>A device that refuses the request, and the first round of a watchdog on it.\<close>

definition example_refusal :: http_exchange where
  "example_refusal =
     example_exchange\<lparr>hx_status := Some (''HTTP/'' @ ''1.0'' @ CHR '' '' # nat_to_string 400 @ CHR '' '' # ''No'' @ LF # ''Ser'')\<rparr>"

lemma example_refused:
  "HttpGet_socket example_ptree_ops (\<lambda>_. example_refusal) path = Inr (DeviceAnswer_of example_ptree_ops BAD_REQUEST)"
proof -
  have "response_pieces example_refusal 400 [CHR ''{'', LF, CHR ''}'']"
    unfolding response_pieces_def
    by (intro exI [of _ "''1.0''"] exI [of _ "''No''"] exI [of _ "''Ser''"]
        exI [of _ "''ver: x'' @ [CR, LF, CR, LF] @ ''{''"] exI [of _ "[''Server: x'']"] exI [of _ "''{''"])
      (simp add: example_refusal_def example_exchange_def LF_def is_space_def)
  from response_answer [where socket = "\<lambda>_. example_refusal", OF this] show ?thesis
    by (simp add: answer_of_response_def requestResultFromCode_def)
qed

definition example_link :: DataLink where
  "example_link = addOnDataLinkConnectionLostCallback 7 DataLink_initial"


end
