(* ===== verification/Silent_Device.thy ===== *)
theory Silent_Device
  imports Supervision
begin

text \<open>
  The exchange of a request in two steps. The handler of a connection that has succeeded writes the request
  and reads the response (\<open>HttpGet\<close> in \<open>onSocketConnectionAttemptCompleted\<close>, \<open>src/R2000.cpp\<close>) on the task
  of the io service, without a deadline: until the response has come, that task runs nothing else, the
  handlers of the timers included. Here are the executions with the beginning and the end of that handler
  as steps of their own, their relation to those of \<open>R2000_Client\<close>, and what becomes of the status watcher
  when the device accepts the connection and never answers.
\<close>

section \<open>The client while it reads\<close>

text \<open>
  \<open>(r, None)\<close> is a client outside of an exchange; in \<open>(r, Some i)\<close> the io service task is in the exchange of
  the operation \<open>i\<close>, while the worker goes on. The exchange ends when the device has answered, in any
  way, or when the socket has been shut down, by the cancellation that marks the operation: the one or the
  other is the behaviour of the socket. A silent device leaves only the second.
\<close>

inductive exchange_step ::
  "'tree ptree_ops \<Rightarrow> 'tree callbacks \<Rightarrow> bool \<Rightarrow> ('tree, 'ep) R2000 \<times> nat option \<Rightarrow> ('tree, 'ep) R2000 \<times> nat option \<Rightarrow> bool"
  for ops throws silent where
  outside: "R2000_client_step ops throws False r r' \<Longrightarrow> exchange_step ops throws silent (r, None) (r', None)"
| begins: "r2_io r = Running \<Longrightarrow> i < length (r2_operations r) \<Longrightarrow> r2_operations r ! i = Connect j endpoints c \<Longrightarrow>
    endpoints \<noteq> [] \<Longrightarrow> exchange_step ops throws silent (r, None) (r, Some i)"
| works: "exchange_step ops throws silent (r, Some i) (R2000_worker_step ops throws now r, Some i)"
| ends: "r2_operations r = before @ Connect j endpoints c # after \<Longrightarrow> (silent \<Longrightarrow> c) \<Longrightarrow>
    exchange_step ops throws silent (r, Some (length before))
      (onSocketConnectionAttemptCompleted ops throws No_Error socket j (r\<lparr>r2_operations := before @ after\<rparr>), None)"

inductive exchange_run ::
  "'tree ptree_ops \<Rightarrow> 'tree callbacks \<Rightarrow> bool \<Rightarrow> job list \<Rightarrow> ('tree, 'ep) R2000 \<times> nat option \<Rightarrow> bool"
  for ops throws silent where
  start: "exchange_run ops throws silent [] (R2000_new, None)"
| step: "exchange_run ops throws silent js e \<Longrightarrow> exchange_step ops throws silent e e' \<Longrightarrow>
    exchange_run ops throws silent js e'"
| cancel: "exchange_run ops throws silent js (r, reading) \<Longrightarrow>
    exchange_run ops throws silent js (cancelPendingCommands r, reading)"
| submit: "exchange_run ops throws silent js (r, reading) \<Longrightarrow>
    asyncSendHttpCommand command parameters callable timeout r = (r', queued) \<Longrightarrow>
    exchange_run ops throws silent
      (if queued
       then js @ [\<lparr>jb_request = makeRequestFromParameters command parameters, jb_callable = callable,
                   jb_timeout = timeout\<rparr>]
       else js) (r', reading)"

text \<open>The operation that is read stays where it is: what happens meanwhile marks operations or adds one.\<close>

fun can_read :: "'ep operation \<Rightarrow> bool" where
  "can_read (Connect j endpoints c) = (endpoints \<noteq> [])"
| "can_read (Resolve j c) = False"

lemma can_read_cancel [simp]: "can_read (cancel_connect p) = can_read p" "can_read (cancel_resolve p) = can_read p"
  by (cases p, simp_all)+

definition reads :: "('tree, 'ep) R2000 \<Rightarrow> nat option \<Rightarrow> bool" where
  "reads r reading \<longleftrightarrow>
     (\<forall>i. reading = Some i \<longrightarrow> r2_io r = Running \<and> i < length (r2_operations r) \<and> can_read (r2_operations r ! i))"

lemma reads_None [simp]: "reads r None"
  by (simp add: reads_def)

lemma reads_cancel: "reads r reading \<Longrightarrow> reads (cancelPendingCommands r) reading"
  by (simp add: reads_def submission_defs)

lemma reads_submission:
  "asyncSendHttpCommand command parameters callable timeout r = (r', queued) \<Longrightarrow> reads r reading \<Longrightarrow> reads r' reading"
  using submission_accepted(3,4) by (metis reads_def)

lemma reads_worker:
  assumes "reads r reading"
  shows "reads (R2000_worker_step ops throws now r) reading"
  using assms
  by (auto simp: reads_def R2000_worker_step_def asyncWorkerJob_def onEndpointResolutionAttemptCompleted_def
      submission_defs nth_append Let_def split: list.split option.split)

section \<open>The executions are the same\<close>

text \<open>A step outside of an exchange is one of the client, and so is the end of an exchange.\<close>

lemma client_step_whole: "R2000_client_step ops throws whole r r' \<Longrightarrow> R2000_step ops throws r r'"
  by (induction rule: R2000_client_step.induct) (auto intro: R2000_client_step.intros)

lemma exchange_step_client:
  assumes "exchange_step ops throws silent e e'" and "reads (fst e) (snd e)"
  shows "(R2000_step ops throws (fst e) (fst e') \<or> fst e' = fst e) \<and> reads (fst e') (snd e')"
  using assms(1)
proof cases
  case (outside r r')
  then show ?thesis using client_step_whole by auto
next
  case (begins r i j endpoints c)
  then show ?thesis by (simp add: reads_def)
next
  case (works r i now)
  then show ?thesis using assms(2) by (auto intro: R2000_client_step.work reads_worker)
next
  case (ends r before j endpoints c after socket)
  have "r2_io r = Running" "endpoints \<noteq> []" using assms(2) ends by (auto simp: reads_def)
  then show ?thesis
    using connected [of r before j endpoints c after No_Error True ops throws socket] ends by simp
qed

lemma exchange_run_client:
  assumes "exchange_run ops throws silent js e"
  shows "R2000_run ops throws js (fst e) \<and> reads (fst e) (snd e)"
  using assms
proof induction
  case start
  show ?case by (simp add: R2000_run.start)
next
  case (step js e e')
  then show ?case using exchange_step_client [OF step(2)] by (metis R2000_run.step)
next
  case (cancel js r reading)
  then show ?case by (simp add: R2000_run.cancel reads_cancel)
next
  case (submit js r reading command parameters callable timeout r' queued)
  then show ?case using R2000_run.submit [OF _ submit(2)] reads_submission [OF submit(2)] by simp
qed

text \<open>And a step of the client is at most two: a connection that succeeds begins its exchange and ends it.\<close>

lemma client_step_exchange:
  assumes "R2000_step ops throws r r'"
  shows "(exchange_step ops throws False)\<^sup>*\<^sup>* (r, None) (r', None)"
  using assms
proof cases
  case (connected before j endpoints c after error socket)
  show ?thesis
  proof (cases "error = No_Error")
    case True
    have "exchange_step ops throws False (r, None) (r, Some (length before))"
      by (rule begins [of _ _ j endpoints c]) (use connected True in auto)
    moreover have "exchange_step ops throws False (r, Some (length before)) (r', None)"
      unfolding connected(1) True by (rule ends [OF connected(3)]) simp
    ultimately show ?thesis by (meson converse_rtranclp_into_rtranclp r_into_rtranclp)
  next
    case False
    have "R2000_client_step ops throws False r r'"
      unfolding connected(1) by (rule R2000_client_step.connected [OF connected(2,3)]) (use connected False in auto)
    then show ?thesis by (blast intro: exchange_step.outside)
  qed
qed (blast intro: exchange_step.outside R2000_client_step.intros)+

lemma exchange_run_steps:
  "(exchange_step ops throws silent)\<^sup>*\<^sup>* e e' \<Longrightarrow> exchange_run ops throws silent js e \<Longrightarrow> exchange_run ops throws silent js e'"
  by (induction rule: rtranclp_induct) (auto intro: exchange_run.step)

lemma client_run_exchange:
  assumes "R2000_run ops throws js r"
  shows "exchange_run ops throws False js (r, None)"
  using assms
proof induction
  case start
  show ?case by (rule exchange_run.start)
next
  case (step js r r')
  then show ?case using exchange_run_steps [OF client_step_exchange [OF step(2)]] by blast
next
  case (cancel js r)
  then show ?case by (blast intro: exchange_run.cancel)
next
  case (submit js r command parameters callable timeout r' queued)
  then show ?case by (blast intro: exchange_run.submit)
qed

text \<open>
  It makes no difference to the executions of the client whether the exchange is one step or two, with the
  worker and the users of the client going on between them: the same states are reached with the same
  commands accepted. So whatever holds in all executions of the client holds while it reads.
\<close>

theorem exchange_in_two_steps:
  "(\<exists>reading. exchange_run ops throws False js (r, reading)) \<longleftrightarrow> R2000_run ops throws js r"
  using exchange_run_client client_run_exchange by fastforce

section \<open>A task whose client reads\<close>

text \<open>The steps of a task with its client, the exchanges in two steps.\<close>

inductive task_exchange_step ::
  "'tree ptree_ops \<Rightarrow> 'tree callbacks \<Rightarrow> bool \<Rightarrow> ('tree, 'o, 'c, 'w) task_ops \<Rightarrow> bool
   \<Rightarrow> ('tree, 'ep, 'w) requester \<times> nat option \<Rightarrow> ('tree, 'ep, 'w) requester \<times> nat option \<Rightarrow> bool"
  for ops throws silent task shared where
  client: "exchange_step ops throws silent (rq_client s, reading) (r, reading') \<Longrightarrow>
    task_exchange_step ops throws silent task shared (s, reading) (s\<lparr>rq_client := r\<rparr>, reading')"
| act: "task_act task shared s s' \<Longrightarrow> task_exchange_step ops throws silent task shared (s, reading) (s', reading)"

inductive task_exchange_run ::
  "'tree ptree_ops \<Rightarrow> 'tree callbacks \<Rightarrow> bool \<Rightarrow> ('tree, 'o, 'c, 'w) task_ops \<Rightarrow> bool \<Rightarrow> 'w
   \<Rightarrow> ('tree, 'ep, 'w) requester \<times> nat option \<Rightarrow> bool"
  for ops throws silent task shared w where
  start: "task_exchange_run ops throws silent task shared w (requester_new w, None)"
| step: "task_exchange_run ops throws silent task shared w e \<Longrightarrow>
    task_exchange_step ops throws silent task shared e e' \<Longrightarrow> task_exchange_run ops throws silent task shared w e'"

lemma task_exchange_run_steps:
  "(task_exchange_step ops throws silent task shared)\<^sup>*\<^sup>* e e' \<Longrightarrow>
   task_exchange_run ops throws silent task shared w e \<Longrightarrow> task_exchange_run ops throws silent task shared w e'"
  by (induction rule: rtranclp_induct) (auto intro: task_exchange_run.step)

lemma act_reads:
  assumes "task_act task shared s s'" and "reads (rq_client s) reading"
  shows "reads (rq_client s') reading"
  using assms
  by cases (simp_all add: task_send_def reads_submission reads_cancel)

lemma task_exchange_run_task:
  assumes "task_exchange_run ops throws silent task shared w e"
  shows "task_run ops throws task shared w (fst e) \<and> reads (rq_client (fst e)) (snd e)"
  using assms
proof induction
  case start
  show ?case by (simp add: task_run.start)
next
  case (step e e')
  from step(2) show ?case
  proof cases
    case (client s reading r reading')
    from exchange_step_client [OF client(3)] step(3) client(1)
    have "R2000_step ops throws (rq_client s) r \<or> r = rq_client s" "reads r reading'" by auto
    moreover have "task_run ops throws task shared w s" using step(3) client(1) by simp
    ultimately show ?thesis using client(2) by (auto intro: task_run.step task_step.client)
  next
    case (act s s' reading)
    then show ?thesis using step(3) act_reads by (auto intro: task_run.step task_step.act)
  qed
qed

text \<open>
  A task that has the client for itself, while the io service task reads the response of its request
  and nothing has shut the socket down: nothing else is under way, and the answer has not come.
\<close>

definition waits_for_device :: "('tree, 'ep, 'w) requester \<Rightarrow> nat \<Rightarrow> bool" where
  "waits_for_device s i \<longleftrightarrow>
     worker_idle (rq_client s) \<and> \<not> op_cancelled (r2_operations (rq_client s) ! i) \<and>
     (\<exists>callable. rq_future s = Some callable \<and> future_answer callable (rq_client s) = None)"

lemma reading_waits:
  assumes "\<forall>cb a. \<not> throws cb a" and "task_exchange_run ops throws silent task False w (s, Some i)"
    and "\<not> op_cancelled (r2_operations (rq_client s) ! i)"
  shows "waits_for_device s i"
proof -
  have run: "task_run ops throws task False w s" and reading: "i < length (r2_operations (rq_client s))"
    using task_exchange_run_task [OF assms(2)] by (simp_all add: reads_def)
  note one = one_request [OF assms(1) run]
  obtain callable where future: "rq_future s = Some callable"
    using one reading by (cases "rq_future s") auto
  have ops: "length (r2_operations (rq_client s)) = 1" and idle: "worker_idle (rq_client s)"
    using one reading by (auto simp: future worker_idle_def simp flip: length_0_conv)
  have inv: "task_inv ops throws task s" by (rule task_inv_run [OF run])
  then have "R2000_run ops throws (accepted s) (rq_client s)" by (simp add: task_inv_def)
  from R2000_run_accounts [OF assms(1) this]
  have "mset (accepted s) = mset (map op_job (r2_operations (rq_client s))) + mset (map fst (r2_calls (rq_client s)))"
    using idle by (auto simp: R2000_accounts_def accounting Worker_accepted_def worker_idle_def)
  from arg_cong [where f = size, OF this] have more: "length (accepted s) = Suc (length (map fst (r2_calls (rq_client s))))"
    using ops by (simp only: size_union size_mset length_map)
  obtain before j where before: "accepted s = before @ [j]" "jb_callable j = callable"
    and calls: "map fst (r2_calls (rq_client s)) = before \<or> map fst (r2_calls (rq_client s)) = before @ [j]"
    using one_by_one_run [OF assms(1) run] by (auto simp: one_by_one_def future)
  have "map fst (r2_calls (rq_client s)) \<noteq> before @ [j]"
  proof
    assume "map fst (r2_calls (rq_client s)) = before @ [j]"
    then show False using more unfolding before(1) by simp
  qed
  with calls have "map fst (r2_calls (rq_client s)) = before" by simp
  then have fst_calls: "set before = fst ` set (r2_calls (rq_client s))" by (metis set_map)
  have "distinct (map jb_callable (before @ [j]))" using inv unfolding before(1) [symmetric] by (simp add: task_inv_def)
  then have "callable \<notin> (\<lambda>call. jb_callable (fst call)) ` set (r2_calls (rq_client s))"
    using fst_calls before(2) by (simp add: image_image)
  then have "\<forall>call \<in> set (r2_calls (rq_client s)). jb_callable (fst call) \<noteq> callable" by blast
  then have "future_answer callable (rq_client s) = None" by (auto simp: future_answer_def find_None_iff)
  with future idle assms(3) show ?thesis by (simp add: waits_for_device_def)
qed

text \<open>Without an answer of the device, only the worker runs, and it finds no job.\<close>

lemma waiting_client:
  assumes "exchange_step ops throws True (r, Some i) (r', reading)" and "worker_idle r"
    and "\<not> op_cancelled (r2_operations r ! i)"
  shows "reading = Some i \<and> worker_idle r' \<and> r2_operations r' = r2_operations r \<and> r2_calls r' = r2_calls r"
  using assms
  by cases (auto simp: worker_idle_def R2000_worker_step_def Worker_task_step_def Let_def)

context client_task
begin

lemma waiting_step:
  assumes "task_exchange_step ops throws True task False (s, Some i) (s', reading)" and "waits_for_device s i"
  shows "reading = Some i \<and> waits_for_device s' i \<and> status (rq_task s') = status (rq_task s)"
  using assms(1)
proof cases
  case (client r)
  then show ?thesis
    using waiting_client [OF client(2)] assms(2) by (auto simp: waits_for_device_def future_answer_def)
next
  case act
  from act(2) show ?thesis
    by cases (use act(1) assms(2) in \<open>auto simp: waits_for_device_def status_interrupt status_call\<close>)
qed

lemma waits_for_ever:
  assumes "(task_exchange_step ops throws True task False)\<^sup>*\<^sup>* (s, Some i) e" and "waits_for_device s i"
  shows "snd e = Some i \<and> waits_for_device (fst e) i \<and> status (rq_task (fst e)) = status (rq_task s)"
  using assms
proof (induction rule: rtranclp_induct)
  case (step e e')
  then show ?case using waiting_step [of _ _ "fst e" i "fst e'" "snd e'"] by (cases e; cases e') auto
qed simp

end

section \<open>A status watcher whose device is silent\<close>

text \<open>
  Between two rounds a watcher whose client has nothing to do asks, and the exchange of its request can
  begin.
\<close>

lemma client_exchange_steps:
  assumes "(R2000_client_step ops throws False)\<^sup>*\<^sup>* r r'"
  shows "(task_exchange_step ops throws silent task shared)\<^sup>*\<^sup>* (s\<lparr>rq_client := r\<rparr>, None) (s\<lparr>rq_client := r'\<rparr>, None)"
  using assms
proof (induction rule: rtranclp_induct)
  case (step y z)
  have "task_exchange_step ops throws silent task shared (s\<lparr>rq_client := y\<rparr>, None) (s\<lparr>rq_client := z\<rparr>, None)"
    using task_exchange_step.client [of ops throws silent "s\<lparr>rq_client := y\<rparr>" None z None task shared]
      exchange_step.outside [OF step(2)] by simp
  with step(3) show ?case by (rule rtranclp.rtrancl_into_rtrancl)
qed simp

lemma round_reads:
  assumes "\<forall>cb a. \<not> throws cb a" and "task_exchange_run ops throws silent task shared w (s, None)" and "rq_future s = None"
    and "\<not> to_interrupted task (rq_task s)" and "ready endpoints (rq_client s)" and "endpoints \<noteq> []"
  shows "\<exists>s'. (task_exchange_step ops throws silent task shared)\<^sup>*\<^sup>* (s, None) (s', Some 0) \<and> rq_task s' = rq_task s \<and>
    \<not> op_cancelled (r2_operations (rq_client s') ! 0)"
proof -
  have "task_inv ops throws task s"
    using task_exchange_run_task [OF assms(2)] task_inv_run by auto
  then have serves: "worker_serves (rq_client s)" using worker_serves_run by (auto simp: task_inv_def)
  obtain callable where fresh: "fresh_callable callable (rq_client s)" using fresh_exists by blast
  obtain r1 queued where sent: "task_send task callable (rq_client s) = (r1, queued)" by fastforce
  from submitted_connects [OF assms(5) serves sent [unfolded task_send_def], of ops throws False]
  obtain r j where "queued" and r: "(R2000_client_step ops throws False)\<^sup>*\<^sup>* r1 r" "r2_io r = Running"
    "r2_operations r = [Connect j endpoints False]" by blast
  let ?s1 = "s\<lparr>rq_client := r1, rq_future := Some callable\<rparr>"
  let ?s2 = "?s1\<lparr>rq_client := r\<rparr>"
  have "task_act task shared s ?s1"
    by (rule task_act.ask) (use assms(3,4) fresh sent \<open>queued\<close> in simp_all)
  then have "task_exchange_step ops throws silent task shared (s, None) (?s1, None)" by (rule task_exchange_step.act)
  moreover have "(task_exchange_step ops throws silent task shared)\<^sup>*\<^sup>* (?s1, None) (?s2, None)"
    using client_exchange_steps [OF r(1), of silent task shared ?s1] by (cases s) simp
  moreover have "task_exchange_step ops throws silent task shared (?s2, None) (?s2, Some 0)"
    using task_exchange_step.client [of ops throws silent ?s2 None r "Some 0" task shared]
      begins [of r 0 j endpoints False] r assms(6) by simp
  ultimately have "(task_exchange_step ops throws silent task shared)\<^sup>*\<^sup>* (s, None) (?s2, Some 0)"
    by (meson converse_rtranclp_into_rtranclp rtranclp.rtrancl_into_rtrancl)
  then show ?thesis using r(3) by (intro exI [of _ ?s2]) simp
qed

text \<open>
  C17: A device that accepts a connection and stays silent holds the watcher for ever, whatever the
  time-out of its request. In every run of the watcher, the exchanges in two steps and with callbacks of
  commands that do not throw: while its client reads the response and its socket has not been shut down,
  then until the device answers the client goes on reading, the future stays without a value, the watcher
  says of the device what it said before, the last status stays, and the destructor waits for the end of
  the task.
\<close>

theorem silent_device_holds_watcher:
  assumes "\<forall>cb a. \<not> throws cb a" and "task_exchange_run ops throws silent (status_task ops) False w (s, Some i)"
    and "\<not> op_cancelled (r2_operations (rq_client s) ! i)"
    and "(task_exchange_step ops throws True (status_task ops) False)\<^sup>*\<^sup>* (s, Some i) (s', reading)"
  shows "reading = Some i \<and>
    (\<exists>callable. rq_future s' = Some callable \<and> future_answer callable (rq_client s') = None) \<and>
    StatusWatcher_isAlive (rq_task s') = StatusWatcher_isAlive (rq_task s) \<and>
    getLastReceivedStatus (rq_task s') = getLastReceivedStatus (rq_task s) \<and>
    sw_running (rq_task s') = sw_running (rq_task s)"
  using status_watcher.waits_for_ever [OF assms(4) reading_waits [OF assms(1-3)]]
  by (simp add: waits_for_device_def StatusWatcher_isAlive_def getLastReceivedStatus_def)

text \<open>A watcher that has just begun can get there.\<close>

theorem silent_device_holds_watcher_witness:
  "\<exists>(s :: (string, nat, StatusWatcher) requester) i.
     task_exchange_run example_status_ops (\<lambda>_ _. False) True (status_task example_status_ops) False StatusWatcher_new (s, Some i) \<and>
     (\<forall>s' reading. (task_exchange_step example_status_ops (\<lambda>_ _. False) True (status_task example_status_ops) False)\<^sup>*\<^sup>*
        (s, Some i) (s', reading) \<longrightarrow> reading = Some i \<and> sw_running (rq_task s'))"
proof -
  let ?s = "requester_new StatusWatcher_new :: (string, nat, StatusWatcher) requester"
  let ?step = "task_exchange_step example_status_ops (\<lambda>_ _. False) True (status_task example_status_ops) False"
  have new: "task_exchange_run example_status_ops (\<lambda>_ _. False) True (status_task example_status_ops) False
      StatusWatcher_new (?s, None)" by (rule task_exchange_run.start)
  obtain s where
    s: "?step\<^sup>*\<^sup>* (?s, None) (s, Some 0)" "rq_task s = rq_task ?s" "\<not> op_cancelled (r2_operations (rq_client s) ! 0)"
    using round_reads [where endpoints = "[7]", OF _ new new_watcher_ready(2) _ new_watcher_ready(1)]
    by (auto simp: new_watcher_ready(3))
  have run: "task_exchange_run example_status_ops (\<lambda>_ _. False) True (status_task example_status_ops) False
      StatusWatcher_new (s, Some 0)" by (rule task_exchange_run_steps [OF s(1) new])
  have "sw_running (rq_task s)" by (simp add: s(2) new_watcher_ready(3), simp add: StatusWatcher_new_def)
  with silent_device_holds_watcher [OF _ run s(3)]
  have "\<forall>s' reading. ?step\<^sup>*\<^sup>* (s, Some 0) (s', reading) \<longrightarrow> reading = Some 0 \<and> sw_running (rq_task s')" by simp
  with run show ?thesis by (intro exI [of _ s] exI [of _ 0] conjI)
qed

end
