(* ===== verification/TCP_Link.thy ===== *)
theory TCP_Link
  imports Extraction_Loop
begin

text \<open>
  The TCP link (\<open>include/DataLink/TCPLink.hpp\<close> and \<open>src/DataLink/TCPLink.cpp\<close>). The handlers run one at
  a time on the thread of the io service; each ends by submitting at most one asynchronous
  operation, which is the field \<open>tl_pending\<close>. The answers of the resolver and of the socket are
  inputs of the handlers. A vector built by \<open>vector(n, 0)\<close> has the capacity \<open>n\<close>.
\<close>

section \<open>State\<close>

definition DEFAULT_RECEPTION_BUFFER_SIZE :: u32 where
  "DEFAULT_RECEPTION_BUFFER_SIZE = 4096"

definition MAX_RECEPTION_BUFFER_SIZE :: u32 where
  "MAX_RECEPTION_BUFFER_SIZE = 32768"

text \<open>
  The asynchronous operation in flight. \<open>Reading n\<close> completes when \<open>n\<close> bytes were transferred.
  \<open>No_Operation\<close>: the last handler submitted none. \<open>Terminated\<close>: the last handler threw, which ends
  \<open>io_service::run\<close> and with it the task that runs the handlers.
\<close>

datatype tcp_operation = Resolving | Connecting | Reading nat | No_Operation | Terminated fault

record TCPLink =
  tl_link :: DataLink
  tl_receptionByteBuffer :: "byte list"
  tl_extractionByteBuffer :: "byte list"
  tl_scanFactory :: TcpScanFactory
  tl_interruptSocketAsyncOpsFlag :: bool
  tl_pending :: tcp_operation

section \<open>Connection\<close>

definition Tcp_asynchronousResolveEndpoints :: "TCPLink \<Rightarrow> TCPLink" where
  "Tcp_asynchronousResolveEndpoints l = l\<lparr>tl_pending := Resolving\<rparr>"

definition Tcp_asynchronousConnectSocket :: "TCPLink \<Rightarrow> TCPLink" where
  "Tcp_asynchronousConnectSocket l = l\<lparr>tl_pending := Connecting\<rparr>"

text \<open>The constructor; \<open>queued\<close> is what the submission of the start of the stream returned.\<close>

definition TCPLink_new :: "bool \<Rightarrow> TCPLink" where
  "TCPLink_new queued =
     Tcp_asynchronousResolveEndpoints
       \<lparr>tl_link = DataLink_new queued,
        tl_receptionByteBuffer = replicate (unat DEFAULT_RECEPTION_BUFFER_SIZE) 0,
        tl_extractionByteBuffer = [], tl_scanFactory = TcpScanFactory_new,
        tl_interruptSocketAsyncOpsFlag = False, tl_pending = No_Operation\<rparr>"

text \<open>The handler of the resolution. The waits of ten and twenty seconds before a retry are not modelled.\<close>

definition Tcp_onEndpointsResolved :: "error_code \<Rightarrow> TCPLink \<Rightarrow> TCPLink" where
  "Tcp_onEndpointsResolved error l =
     (case error of
        No_Error \<Rightarrow> Tcp_asynchronousConnectSocket l
      | Operation_Aborted \<Rightarrow> l\<lparr>tl_pending := No_Operation\<rparr>
      | Network_Error \<Rightarrow> Tcp_asynchronousResolveEndpoints l)"

definition Tcp_setConnected :: "bool \<Rightarrow> TCPLink \<Rightarrow> TCPLink" where
  "Tcp_setConnected b l = l\<lparr>tl_link := (tl_link l)\<lparr>dl_isConnected := b\<rparr>\<rparr>"

text \<open>
  \<open>async_read\<close> into the whole reception buffer with \<open>transfer_exactly (n)\<close> completes with \<open>n\<close> bytes, or
  with as many as the buffer holds when that is less.
\<close>

definition Tcp_async_read :: "u32 \<Rightarrow> TCPLink \<Rightarrow> TCPLink" where
  "Tcp_async_read n l = l\<lparr>tl_pending := Reading (min (unat n) (length (tl_receptionByteBuffer l)))\<rparr>"

definition Tcp_onSocketConnectionAttemptCompleted :: "error_code \<Rightarrow> TCPLink \<Rightarrow> TCPLink" where
  "Tcp_onSocketConnectionAttemptCompleted error l =
     (if error = No_Error
      then Tcp_async_read DEFAULT_RECEPTION_BUFFER_SIZE (Tcp_setConnected True l)
      else if error = Operation_Aborted then l\<lparr>tl_pending := No_Operation\<rparr>
      else Tcp_asynchronousResolveEndpoints (Tcp_setConnected False l))"

section \<open>Buffers\<close>

definition Tcp_insertByteRangeIntoExtractionBuffer :: "byte list \<Rightarrow> TCPLink \<Rightarrow> TCPLink" where
  "Tcp_insertByteRangeIntoExtractionBuffer bytes l =
     l\<lparr>tl_extractionByteBuffer := tl_extractionByteBuffer l @ bytes\<rparr>"

definition Tcp_removeUsedByteRangeFromExtractionBufferBeginningUntil :: "nat \<Rightarrow> TCPLink \<Rightarrow> TCPLink" where
  "Tcp_removeUsedByteRangeFromExtractionBufferBeginningUntil position l =
     (let remainingBytes = int (length (tl_extractionByteBuffer l)) - int position
      in if remainingBytes \<noteq> 0
         then l\<lparr>tl_extractionByteBuffer := drop position (tl_extractionByteBuffer l)\<rparr>
         else l\<lparr>tl_extractionByteBuffer := []\<rparr>)"

definition Tcp_resizeReceptionAndExtractionBuffers :: "u32 \<Rightarrow> TCPLink \<Rightarrow> TCPLink" where
  "Tcp_resizeReceptionAndExtractionBuffers newSize l =
     (let bufferCapacity = length (tl_receptionByteBuffer l)
      in if bufferCapacity < unat newSize
         then l\<lparr>tl_receptionByteBuffer := replicate (unat newSize) 0\<rparr>
         else l)"

text \<open>The sum of the packet sizes wraps in \<open>unsigned int\<close>.\<close>

definition computeBoundedRequiredBufferSizeToHostAFullScan :: "'f factory_ops \<Rightarrow> 'f \<Rightarrow> u32" where
  "computeBoundedRequiredBufferSizeToHostAFullScan ops f =
     (let headers = fo_getHeaders ops f [];
          byteSize = fold (\<lambda>header byteSize. byteSize + h_packetSize header) headers 0
      in min MAX_RECEPTION_BUFFER_SIZE (max byteSize DEFAULT_RECEPTION_BUFFER_SIZE))"

section \<open>Reception\<close>

text \<open>
  \<open>tryExtractingScanFromByteRange\<close> on the whole extraction buffer: the position to go on from, the
  number of bytes to transfer, and the size of a full scan when one was seen.
\<close>

definition Tcp_tryExtractingScanFromByteRange ::
  "clock \<Rightarrow> TCPLink \<Rightarrow> (TCPLink \<times> (nat \<times> u32 \<times> u32 option) result) option" where
  "Tcp_tryExtractingScanFromByteRange clock l =
     (case extraction_loop tcp_ops clock
             (\<lambda>f _. Some (computeBoundedRequiredBufferSizeToHostAFullScan tcp_ops f))
             (tl_extractionByteBuffer l) 0 None (tl_scanFactory l) (tl_link l) of
        None \<Rightarrow> None
      | Some (f1, link1, r) \<Rightarrow>
          let l1 = l\<lparr>tl_scanFactory := f1, tl_link := link1\<rparr>;
              bufferCapacity = (of_nat (length (tl_receptionByteBuffer l1)) :: u32)
          in Some (l1, (case r of
               Inl e \<Rightarrow> Inl e
             | Inr (position, numberOfMissingBytes, bufferSize) \<Rightarrow>
                 let numberOfBytesToTransfer =
                       (if numberOfMissingBytes \<noteq> 0 then min numberOfMissingBytes bufferCapacity
                        else bufferCapacity)
                 in Inr (position, numberOfBytesToTransfer, bufferSize))))"

text \<open>
  \<open>onBytesReceived\<close>; \<open>None\<close> is a handler that never returns. An exception of the extraction leaves the
  handler at once: the bytes stay in the extraction buffer, nothing is submitted and the io task ends.
\<close>

definition Tcp_onBytesReceived :: "clock \<Rightarrow> error_code \<Rightarrow> nat \<Rightarrow> TCPLink \<Rightarrow> TCPLink option" where
  "Tcp_onBytesReceived clock error byteTransferred l =
     (if error \<noteq> No_Error
      then let l1 = Tcp_setConnected False l
           in Some (l1\<lparr>tl_link := fireDataLinkConnectionLostEvent (tl_link l1), tl_pending := No_Operation\<rparr>)
      else let l1 = Tcp_insertByteRangeIntoExtractionBuffer (take byteTransferred (tl_receptionByteBuffer l)) l
           in case Tcp_tryExtractingScanFromByteRange clock l1 of
                None \<Rightarrow> None
              | Some (l2, Inl e) \<Rightarrow> Some (l2\<lparr>tl_pending := Terminated e\<rparr>)
              | Some (l2, Inr (position, numberOfBytesToTransfer, sizeOfAFullScan)) \<Rightarrow>
                  let l3 = Tcp_removeUsedByteRangeFromExtractionBufferBeginningUntil position l2;
                      l4 = (case sizeOfAFullScan of
                              None \<Rightarrow> l3
                            | Some newSize \<Rightarrow> Tcp_resizeReceptionAndExtractionBuffers newSize l3)
                  in Some (Tcp_async_read numberOfBytesToTransfer l4))"

text \<open>The socket writes what it transfers at the start of the reception buffer, then calls the handler.\<close>

definition Tcp_transfer :: "byte list \<Rightarrow> TCPLink \<Rightarrow> TCPLink" where
  "Tcp_transfer bytes l =
     l\<lparr>tl_receptionByteBuffer := bytes @ drop (length bytes) (tl_receptionByteBuffer l)\<rparr>"

definition Tcp_receive :: "clock \<Rightarrow> byte list \<Rightarrow> TCPLink \<Rightarrow> TCPLink option" where
  "Tcp_receive clock bytes l =
     Tcp_onBytesReceived clock No_Error (length bytes) (Tcp_transfer bytes l)"

section \<open>Destruction\<close>

text \<open>
  The destructor cancels the resolution, closes the socket and stops the io service; a handler that
  would still run sees an aborted operation. Then the base class is destroyed.
\<close>

definition TCPLink_destroy :: "TCPLink \<Rightarrow> TCPLink \<times> final_command list" where
  "TCPLink_destroy l =
     (let l1 = l\<lparr>tl_interruptSocketAsyncOpsFlag := True, tl_pending := No_Operation\<rparr>;
          (link1, commands) = DataLink_destroy (tl_link l1)
      in (l1\<lparr>tl_link := link1\<rparr>, commands))"

section \<open>One reception\<close>

abbreviation Tcp_note :: "TcpScanFactory \<Rightarrow> u32 option \<Rightarrow> u32 option" where
  "Tcp_note \<equiv> \<lambda>f _. Some (computeBoundedRequiredBufferSizeToHostAFullScan tcp_ops f)"

definition Tcp_loop ::
  "clock \<Rightarrow> byte list \<Rightarrow> TCPLink \<Rightarrow> (TcpScanFactory \<times> DataLink \<times> (nat \<times> u32 \<times> u32 option) result) option" where
  "Tcp_loop clock bytes l = extraction_loop tcp_ops clock Tcp_note (tl_extractionByteBuffer l @ bytes) 0 None
     (tl_scanFactory l) (tl_link l)"

lemma Tcp_receive_None:
  "Tcp_receive clock bytes l = None \<longleftrightarrow> Tcp_loop clock bytes l = None"
  by (auto simp: Tcp_receive_def Tcp_onBytesReceived_def Tcp_transfer_def Let_def
      Tcp_insertByteRangeIntoExtractionBuffer_def Tcp_tryExtractingScanFromByteRange_def Tcp_loop_def
      split: option.splits sum.splits)

lemma Tcp_receive_Inl:
  assumes "Tcp_loop clock bytes l = Some (f1, link1, Inl e)"
  shows "\<exists>l'. Tcp_receive clock bytes l = Some l' \<and> tl_pending l' = Terminated e \<and> tl_scanFactory l' = f1 \<and>
    tl_link l' = link1 \<and> tl_extractionByteBuffer l' = tl_extractionByteBuffer l @ bytes \<and>
    tl_receptionByteBuffer l' = tl_receptionByteBuffer (Tcp_transfer bytes l)"
  using assms
  by (auto simp: Tcp_receive_def Tcp_onBytesReceived_def Tcp_transfer_def Let_def
      Tcp_insertByteRangeIntoExtractionBuffer_def Tcp_tryExtractingScanFromByteRange_def Tcp_loop_def)

lemma Tcp_remove_eq:
  "Tcp_removeUsedByteRangeFromExtractionBufferBeginningUntil position l =
   l\<lparr>tl_extractionByteBuffer := drop position (tl_extractionByteBuffer l)\<rparr>"
  by (simp add: Tcp_removeUsedByteRangeFromExtractionBufferBeginningUntil_def Let_def)

text \<open>The reception buffer after a scan of the noted noted_size, and the transfer asked for next.\<close>

definition Tcp_resized :: "u32 option \<Rightarrow> byte list \<Rightarrow> byte list" where
  "Tcp_resized noted_size buffer =
     (case noted_size of None \<Rightarrow> buffer
      | Some n \<Rightarrow> if length buffer < unat n then replicate (unat n) 0 else buffer)"

definition Tcp_next_transfer :: "u32 \<Rightarrow> byte list \<Rightarrow> u32" where
  "Tcp_next_transfer missing buffer =
     (let capacity = (of_nat (length buffer) :: u32)
      in if missing \<noteq> 0 then min missing capacity else capacity)"

lemma Tcp_receive_Inr:
  assumes "Tcp_loop clock bytes l = Some (f1, link1, Inr (p, m, noted_size))"
  shows "\<exists>l'. Tcp_receive clock bytes l = Some l' \<and> tl_scanFactory l' = f1 \<and> tl_link l' = link1 \<and>
    tl_extractionByteBuffer l' = drop p (tl_extractionByteBuffer l @ bytes) \<and>
    (let buffer = tl_receptionByteBuffer (Tcp_transfer bytes l)
     in tl_receptionByteBuffer l' = Tcp_resized noted_size buffer \<and>
        tl_pending l' =
          Reading (min (unat (Tcp_next_transfer m buffer)) (length (Tcp_resized noted_size buffer))))"
  using assms
  by (auto simp: Tcp_receive_def Tcp_onBytesReceived_def Tcp_transfer_def Let_def Tcp_remove_eq
      Tcp_insertByteRangeIntoExtractionBuffer_def Tcp_tryExtractingScanFromByteRange_def Tcp_loop_def
      Tcp_async_read_def Tcp_resizeReceptionAndExtractionBuffers_def Tcp_resized_def
      Tcp_next_transfer_def split: option.splits)

section \<open>Sizes\<close>

lemma computeBounded_bounds:
  "4096 \<le> unat (computeBoundedRequiredBufferSizeToHostAFullScan ops f)"
  "unat (computeBoundedRequiredBufferSizeToHostAFullScan ops f) \<le> 32768"
proof -
  have "(4096 :: u32) \<le> computeBoundedRequiredBufferSizeToHostAFullScan ops f"
    "computeBoundedRequiredBufferSizeToHostAFullScan ops f \<le> 32768"
    by (simp_all add: computeBoundedRequiredBufferSizeToHostAFullScan_def Let_def
        MAX_RECEPTION_BUFFER_SIZE_def DEFAULT_RECEPTION_BUFFER_SIZE_def)
  then show "4096 \<le> unat (computeBoundedRequiredBufferSizeToHostAFullScan ops f)"
    "unat (computeBoundedRequiredBufferSizeToHostAFullScan ops f) \<le> 32768"
    by (simp_all add: word_le_nat_alt)
qed

text \<open>What the loop notes is always a bounded noted_size.\<close>

definition Tcp_size_ok :: "u32 option \<Rightarrow> bool" where
  "Tcp_size_ok noted_size \<longleftrightarrow> (\<forall>n. noted_size = Some n \<longrightarrow> 4096 \<le> unat n \<and> unat n \<le> 32768)"

lemma Tcp_size_ok_note:
  "Tcp_size_ok noted_size \<Longrightarrow> Tcp_size_ok (if b then Tcp_note f noted_size else noted_size)"
  using computeBounded_bounds [of tcp_ops f] by (simp add: Tcp_size_ok_def)

lemma Tcp_loop_size_ok:
  assumes "extraction_loop tcp_ops clock Tcp_note buf position noted_size f link = Some (f', link', Inr (p, m, noted_size'))"
    and "Tcp_size_ok noted_size"
  shows "Tcp_size_ok noted_size'"
proof -
  have "\<forall>p m noted_size'. snd (snd r) = Inr (p, m, noted_size') \<longrightarrow> Tcp_size_ok noted_size'"
    if "extraction_loop tcp_ops clock Tcp_note buf position noted_size f link = Some r" "Tcp_size_ok noted_size"
    for position noted_size f link r
    using that
  proof (induction rule: extraction_loop_induct)
    case (last position noted_size f link f1 p m f2 link1)
    then show ?case using Tcp_size_ok_note by simp
  next
    case (more position noted_size f link f1 p m f2 link1 r)
    then show ?case using Tcp_size_ok_note by blast
  qed simp
  from this [OF assms] show ?thesis by simp
qed

definition Tcp_buffer_ok :: "byte list \<Rightarrow> bool" where
  "Tcp_buffer_ok buffer \<longleftrightarrow> 4096 \<le> length buffer \<and> length buffer \<le> 32768"

lemma Tcp_transfer_length:
  "length bytes \<le> length (tl_receptionByteBuffer l) \<Longrightarrow>
   length (tl_receptionByteBuffer (Tcp_transfer bytes l)) = length (tl_receptionByteBuffer l)"
  by (simp add: Tcp_transfer_def)

lemma Tcp_resized_ok: "Tcp_buffer_ok buffer \<Longrightarrow> Tcp_size_ok noted_size \<Longrightarrow> Tcp_buffer_ok (Tcp_resized noted_size buffer)"
  by (auto simp: Tcp_resized_def Tcp_buffer_ok_def Tcp_size_ok_def split: option.splits)

lemma Tcp_resized_grows: "length buffer \<le> length (Tcp_resized noted_size buffer)"
  by (auto simp: Tcp_resized_def split: option.splits)

lemma Tcp_next_transfer_bounds:
  assumes "Tcp_buffer_ok buffer"
  shows "0 < unat (Tcp_next_transfer m buffer)" and "unat (Tcp_next_transfer m buffer) \<le> length buffer"
proof -
  let ?cap = "of_nat (length buffer) :: u32"
  have cap: "unat ?cap = length buffer"
    using assms by (intro unat_eq_of_nat) (simp add: Tcp_buffer_ok_def)
  have "0 < length buffer" using assms unfolding Tcp_buffer_ok_def by linarith
  moreover have "m \<noteq> 0 \<Longrightarrow> 0 < unat m" by (simp add: unat_gt_0)
  moreover have "unat (min m ?cap) = min (unat m) (unat ?cap)"
    by (simp add: min_def word_le_nat_alt)
  ultimately show "0 < unat (Tcp_next_transfer m buffer)" "unat (Tcp_next_transfer m buffer) \<le> length buffer"
    using cap by (simp_all add: Tcp_next_transfer_def Let_def)
qed

section \<open>Reassembly of a stream\<close>

text \<open>The receptions of consecutive chunks of the stream.\<close>

fun Tcp_receive_all :: "clock \<Rightarrow> byte list list \<Rightarrow> TCPLink \<Rightarrow> TCPLink option" where
  "Tcp_receive_all clock [] l = Some l"
| "Tcp_receive_all clock (chunk # chunks) l =
     (case Tcp_receive clock chunk l of None \<Rightarrow> None | Some l1 \<Rightarrow> Tcp_receive_all clock chunks l1)"

text \<open>
  A cut of the stream that does not fall within the first 79 bytes of a packet.
\<close>

fun safe_cut :: "sent_packet list \<Rightarrow> nat \<Rightarrow> bool" where
  "safe_cut [] x \<longleftrightarrow> x = 0"
| "safe_cut (p # ps) x \<longleftrightarrow>
     x = 0 \<or> (if x < length (sent_bytes p) then 80 \<le> x else safe_cut ps (x - length (sent_bytes p)))"

lemma safe_cut_split:
  assumes "safe_cut packets x"
  shows "\<exists>ps qs y. packets = ps @ qs \<and> x = length (stream_bytes ps) + y \<and>
    (y = 0 \<or> (\<exists>q rest. qs = q # rest \<and> 80 \<le> y \<and> y < length (sent_bytes q)))"
  using assms
proof (induction packets arbitrary: x)
  case (Cons p packets)
  show ?case
  proof (cases "x < length (sent_bytes p)")
    case True
    then have "p # packets = [] @ p # packets \<and> x = length (stream_bytes []) + x \<and>
        (x = 0 \<or> (\<exists>q rest. p # packets = q # rest \<and> 80 \<le> x \<and> x < length (sent_bytes q)))"
      using Cons.prems by auto
    then show ?thesis by blast
  next
    case False
    show ?thesis
    proof (cases "x = 0")
      case True
      then have "p # packets = [] @ p # packets \<and> x = length (stream_bytes []) + 0" by simp
      then show ?thesis by blast
    next
      case nz: False
      then have "safe_cut packets (x - length (sent_bytes p))" using Cons.prems False by simp
      from Cons.IH [OF this] obtain ps qs y where s: "packets = ps @ qs"
          "x - length (sent_bytes p) = length (stream_bytes ps) + y"
          "y = 0 \<or> (\<exists>q rest. qs = q # rest \<and> 80 \<le> y \<and> y < length (sent_bytes q))"
        by blast
      then have "p # packets = (p # ps) @ qs" "x = length (stream_bytes (p # ps)) + y"
        using False by simp_all
      with s(3) show ?thesis by blast
    qed
  qed
qed auto

lemma safe_cut_append:
  assumes "safe_cut (ps @ qs) (length (stream_bytes ps) + x)" and "\<forall>p \<in> set ps. sent_ok p"
  shows "safe_cut qs x"
  using assms
proof (induction ps)
  case (Cons p ps)
  then have "80 \<le> length (sent_bytes p)" by (simp add: sent_ok_length)
  then have "sent_bytes p \<noteq> []" by auto
  then show ?case using Cons by simp
qed simp

text \<open>
  The state between two chunks: the extraction buffer holds a piece of the next packet, and the
  factory and the link are those of the specification, up to the discarding of an older scan that the
  header of the piece has already caused.
\<close>

definition Tcp_between :: "sent_packet list \<Rightarrow> TcpScanFactory \<Rightarrow> TCPLink \<Rightarrow> bool" where
  "Tcp_between packets g l \<longleftrightarrow>
     Tcp_buffer_ok (tl_receptionByteBuffer l) \<and> Tcp_inv g \<and> one_scan (tf_headers g) \<and>
     \<not> fo_isComplete tcp_ops g \<and> published_sound (tl_link l) \<and>
     (tl_extractionByteBuffer l = [] \<and> tl_scanFactory l = g \<or>
      (\<exists>q rest. packets = q # rest \<and> tl_extractionByteBuffer l \<noteq> [] \<and>
        length (tl_extractionByteBuffer l) < length (sent_bytes q) \<and>
        (tl_scanFactory l = g \<or> tl_scanFactory l = clearOnScanChange tcp_ops (sent_header q) g)))"

lemma Tcp_between_factory:
  assumes "Tcp_between packets g l"
  shows "Tcp_inv (tl_scanFactory l) \<and> one_scan (tf_headers (tl_scanFactory l)) \<and>
    \<not> fo_isComplete tcp_ops (tl_scanFactory l)"
  using assms tcp_factory.clearOnScanChange_inv tcp_factory.clearOnScanChange_one_scan
    tcp_factory.clearOnScanChange_not_complete
  unfolding Tcp_between_def by metis

lemma Tcp_between_receive:
  assumes "Tcp_between (ps @ qs) g l" and "ps \<noteq> []"
  shows "receive_packets tcp_ops clock ps (tl_scanFactory l, tl_link l) =
    receive_packets tcp_ops clock ps (g, tl_link l)"
proof -
  obtain p ps' where "ps = p # ps'" using assms(2) by (cases ps) auto
  then show ?thesis
    using assms(1) tcp_factory.receive_packet_clear [of clock p g "tl_link l"]
    unfolding Tcp_between_def by auto
qed

lemma Tcp_receive_state:
  assumes "Tcp_loop clock bytes l = Some (f1, link1, Inr (p, m, noted_size))"
    and "Tcp_buffer_ok (tl_receptionByteBuffer l)" and "length bytes \<le> 4096"
  shows "\<exists>l'. Tcp_receive clock bytes l = Some l' \<and> tl_scanFactory l' = f1 \<and> tl_link l' = link1 \<and>
    tl_extractionByteBuffer l' = drop p (tl_extractionByteBuffer l @ bytes) \<and>
    Tcp_buffer_ok (tl_receptionByteBuffer l')"
proof -
  have "Tcp_size_ok noted_size"
    using Tcp_loop_size_ok [OF assms(1) [unfolded Tcp_loop_def]] by (simp add: Tcp_size_ok_def)
  moreover have "Tcp_buffer_ok (tl_receptionByteBuffer (Tcp_transfer bytes l))"
    using assms(2,3) Tcp_transfer_length [of bytes l] by (simp add: Tcp_buffer_ok_def)
  ultimately show ?thesis
    using Tcp_receive_Inr [OF assms(1)] Tcp_resized_ok by (auto simp: Let_def)
qed

lemma Tcp_between_step:
  assumes "Tcp_between packets g l" and "length chunk \<le> 4096"
    and "\<forall>p \<in> set packets. sent_ok p \<and> length (sent_bytes p) < 2 ^ 31"
    and "tl_extractionByteBuffer l @ chunk @ rest = stream_bytes packets"
    and "safe_cut packets (length (tl_extractionByteBuffer l) + length chunk)"
  shows "\<exists>l' ps qs g'. Tcp_receive clock chunk l = Some l' \<and> packets = ps @ qs \<and>
    receive_packets tcp_ops clock ps (g, tl_link l) = (g', tl_link l') \<and> Tcp_between qs g' l' \<and>
    tl_extractionByteBuffer l' @ rest = stream_bytes qs \<and>
    length (tl_extractionByteBuffer l) + length chunk =
      length (stream_bytes ps) + length (tl_extractionByteBuffer l')"
proof -
  let ?ext = "tl_extractionByteBuffer l" and ?f = "tl_scanFactory l" and ?link = "tl_link l"
  let ?buf = "?ext @ chunk"
  obtain ps qs y where split: "packets = ps @ qs" "length ?buf = length (stream_bytes ps) + y"
    and y: "y = 0 \<or> (\<exists>q r. qs = q # r \<and> 80 \<le> y \<and> y < length (sent_bytes q))"
    using safe_cut_split [OF assms(5)] by auto
  have stream: "?buf @ rest = stream_bytes ps @ stream_bytes qs" using assms(4) split(1) by simp
  have "take (length ?buf) (?buf @ rest) = stream_bytes ps @ take y (stream_bytes qs)"
    and "drop (length ?buf) (?buf @ rest) = drop y (stream_bytes qs)"
    unfolding stream split(2) by simp_all
  then have buf: "?buf = stream_bytes ps @ take y (stream_bytes qs)" and rest: "rest = drop y (stream_bytes qs)"
    by simp_all
  have "length ?ext < 2 ^ 31"
    using assms(1,3) less_trans unfolding Tcp_between_def by fastforce
  then have small: "length ?buf < 2 ^ 32" using assms(2) by simp
  have ok: "\<forall>p \<in> set ps. sent_ok p" using assms(3) split(1) by simp
  note f = Tcp_between_factory [OF assms(1)]
  have g: "Tcp_inv g" "one_scan (tf_headers g)" "\<not> fo_isComplete tcp_ops g" "published_sound ?link"
    "Tcp_buffer_ok (tl_receptionByteBuffer l)"
    using assms(1) by (simp_all add: Tcp_between_def)
  obtain g' link' where spec: "receive_packets tcp_ops clock ps (g, ?link) = (g', link')"
    by (cases "receive_packets tcp_ops clock ps (g, ?link)")
  note g' = tcp_factory.receive_packets_invariant [OF spec g(1,2,4,3)]
  obtain fx where fx: "receive_packets tcp_ops clock ps (?f, ?link) = (fx, link')"
    and fx_eq: "ps = [] \<and> fx = ?f \<and> g' = g \<or> fx = g'"
    using Tcp_between_receive [OF assms(1) [unfolded split(1)], of clock] spec by (cases "ps = []") auto
  show ?thesis
  proof (cases "y = 0")
    case True
    then have "?buf = [] @ stream_bytes ps" using buf by simp
    from tcp_factory.extraction_loop_whole [OF this ok small _ _ g(4) _ fx] f
    obtain n where "Tcp_loop clock chunk l = Some (fx, link', Inr (length ?buf, 0, n))"
      unfolding Tcp_loop_def by fastforce
    from Tcp_receive_state [OF this g(5) assms(2)] obtain l' where
      l': "Tcp_receive clock chunk l = Some l'" "tl_scanFactory l' = fx" "tl_link l' = link'"
        "tl_extractionByteBuffer l' = []" "Tcp_buffer_ok (tl_receptionByteBuffer l')" by auto
    have "fx = g'"
    proof (cases "ps = []")
      case True
      then have "?ext = []" using split(2) \<open>y = 0\<close> by simp
      then show ?thesis using fx_eq assms(1) unfolding Tcp_between_def by auto
    qed (use fx_eq in simp)
    then show ?thesis
      using l' split g' spec rest \<open>y = 0\<close>
      by (intro exI [of _ l'] exI [of _ ps] exI [of _ qs] exI [of _ g']) (simp add: Tcp_between_def)
  next
    case False
    then obtain q r where q: "qs = q # r" "80 \<le> y" "y < length (sent_bytes q)" using y by blast
    let ?piece = "take y (sent_bytes q)"
    have "waiting_piece q ?piece"
      using q assms(3) split(1)
      by (auto simp: waiting_piece_def intro!: exI [of _ "drop y (sent_bytes q)"])
    moreover have buf': "?buf = stream_bytes ps @ ?piece" using buf q by simp
    ultimately obtain n m where "Tcp_loop clock chunk l =
        Some (clearOnScanChange tcp_ops (sent_header q) fx, link', Inr (length (stream_bytes ps), m, n))"
      using tcp_factory.extraction_loop_piece [OF buf' ok _ small _ _ g(4) _ fx] f
      unfolding Tcp_loop_def by fastforce
    from Tcp_receive_state [OF this g(5) assms(2)] obtain l' where
      l': "Tcp_receive clock chunk l = Some l'" "tl_link l' = link'"
        "tl_scanFactory l' = clearOnScanChange tcp_ops (sent_header q) fx"
        "tl_extractionByteBuffer l' = ?piece" "Tcp_buffer_ok (tl_receptionByteBuffer l')"
      using buf' by auto
    have "tl_scanFactory l' = clearOnScanChange tcp_ops (sent_header q) g'"
      using l'(3) fx_eq assms(1) q(1) split(1) tcp_factory.clearOnScanChange_idem
      unfolding Tcp_between_def by auto
    then show ?thesis
      using l' split g' spec rest q
      by (intro exI [of _ l'] exI [of _ ps] exI [of _ qs] exI [of _ g']) (auto simp: Tcp_between_def)
  qed
qed

lemma Tcp_receive_all_stream:
  assumes "Tcp_between packets g l" and "\<forall>chunk \<in> set chunks. length chunk \<le> 4096"
    and "\<forall>p \<in> set packets. sent_ok p \<and> length (sent_bytes p) < 2 ^ 31"
    and "tl_extractionByteBuffer l @ concat chunks = stream_bytes packets"
    and "\<forall>k. safe_cut packets (length (tl_extractionByteBuffer l) + length (concat (take k chunks)))"
  shows "\<exists>l'. Tcp_receive_all clock chunks l = Some l' \<and> tl_extractionByteBuffer l' = [] \<and>
    (tl_scanFactory l', tl_link l') = receive_packets tcp_ops clock packets (g, tl_link l)"
  using assms
proof (induction chunks arbitrary: packets g l)
  case Nil
  show ?case
  proof (cases packets)
    case Nil
    then show ?thesis using Nil.prems by (auto simp: Tcp_between_def)
  next
    case (Cons q rest)
    then have "80 \<le> length (sent_bytes q)" using Nil.prems(3) sent_ok_length by simp
    then show ?thesis using Nil.prems Cons by (auto simp: Tcp_between_def)
  qed
next
  case (Cons chunk chunks)
  have cut: "safe_cut packets (length (tl_extractionByteBuffer l) + length chunk)"
    using spec [OF Cons.prems(5), of 1] by simp
  have stream: "tl_extractionByteBuffer l @ chunk @ concat chunks = stream_bytes packets"
    using Cons.prems(4) by simp
  have "length chunk \<le> 4096" using Cons.prems(2) by simp
  from Tcp_between_step [OF Cons.prems(1) this Cons.prems(3) stream cut, of clock]
  obtain l1 ps qs g1 where s: "Tcp_receive clock chunk l = Some l1" "packets = ps @ qs"
      "receive_packets tcp_ops clock ps (g, tl_link l) = (g1, tl_link l1)" "Tcp_between qs g1 l1"
      "tl_extractionByteBuffer l1 @ concat chunks = stream_bytes qs"
      "length (tl_extractionByteBuffer l) + length chunk =
        length (stream_bytes ps) + length (tl_extractionByteBuffer l1)"
    by blast
  have ok: "\<forall>p \<in> set ps. sent_ok p" using Cons.prems(3) s(2) by simp
  have "safe_cut qs (length (tl_extractionByteBuffer l1) + length (concat (take k chunks)))" for k
  proof (rule safe_cut_append [OF _ ok])
    have "length (tl_extractionByteBuffer l) + length (concat (take (Suc k) (chunk # chunks))) =
        length (stream_bytes ps) + (length (tl_extractionByteBuffer l1) + length (concat (take k chunks)))"
      using s(6) by simp
    then show "safe_cut (ps @ qs) (length (stream_bytes ps) +
        (length (tl_extractionByteBuffer l1) + length (concat (take k chunks))))"
      using spec [OF Cons.prems(5), of "Suc k"] s(2) by metis
  qed
  moreover have "\<forall>p \<in> set qs. sent_ok p \<and> length (sent_bytes p) < 2 ^ 31" using Cons.prems(3) s(2) by simp
  moreover have "\<forall>chunk \<in> set chunks. length chunk \<le> 4096" using Cons.prems(2) by simp
  ultimately obtain l' where "Tcp_receive_all clock chunks l1 = Some l'" "tl_extractionByteBuffer l' = []"
      "(tl_scanFactory l', tl_link l') = receive_packets tcp_ops clock qs (g1, tl_link l1)"
    using Cons.IH [OF s(4) _ _ s(5)] by blast
  then show ?case using s(1-3) by simp
qed

section \<open>The link as a transition system\<close>

text \<open>
  What can happen to a link: the completion of the start command, a round of the watchdog or of the
  stall monitor, the registration of a callback, and the completion of the operation in flight. A
  read fills exactly the requested bytes. The last premise of a reception bounds the memory of the
  extraction buffer.
\<close>

inductive tcp_step :: "clock \<Rightarrow> TCPLink \<Rightarrow> TCPLink \<Rightarrow> bool" for clock :: clock where
  started: "tcp_step clock l (l\<lparr>tl_link := onStartScanCompleted result watchdogEnabled (tl_link l)\<rparr>)"
| watchdog: "dl_watchdogTask (tl_link l) \<Longrightarrow>
    tcp_step clock l (l\<lparr>tl_link := watchdogTask_round outcome (tl_link l)\<rparr>)"
| stall_monitor: "dl_stallMonitoring (tl_link l) \<Longrightarrow>
    tcp_step clock l (l\<lparr>tl_link := stallMonitoringTask_round now (tl_link l)\<rparr>)"
| lost_callback: "tcp_step clock l (l\<lparr>tl_link := addOnDataLinkConnectionLostCallback callback (tl_link l)\<rparr>)"
| scan_callback: "tcp_step clock l (l\<lparr>tl_link := addOnNewScanAvailableCallback callback (tl_link l)\<rparr>)"
| resolved: "tl_pending l = Resolving \<Longrightarrow> tcp_step clock l (Tcp_onEndpointsResolved error l)"
| connected: "tl_pending l = Connecting \<Longrightarrow>
    tcp_step clock l (Tcp_onSocketConnectionAttemptCompleted error l)"
| read_failed: "tl_pending l = Reading n \<Longrightarrow> error \<noteq> No_Error \<Longrightarrow>
    Tcp_onBytesReceived clock error transferred l = Some l' \<Longrightarrow> tcp_step clock l l'"
| received: "tl_pending l = Reading n \<Longrightarrow> length bytes = n \<Longrightarrow>
    length (tl_extractionByteBuffer l) + n < 2 ^ 32 \<Longrightarrow>
    Tcp_receive clock bytes l = Some l' \<Longrightarrow> tcp_step clock l l'"
| destroyed: "tcp_step clock l (fst (TCPLink_destroy l))"

inductive tcp_reachable :: "clock \<Rightarrow> TCPLink \<Rightarrow> bool" for clock :: clock where
  constructed: "tcp_reachable clock (TCPLink_new queued)"
| reached: "tcp_reachable clock l \<Longrightarrow> tcp_step clock l l' \<Longrightarrow> tcp_reachable clock l'"

definition Tcp_link_inv :: "TCPLink \<Rightarrow> bool" where
  "Tcp_link_inv l \<longleftrightarrow>
     Tcp_buffer_ok (tl_receptionByteBuffer l) \<and>
     (\<forall>n. tl_pending l = Reading n \<longrightarrow> 0 < n \<and> n \<le> length (tl_receptionByteBuffer l)) \<and>
     Tcp_inv (tl_scanFactory l) \<and> one_scan (tf_headers (tl_scanFactory l)) \<and> published_sound (tl_link l)"

lemmas Tcp_handler_defs = Tcp_onEndpointsResolved_def Tcp_onSocketConnectionAttemptCompleted_def
  Tcp_asynchronousResolveEndpoints_def Tcp_asynchronousConnectSocket_def Tcp_async_read_def
  Tcp_setConnected_def DEFAULT_RECEPTION_BUFFER_SIZE_def

lemma Tcp_link_inv_new: "Tcp_link_inv (TCPLink_new queued)"
  using tcp_factory.inv_new
  by (simp add: Tcp_link_inv_def TCPLink_new_def Tcp_handler_defs Tcp_buffer_ok_def TcpScanFactory_new_def)

lemma Tcp_link_inv_receive:
  assumes "Tcp_link_inv l" and "length bytes \<le> length (tl_receptionByteBuffer l)"
    and "length (tl_extractionByteBuffer l) + length bytes < 2 ^ 32"
    and "Tcp_receive clock bytes l = Some l'"
  shows "Tcp_link_inv l'"
proof -
  have inv: "Tcp_inv (tl_scanFactory l)" "one_scan (tf_headers (tl_scanFactory l))" "published_sound (tl_link l)"
    and buf: "Tcp_buffer_ok (tl_receptionByteBuffer (Tcp_transfer bytes l))"
    using assms(1,2) Tcp_transfer_length [OF assms(2)] by (simp_all add: Tcp_link_inv_def Tcp_buffer_ok_def)
  obtain f1 link1 r where loop: "Tcp_loop clock bytes l = Some (f1, link1, r)"
    using assms(4) Tcp_receive_None [of clock bytes l] by (cases "Tcp_loop clock bytes l") auto
  have len: "length (tl_extractionByteBuffer l @ bytes) < 2 ^ 64" using assms(3) by simp
  note inv' = tcp_factory.extraction_loop_invariant [OF loop [unfolded Tcp_loop_def] len inv]
  show ?thesis
  proof (cases r)
    case (Inl e)
    then show ?thesis
      using Tcp_receive_Inl [OF loop [unfolded Inl]] assms(4) inv' buf by (auto simp: Tcp_link_inv_def)
  next
    case (Inr x)
    obtain p m n where x: "x = (p, m, n)" by (cases x)
    have "Tcp_size_ok n"
      using Tcp_loop_size_ok [OF loop [unfolded Tcp_loop_def Inr x]] by (simp add: Tcp_size_ok_def)
    then have buf': "Tcp_buffer_ok (Tcp_resized n (tl_receptionByteBuffer (Tcp_transfer bytes l)))"
      using buf Tcp_resized_ok by blast
    then have "0 < length (Tcp_resized n (tl_receptionByteBuffer (Tcp_transfer bytes l)))"
      unfolding Tcp_buffer_ok_def by linarith
    then show ?thesis
      using Tcp_receive_Inr [OF loop [unfolded Inr x]] assms(4) inv' buf' Tcp_next_transfer_bounds(1) [OF buf]
      by (auto simp: Tcp_link_inv_def Let_def)
  qed
qed

lemma Tcp_link_inv_step:
  assumes "tcp_step clock l l'" and "Tcp_link_inv l"
  shows "Tcp_link_inv l'"
  using assms
proof (cases rule: tcp_step.cases)
  case (received n bytes)
  then show ?thesis using assms(2) Tcp_link_inv_receive [of l bytes clock l'] by (auto simp: Tcp_link_inv_def)
next
  case (connected error)
  then show ?thesis using assms(2)
    by (auto simp: Tcp_link_inv_def Tcp_handler_defs Tcp_buffer_ok_def)
next
  case (resolved error)
  then show ?thesis using assms(2)
    by (auto simp: Tcp_link_inv_def Tcp_handler_defs split: error_code.splits)
next
  case (read_failed n error transferred)
  then show ?thesis using assms(2)
    by (auto simp: Tcp_link_inv_def Tcp_onBytesReceived_def Tcp_setConnected_def Let_def)
next
  case destroyed
  then show ?thesis using assms(2)
    by (auto simp: Tcp_link_inv_def TCPLink_destroy_def split_beta Let_def)
qed (use assms(2) in \<open>auto simp: Tcp_link_inv_def\<close>)

lemma Tcp_link_inv_reachable: "tcp_reachable clock l \<Longrightarrow> Tcp_link_inv l"
  by (induction rule: tcp_reachable.induct) (auto intro: Tcp_link_inv_new Tcp_link_inv_step)

text \<open>A link with no operation in flight.\<close>

definition tcp_idle :: "TCPLink \<Rightarrow> bool" where
  "tcp_idle l \<longleftrightarrow> tl_pending l = No_Operation \<or> (\<exists>e. tl_pending l = Terminated e)"

lemma tcp_idle_step:
  assumes "tcp_step clock l l'" and "tcp_idle l"
  shows "tcp_idle l' \<and> dl_lastScanReceived (tl_link l') = dl_lastScanReceived (tl_link l)"
  using assms
  by (cases rule: tcp_step.cases) (auto simp: tcp_idle_def TCPLink_destroy_def split_beta Let_def)

lemma tcp_idle_steps:
  assumes "(tcp_step clock)\<^sup>*\<^sup>* l l'" and "tcp_idle l"
  shows "tcp_idle l' \<and> dl_lastScanReceived (tl_link l') = dl_lastScanReceived (tl_link l)"
  using assms by (induction rule: rtranclp_induct) (auto dest: tcp_idle_step)

lemma Tcp_receive_same_status:
  assumes "Tcp_receive clock bytes l = Some l'"
  shows "same_status (tl_link l) (tl_link l')"
proof -
  obtain f1 link1 r where loop: "Tcp_loop clock bytes l = Some (f1, link1, r)"
    using assms Tcp_receive_None [of clock bytes l] by (cases "Tcp_loop clock bytes l") auto
  have "tl_link l' = link1"
  proof (cases r)
    case (Inl e)
    then show ?thesis using Tcp_receive_Inl [OF loop [unfolded Inl]] assms by auto
  next
    case (Inr x)
    obtain p m n where "x = (p, m, n)" by (cases x)
    then show ?thesis using Tcp_receive_Inr [of clock bytes l f1 link1 p m n] loop Inr assms by auto
  qed
  then show ?thesis using extraction_loop_same_status [OF loop [unfolded Tcp_loop_def]] by simp
qed

lemma tcp_stalled_step:
  assumes "tcp_step clock l l'" and "isStalled (tl_link l)"
  shows "isStalled (tl_link l')"
  using assms
proof (cases rule: tcp_step.cases)
  case (received n bytes)
  then show ?thesis
    using assms(2) Tcp_receive_same_status [of clock bytes l l'] by (simp add: same_status_def isStalled_def)
next
  case (read_failed n error transferred)
  then show ?thesis
    using assms(2) by (auto simp: isStalled_def Tcp_onBytesReceived_def Tcp_setConnected_def Let_def)
qed (auto simp: isStalled_def Tcp_handler_defs TCPLink_destroy_def split_beta Let_def split: error_code.splits)

section \<open>The stream as packets\<close>

lemma tcp_stream:
  assumes "tcp_reachable clock l" and "tl_extractionByteBuffer l = []"
    and "\<not> Tcp_isComplete (tl_scanFactory l)"
    and "\<forall>p \<in> set packets. sent_ok p \<and> length (sent_bytes p) < 2 ^ 31"
    and "concat chunks = stream_bytes packets" and "\<forall>chunk \<in> set chunks. length chunk \<le> 4096"
    and "\<forall>k. safe_cut packets (length (concat (take k chunks)))"
  shows "\<exists>l'. Tcp_receive_all clock chunks l = Some l' \<and> tl_extractionByteBuffer l' = [] \<and>
    (tl_scanFactory l', tl_link l') =
      receive_packets tcp_ops clock packets (tl_scanFactory l, tl_link l)"
proof -
  have "Tcp_between packets (tl_scanFactory l) l"
    using Tcp_link_inv_reachable [OF assms(1)] assms(2,3)
    by (simp add: Tcp_between_def Tcp_link_inv_def tcp_ops_def)
  from Tcp_receive_all_stream [OF this assms(6,4), of clock] assms(2,5,7) show ?thesis by simp
qed

section \<open>Properties\<close>

text \<open>
  C2: The TCP link reassembles the stream. A stream of well-formed packets received in chunks of any
  sizes up to the smallest reception buffer, none of which ends within the first 79 bytes of a packet,
  has on the factory, on the published scans and on the callbacks exactly the effect of the packets
  taken one by one, and leaves nothing in the extraction buffer.
\<close>

theorem tcp_stream_reassembled:
  assumes "tcp_reachable clock l" and "tl_extractionByteBuffer l = []"
    and "\<not> Tcp_isComplete (tl_scanFactory l)"
    and "\<forall>p \<in> set packets. sent_ok p \<and> length (sent_bytes p) < 2 ^ 31"
    and "concat chunks = stream_bytes packets" and "\<forall>chunk \<in> set chunks. length chunk \<le> 4096"
    and "\<forall>k. safe_cut packets (length (concat (take k chunks)))"
  shows "\<exists>l'. Tcp_receive_all clock chunks l = Some l' \<and> tl_extractionByteBuffer l' = [] \<and>
    (tl_scanFactory l', tl_link l') =
      receive_packets tcp_ops clock packets (tl_scanFactory l, tl_link l)"
  using assms by (rule tcp_stream)

text \<open>A packet that is a scan of its own, received in two pieces.\<close>

definition example_packet :: sent_packet where
  "example_packet = (PT_C, example_header 3 1 2, [], example_points)"

definition example_scan :: Scan where
  "example_scan = \<lparr>sc_distances = [1234, 0], sc_amplitudes = [500, 32],
     sc_headers = [example_header 3 1 2], sc_timestamp = 77\<rparr>"

lemma example_packet_ok [simp]:
  "sent_ok example_packet" "length (sent_bytes example_packet) = 84"
  "sent_bytes example_packet = packet_bytes PT_C (example_header 3 1 2) [] example_points"
  by (simp_all add: example_packet_def example_well_formed)

lemma example_packet_received:
  "receive_packets tcp_ops (\<lambda>_. 77) [example_packet] (TcpScanFactory_new, link) =
   (TcpScanFactory_new, setOutputScanFromCompletedFactory example_scan link)"
  by (simp add: example_packet_def example_values Tcp_example_store publishIfComplete_def)
    (simp add: Tcp_defs example_scan_def)

theorem tcp_stream_reassembled_witness:
  "\<exists>l'. Tcp_receive_all (\<lambda>_. 77) [take 81 (sent_bytes example_packet), drop 81 (sent_bytes example_packet)]
      (TCPLink_new True) = Some l' \<and> getLastScan (tl_link l') = example_scan"
proof -
  let ?b = "sent_bytes example_packet"
  let ?l = "TCPLink_new True"
  have cuts: "safe_cut [example_packet] (length (concat (take k [take 81 ?b, drop 81 ?b])))" for k
  proof -
    consider "k = 0" | "k = 1" | "2 \<le> k" by linarith
    then show ?thesis by cases (simp_all del: example_packet_ok(3))
  qed
  have new: "tl_extractionByteBuffer ?l = []" "tl_scanFactory ?l = TcpScanFactory_new"
    by (simp_all add: TCPLink_new_def Tcp_handler_defs)
  have nc: "\<not> Tcp_isComplete (tl_scanFactory ?l)" by (simp add: new Tcp_defs)
  have "\<exists>l'. Tcp_receive_all (\<lambda>_. 77) [take 81 ?b, drop 81 ?b] ?l = Some l' \<and>
      tl_extractionByteBuffer l' = [] \<and> (tl_scanFactory l', tl_link l') =
      receive_packets tcp_ops (\<lambda>_. 77) [example_packet] (tl_scanFactory ?l, tl_link ?l)"
    by (rule tcp_stream_reassembled [OF constructed new(1) nc])
      (use cuts in \<open>simp_all del: example_packet_ok(3)\<close>)
  then show ?thesis
    unfolding new(2) example_packet_received
    by (auto simp: getLastScan_def publication_defs Let_def)
qed

text \<open>
  A connected link with a callback, and the same packet padded so that it fills one read; the link
  that has received it.
\<close>

definition example_connected :: TCPLink where
  "example_connected = Tcp_onSocketConnectionAttemptCompleted No_Error (Tcp_onEndpointsResolved No_Error
     ((TCPLink_new True)\<lparr>tl_link := addOnNewScanAvailableCallback 1 (tl_link (TCPLink_new True))\<rparr>))"

definition example_padded :: sent_packet where
  "example_padded = (PT_C, (example_header 3 1 2)\<lparr>h_packetSize := 4096, h_headerSize := 4088\<rparr>,
     replicate 4012 0, example_points)"

definition example_padded_scan :: Scan where
  "example_padded_scan = example_scan\<lparr>sc_headers := [sent_header example_padded]\<rparr>"

lemma example_padded_ok: "sent_ok example_padded" "length (sent_bytes example_padded) = 4096"
  by (simp_all add: example_padded_def well_formed_def example_points_def PACKET_MAGIC_START_def
      packet_bytes_def)

lemma example_padded_received:
  "receive_packets tcp_ops (\<lambda>_. 77) [example_padded] (TcpScanFactory_new, link) =
   (TcpScanFactory_new, setOutputScanFromCompletedFactory example_padded_scan link)"
  by (simp add: example_padded_def example_values Tcp_example_store publishIfComplete_def)
    (simp add: Tcp_defs example_padded_scan_def example_scan_def sent_header_def example_padded_def)

lemma example_connected_fields:
  "tl_extractionByteBuffer example_connected = []" "tl_scanFactory example_connected = TcpScanFactory_new"
  "tl_pending example_connected = Reading 4096"
  "dl_onNewScanAvailableCallbacks (tl_link example_connected) = [1]"
  by (simp_all add: example_connected_def TCPLink_new_def Tcp_handler_defs addOnNewScanAvailableCallback_def
      DataLink_new_def DataLink_initial_def)

lemma example_connected_reachable: "tcp_reachable clock example_connected"
  unfolding example_connected_def
proof (rule reached [OF reached [OF reached [OF constructed scan_callback] resolved] connected])
  show "tl_pending ((TCPLink_new True)\<lparr>tl_link := addOnNewScanAvailableCallback 1 (tl_link (TCPLink_new True))\<rparr>)
      = Resolving"
    by (simp add: TCPLink_new_def Tcp_handler_defs)
  show "tl_pending (Tcp_onEndpointsResolved No_Error
      ((TCPLink_new True)\<lparr>tl_link := addOnNewScanAvailableCallback 1 (tl_link (TCPLink_new True))\<rparr>)) = Connecting"
    by (simp add: Tcp_handler_defs)
qed

lemma example_published:
  "\<exists>l. tcp_reachable (\<lambda>_. 77) l \<and> New_Scan 1 example_padded_scan \<in> set (dl_events (tl_link l))"
proof -
  let ?l = example_connected and ?b = "sent_bytes example_padded"
  have "Tcp_between [example_padded] (tl_scanFactory ?l) ?l"
    using Tcp_link_inv_reachable [OF example_connected_reachable]
    by (simp add: Tcp_between_def Tcp_link_inv_def example_connected_fields tcp_ops_def Tcp_isComplete_def
        Tcp_empty_def TcpScanFactory_new_def)
  moreover have "safe_cut [example_padded] (length (tl_extractionByteBuffer ?l) + length (concat (take k [?b])))" for k
    using example_padded_ok(2) by (cases k) (simp_all add: example_connected_fields)
  ultimately obtain l' where l': "Tcp_receive_all (\<lambda>_. 77) [?b] ?l = Some l'"
      "(tl_scanFactory l', tl_link l') =
        receive_packets tcp_ops (\<lambda>_. 77) [example_padded] (tl_scanFactory ?l, tl_link ?l)"
    using Tcp_receive_all_stream [of "[example_padded]" "tl_scanFactory ?l" ?l "[?b]" "\<lambda>_. 77"]
      example_padded_ok by (auto simp: example_connected_fields simp del: sent_ok.simps sent_bytes.simps)
  then have "Tcp_receive (\<lambda>_. 77) ?b ?l = Some l'" by (auto split: option.splits)
  then have "tcp_step (\<lambda>_. 77) ?l l'"
    by (intro received [OF example_connected_fields(3)])
      (simp_all add: example_padded_ok(2) example_connected_fields)
  then have "tcp_reachable (\<lambda>_. 77) l'" by (rule reached [OF example_connected_reachable])
  moreover have "New_Scan 1 example_padded_scan \<in> set (dl_events (tl_link l'))"
    using l'(2) unfolding example_connected_fields(2) example_padded_received
    by (simp add: publication_defs Let_def example_connected_fields)
  ultimately show ?thesis by blast
qed

text \<open>
  C12: Every scan a TCP link has handed to a callback, in any history of the link, is sound: its packets
  carry one scan number, there are as many amplitudes as distances, and at least as many points as
  one of its headers announces for the scan.
\<close>

theorem tcp_published_scans_sound:
  assumes "tcp_reachable clock l" and "New_Scan callback scan \<in> set (dl_events (tl_link l))"
  shows "(\<forall>h \<in> set (sc_headers scan). \<forall>h' \<in> set (sc_headers scan). h_scanNumber h = h_scanNumber h') \<and>
    length (sc_amplitudes scan) = length (sc_distances scan) \<and>
    (\<exists>h \<in> set (sc_headers scan). unat (h_numPointsScan h) \<le> length (sc_distances scan))"
proof -
  have "published_sound (tl_link l)"
    using Tcp_link_inv_reachable [OF assms(1)] unfolding Tcp_link_inv_def by blast
  then have "sound_scan scan" using assms(2) unfolding published_sound_def by blast
  then show ?thesis unfolding sound_scan_def .
qed

theorem tcp_published_scans_sound_witness:
  "length (sc_amplitudes example_padded_scan) = length (sc_distances example_padded_scan)"
proof -
  obtain l where "tcp_reachable (\<lambda>_. 77) l" "New_Scan 1 example_padded_scan \<in> set (dl_events (tl_link l))"
    using example_published by blast
  from tcp_published_scans_sound [OF this] show ?thesis by blast
qed

text \<open>
  C32: In any history of a TCP link the reception buffer holds between 4096 and 32768 bytes, and every
  read in flight asks for at least one byte and for no more than the buffer holds.
\<close>

theorem tcp_transfers_fit:
  assumes "tcp_reachable clock l"
  shows "4096 \<le> length (tl_receptionByteBuffer l) \<and> length (tl_receptionByteBuffer l) \<le> 32768 \<and>
    (\<forall>n. tl_pending l = Reading n \<longrightarrow> 0 < n \<and> n \<le> length (tl_receptionByteBuffer l))"
  using Tcp_link_inv_reachable [OF assms] by (simp add: Tcp_link_inv_def Tcp_buffer_ok_def)

theorem tcp_transfers_fit_witness:
  "(4096 :: nat) \<le> length (tl_receptionByteBuffer example_connected) \<and>
   tl_pending example_connected = Reading 4096"
  using tcp_transfers_fit [OF example_connected_reachable] example_connected_fields(3) by blast

text \<open>
  C33: The reception handler of the TCP link returns whenever every header that can be found in the
  extraction buffer announces a header size.
\<close>

theorem tcp_reception_returns:
  assumes "headers_advance (tl_extractionByteBuffer l @ bytes)"
    and "length (tl_extractionByteBuffer l @ bytes) < 2 ^ 32"
  shows "\<exists>l'. Tcp_receive clock bytes l = Some l'"
proof -
  have "\<exists>r. Tcp_loop clock bytes l = Some r"
    unfolding Tcp_loop_def by (intro extraction_loop_ends [OF assms]) simp
  then show ?thesis using Tcp_receive_None [of clock bytes l] by (cases "Tcp_receive clock bytes l") auto
qed

theorem tcp_reception_returns_witness:
  "\<exists>l'. Tcp_receive (\<lambda>_. 77) (sent_bytes example_packet) (TCPLink_new True) = Some l'"
proof (rule tcp_reception_returns)
  let ?buf = "tl_extractionByteBuffer (TCPLink_new True) @ sent_bytes example_packet"
  let ?b = "packet_bytes PT_C (example_header 3 1 2) [] example_points"
  have buf: "?buf = ?b" by (simp add: TCPLink_new_def Tcp_handler_defs)
  have only: "filter (\<lambda>i. ?b ! i = 0x5C) [0..<83] = [0]" by code_simp
  have "i = 0" if "magic_at ?b i" for i
  proof -
    have "i \<in> set (filter (\<lambda>i. ?b ! i = 0x5C) [0..<83])"
      using that by (simp add: magic_at_def)
    then show ?thesis unfolding only by simp
  qed
  moreover have "Header_fromByteRange ?b 0 = Inr (example_header 3 1 2)"
    by (rule Header_fromByteRange_bytes [where rest = "concat (map (point_bytes PT_C) example_points)"])
      (simp add: packet_bytes_def)
  ultimately have "h = example_header 3 1 2"
    if "magic_at ?b i" "Header_fromByteRange ?b i = Inr h" for i h
    using that by (metis sum.inject(2))
  then show "headers_advance ?buf" unfolding buf headers_advance_def by fastforce
  show "length ?buf < 2 ^ 32" unfolding buf by simp
qed

text \<open>
  A supported packet without points whose header and packet sizes are 0 makes the handler of the TCP
  link loop for ever: the packet is extracted again and again without moving the position.
\<close>

theorem tcp_reception_hangs:
  assumes "retrievePacketHeader (tl_extractionByteBuffer l @ bytes) 0 = Inr (Some (0, h))"
    and "h_headerSize h = 0" and "h_packetSize h = 0" and "h_numPointsPacket h = 0"
    and "h_packetType h \<in> {0x41, 0x42, 0x43}"
    and "length (tl_extractionByteBuffer l @ bytes) < 2 ^ 32"
  shows "Tcp_receive clock bytes l = None"
proof -
  let ?buf = "tl_extractionByteBuffer l @ bytes"
  have len: "length ?buf < 2 ^ 64" using assms(6) by simp
  have "packet_type_of (h_packetType h) \<noteq> None"
    using assms(5) by (auto simp: packet_type_of_def)
  then obtain T where T: "packet_type_of (h_packetType h) = Some T" by blast
  have "retrievePayload T ?buf 0 (ucast (h_numPointsPacket h)) ([], []) = Inr (0, [], [])"
    unfolding retrievePayload_eq [OF le0 len] assms(4) Let_def by simp
  then have "snd (extractScanPacketFromByteRange tcp_ops ?buf 0 g) = Inr (True, 0, 0)" for g
    using assms(1-3) T
    by (simp add: extractScanPacketFromByteRange_def extractPayload_present payload_missing_def
        payload_size_def Let_def)
  then show ?thesis
    unfolding Tcp_receive_None Tcp_loop_def by (intro extraction_loop_stuck) blast
qed

theorem tcp_reception_hangs_witness:
  "Tcp_receive (\<lambda>_. 77) (header_bytes ((example_header 3 1 2)\<lparr>h_packetSize := 0, h_headerSize := 0,
     h_numPointsPacket := 0\<rparr>) @ replicate 4 0) (TCPLink_new True) = None"
proof (rule tcp_reception_hangs)
  let ?h = "(example_header 3 1 2)\<lparr>h_packetSize := 0, h_headerSize := 0, h_numPointsPacket := 0\<rparr>"
  let ?buf = "tl_extractionByteBuffer (TCPLink_new True) @ header_bytes ?h @ replicate 4 0"
  have buf: "?buf = header_bytes ?h @ replicate 4 0" by (simp add: TCPLink_new_def Tcp_handler_defs)
  show "retrievePacketHeader ?buf 0 = Inr (Some (0, ?h))"
    unfolding buf by (rule retrievePacketHeader_bytes [where rest = "replicate 4 0"])
      (simp_all add: PACKET_MAGIC_START_def)
  show "length ?buf < 2 ^ 32" unfolding buf by simp
qed simp_all

text \<open>
  C40: What arrives of a packet in fewer than 80 bytes at the end of a chunk is lost. The packets before it
  are received, the extraction buffer is emptied, and the link is as if these bytes had not been sent.
\<close>

theorem tcp_short_piece_lost:
  assumes "tcp_reachable clock l" and "tl_extractionByteBuffer l = []"
    and "\<not> Tcp_isComplete (tl_scanFactory l)" and "\<forall>p \<in> set packets. sent_ok p"
    and "length piece < 80" and "length (stream_bytes packets @ piece) \<le> 4096"
  shows "\<exists>l'. Tcp_receive clock (stream_bytes packets @ piece) l = Some l' \<and>
    tl_extractionByteBuffer l' = [] \<and>
    (tl_scanFactory l', tl_link l') =
      receive_packets tcp_ops clock packets (tl_scanFactory l, tl_link l)"
proof -
  let ?buf = "stream_bytes packets @ piece"
  note inv = Tcp_link_inv_reachable [OF assms(1), unfolded Tcp_link_inv_def]
  obtain f' link' where spec:
      "receive_packets tcp_ops clock packets (tl_scanFactory l, tl_link l) = (f', link')"
    by (cases "receive_packets tcp_ops clock packets (tl_scanFactory l, tl_link l)")
  have small: "length ?buf < 2 ^ 32" using assms(6) by simp
  have nc: "\<not> fo_isComplete tcp_ops (tl_scanFactory l)" using assms(3) by (simp add: tcp_ops_def)
  have nc': "\<not> fo_isComplete tcp_ops f'"
    using tcp_factory.receive_packets_invariant [OF spec _ _ _ nc] inv by blast
  have "drop 0 ?buf = stream_bytes packets @ piece" by simp
  from extraction_loop_packets [OF this assms(4) small spec, of Tcp_note None]
  obtain n where "Tcp_loop clock ?buf l =
      extraction_loop tcp_ops clock Tcp_note ?buf (length (stream_bytes packets)) n f' link'"
    unfolding Tcp_loop_def assms(2) by auto
  also have "\<dots> = Some (f', link', Inr (length ?buf, 0, n))"
    using assms(5) small nc' by (intro extraction_loop_short) simp_all
  finally have loop: "Tcp_loop clock ?buf l = Some (f', link', Inr (length ?buf, 0, n))" .
  have "Tcp_buffer_ok (tl_receptionByteBuffer l)" using inv by blast
  from Tcp_receive_state [OF loop this assms(6)] show ?thesis
    using spec assms(2) by auto
qed

theorem tcp_short_piece_lost_witness:
  "\<exists>l'. Tcp_receive (\<lambda>_. 77) (sent_bytes example_packet @ take 79 (sent_bytes example_packet))
      (TCPLink_new True) = Some l' \<and> tl_extractionByteBuffer l' = [] \<and> tl_scanFactory l' = TcpScanFactory_new"
proof -
  let ?l = "TCPLink_new True" and ?piece = "take 79 (sent_bytes example_packet)"
  have new: "tl_extractionByteBuffer ?l = []" "tl_scanFactory ?l = TcpScanFactory_new"
    by (simp_all add: TCPLink_new_def Tcp_handler_defs)
  have nc: "\<not> Tcp_isComplete (tl_scanFactory ?l)" by (simp add: new Tcp_defs)
  have "\<exists>l'. Tcp_receive (\<lambda>_. 77) (stream_bytes [example_packet] @ ?piece) ?l = Some l' \<and>
      tl_extractionByteBuffer l' = [] \<and> (tl_scanFactory l', tl_link l') =
      receive_packets tcp_ops (\<lambda>_. 77) [example_packet] (tl_scanFactory ?l, tl_link ?l)"
    by (rule tcp_short_piece_lost [OF constructed new(1) nc]) (simp_all del: example_packet_ok(3))
  then show ?thesis unfolding new(2) example_packet_received by auto
qed

text \<open>
  The TCP link does not reconnect. After an error of a read no operation is ever submitted again and no
  scan is ever received, whatever happens next; yet the next successful round of the watchdog reports
  the link as alive.
\<close>

theorem tcp_read_error_final:
  assumes "error \<noteq> No_Error" and "Tcp_onBytesReceived clock error transferred l = Some l1"
    and "(tcp_step clock)\<^sup>*\<^sup>* l1 l2"
  shows "\<not> isAlive (tl_link l1) \<and> tcp_idle l2 \<and> getLastScan (tl_link l2) = getLastScan (tl_link l) \<and>
    (dl_watchdogTask (tl_link l1) \<longrightarrow> \<not> dl_interruptFlag (tl_link l1) \<longrightarrow>
      (\<exists>l3. tcp_step clock l1 l3 \<and> isAlive (tl_link l3) \<and> tcp_idle l3))"
proof -
  have l1: "tl_pending l1 = No_Operation" "\<not> isAlive (tl_link l1)"
    "dl_lastScanReceived (tl_link l1) = dl_lastScanReceived (tl_link l)"
    using assms(1,2)
    by (auto simp: Tcp_onBytesReceived_def Tcp_setConnected_def isAlive_def fireDataLinkConnectionLostEvent_def
        Let_def)
  then have idle: "tcp_idle l1" by (simp add: tcp_idle_def)
  have "\<exists>l3. tcp_step clock l1 l3 \<and> isAlive (tl_link l3) \<and> tcp_idle l3"
    if w: "dl_watchdogTask (tl_link l1)" "\<not> dl_interruptFlag (tl_link l1)"
  proof -
    let ?l3 = "l1\<lparr>tl_link := watchdogTask_round (Some SUCCESS) (tl_link l1)\<rparr>"
    have "tcp_step clock l1 ?l3" using w(1) by (rule watchdog)
    moreover have "isAlive (tl_link ?l3)" using w(2) by (simp add: watchdog_defs isAlive_def)
    moreover have "tcp_idle ?l3" using idle by (simp add: tcp_idle_def)
    ultimately show ?thesis by blast
  qed
  then show ?thesis
    using tcp_idle_steps [OF assms(3) idle] l1 by (simp add: getLastScan_def)
qed

theorem tcp_read_error_final_witness:
  "\<exists>l1 l3. Tcp_onBytesReceived (\<lambda>_. 77) Network_Error 0
      (example_connected\<lparr>tl_link := onStartScanCompleted SUCCESS True (tl_link example_connected)\<rparr>) = Some l1 \<and>
    \<not> isAlive (tl_link l1) \<and> tcp_step (\<lambda>_. 77) l1 l3 \<and> isAlive (tl_link l3) \<and> tcp_idle l3"
proof -
  let ?l = "example_connected\<lparr>tl_link := onStartScanCompleted SUCCESS True (tl_link example_connected)\<rparr>"
  obtain l1 where l1: "Tcp_onBytesReceived (\<lambda>_. 77) Network_Error 0 ?l = Some l1"
    by (simp add: Tcp_onBytesReceived_def Let_def)
  then have "dl_watchdogTask (tl_link l1)" "\<not> dl_interruptFlag (tl_link l1)"
    by (auto simp: Tcp_onBytesReceived_def Let_def onStartScanCompleted_def Tcp_handler_defs
        fireDataLinkConnectionLostEvent_def example_connected_def TCPLink_new_def DataLink_new_def
        DataLink_initial_def addOnNewScanAvailableCallback_def)
  with tcp_read_error_final [OF _ l1 rtranclp.rtrancl_refl] l1 show ?thesis by blast
qed

text \<open>
  A packet of an unsupported type ends the reception of the TCP link. The exception leaves the io
  task, no operation is ever submitted again and no scan received, while the link is reported as alive
  or not exactly as before.
\<close>

theorem tcp_unsupported_type_final:
  assumes "retrievePacketHeader (tl_extractionByteBuffer l @ bytes) 0 = Inr (Some (start, h))"
    and "start + unat (h_headerSize h) + payload_size h \<le> length (tl_extractionByteBuffer l @ bytes)"
    and "h_packetType h \<notin> {0x41, 0x42, 0x43}"
  shows "\<exists>l1. Tcp_receive clock bytes l = Some l1 \<and>
    tl_pending l1 = Terminated (unsupported_payload (h_packetType h)) \<and>
    isAlive (tl_link l1) = isAlive (tl_link l) \<and>
    (\<forall>l2. (tcp_step clock)\<^sup>*\<^sup>* l1 l2 \<longrightarrow>
      tcp_idle l2 \<and> getLastScan (tl_link l2) = getLastScan (tl_link l))"
proof -
  let ?buf = "tl_extractionByteBuffer l @ bytes"
  have "extractScanPacketFromByteRange tcp_ops ?buf 0 (tl_scanFactory l) =
      (clearOnScanChange tcp_ops h (tl_scanFactory l), Inl (unsupported_payload (h_packetType h)))"
    using assms
    by (simp add: extractScanPacketFromByteRange_def extractPayload_present payload_missing_def
        packet_type_of_def)
  from extraction_loop_fault [OF this]
  have "Tcp_loop clock bytes l = Some (clearOnScanChange tcp_ops h (tl_scanFactory l), tl_link l,
      Inl (unsupported_payload (h_packetType h)))"
    by (simp add: Tcp_loop_def)
  from Tcp_receive_Inl [OF this] obtain l1 where l1: "Tcp_receive clock bytes l = Some l1"
      "tl_pending l1 = Terminated (unsupported_payload (h_packetType h))" "tl_link l1 = tl_link l"
    by blast
  then have "tcp_idle l1" by (simp add: tcp_idle_def)
  then show ?thesis using tcp_idle_steps [of clock l1] l1 by (auto simp: getLastScan_def)
qed

theorem tcp_unsupported_type_final_witness:
  "\<exists>l1. Tcp_receive (\<lambda>_. 77) (header_bytes ((example_header 3 1 2)\<lparr>h_packetType := 0x44\<rparr>) @ replicate 8 0)
      example_connected = Some l1 \<and> (\<exists>e. tl_pending l1 = Terminated e) \<and> isAlive (tl_link l1)"
proof -
  let ?h = "(example_header 3 1 2)\<lparr>h_packetType := 0x44\<rparr>"
  have "retrievePacketHeader (tl_extractionByteBuffer example_connected @ header_bytes ?h @ replicate 8 0) 0
      = Inr (Some (0, ?h))"
    unfolding example_connected_fields
    by (simp, rule retrievePacketHeader_bytes [where rest = "replicate 8 0"])
      (simp_all add: PACKET_MAGIC_START_def)
  from tcp_unsupported_type_final [OF this] have "\<exists>l1. Tcp_receive (\<lambda>_. 77) (header_bytes ?h @ replicate 8 0)
      example_connected = Some l1 \<and> (\<exists>e. tl_pending l1 = Terminated e) \<and>
      isAlive (tl_link l1) = isAlive (tl_link example_connected)"
    by (simp add: example_connected_fields payload_size_def) blast
  moreover have "isAlive (tl_link example_connected)"
    by (simp add: example_connected_def TCPLink_new_def Tcp_handler_defs isAlive_def)
  ultimately show ?thesis by simp
qed

text \<open>
  A link once reported as stalled stays so: no operation of the link, the arrival of new scans
  included, resets the flag of the stall monitor.
\<close>

theorem tcp_stalled_for_ever:
  assumes "(tcp_step clock)\<^sup>*\<^sup>* l l'" and "isStalled (tl_link l)"
  shows "isStalled (tl_link l')"
  using assms by (induction rule: rtranclp_induct) (auto intro: tcp_stalled_step)

theorem tcp_stalled_for_ever_witness:
  "isStalled (tl_link (Tcp_onSocketConnectionAttemptCompleted No_Error
     ((TCPLink_new True)\<lparr>tl_pending := Connecting,
        tl_link := stallMonitoringTask_round 9000 DataLink_initial\<rparr>)))"
proof (rule tcp_stalled_for_ever)
  let ?l = "(TCPLink_new True)\<lparr>tl_pending := Connecting, tl_link := stallMonitoringTask_round 9000 DataLink_initial\<rparr>"
  show "(tcp_step (\<lambda>_. 0))\<^sup>*\<^sup>* ?l (Tcp_onSocketConnectionAttemptCompleted No_Error ?l)"
    by (intro r_into_rtranclp connected) simp
  show "isStalled (tl_link ?l)"
    by (simp add: isStalled_def stallMonitoringTask_round_def DataLink_initial_def isAlive_def getLastScan_def
        default_Scan_def)
qed

end
