(* ===== verification/TCP_Scans.thy ===== *)
theory TCP_Scans
  imports TCP_Link Scan_Streams
begin

text \<open>
  The TCP link from the bytes of the stream to the scans it publishes: the reassembled packets of the stream
  are those of a sequence of scans, of which some may be broken off.
\<close>

lemma tcp_scans:
  assumes "tcp_reachable clock l" and "tl_extractionByteBuffer l = []" and "\<not> Tcp_isComplete (tl_scanFactory l)"
    and "\<forall>packets \<in> set scans. begun_scan packets"
    and "\<forall>packets \<in> set scans. \<forall>p \<in> set packets. sent_ok p \<and> length (sent_bytes p) < 2 ^ 31"
    and "concat chunks = stream_bytes (concat scans)" and "\<forall>chunk \<in> set chunks. length chunk \<le> 4096"
    and "\<forall>k. safe_cut (concat scans) (length (concat (take k chunks)))"
  shows "\<exists>l'. Tcp_receive_all clock chunks l = Some l' \<and>
    tl_link l' = fold (tcp_store.publish_part clock) scans (tl_link l)"
proof -
  have "\<forall>p \<in> set (concat scans). sent_ok p \<and> length (sent_bytes p) < 2 ^ 31" using assms(5) by auto
  from tcp_stream [OF assms(1-3) this assms(6-8)] obtain l' where l': "Tcp_receive_all clock chunks l = Some l'"
    "(tl_scanFactory l', tl_link l') = receive_packets tcp_ops clock (concat scans) (tl_scanFactory l, tl_link l)"
    by blast
  have "Tcp_inv (tl_scanFactory l)" using Tcp_link_inv_reachable [OF assms(1)] by (simp add: Tcp_link_inv_def)
  moreover have "\<forall>packets \<in> set scans. scan_part packets" "separate (tcp_store.held (tl_scanFactory l)) scans"
    using assms(4) begun_scans_separate by (simp_all add: begun_scan_part)
  ultimately have "snd (receive_packets tcp_ops clock (concat scans) (tl_scanFactory l, tl_link l)) =
      fold (tcp_store.publish_part clock) scans (tl_link l)" by (rule tcp_store.receive_parts)
  with l'(2) have "tl_link l' = fold (tcp_store.publish_part clock) scans (tl_link l)"
    by (metis snd_conv)
  with l'(1) show ?thesis by blast
qed

text \<open>What a user with one callback sees of it.\<close>

lemma published_events:
  assumes "dl_onNewScanAvailableCallbacks link = [callback]"
  shows "\<exists>scans'. list_all2 (\<lambda>scan packets. \<exists>time. scan = scan_of_packets time packets) scans'
      (filter (\<lambda>packets. points_of packets = announced packets) scans) \<and>
    dl_events (fold (tcp_store.publish_part clock) scans link) = dl_events link @ map (New_Scan callback) scans'"
  using assms
proof (induction scans arbitrary: link)
  case (Cons packets scans)
  let ?complete = "\<lambda>packets. points_of packets = announced packets"
  let ?shown = "\<lambda>scan packets. \<exists>time. scan = scan_of_packets time packets"
  have one: "dl_onNewScanAvailableCallbacks (tcp_store.publish_part clock packets link) = [callback]"
    "dl_events (tcp_store.publish_part clock packets link) = dl_events link @
       (if ?complete packets then [New_Scan callback (scan_of_packets (clock (dl_scanCounter link)) packets)] else [])"
    using Cons.prems by (simp_all add: tcp_store.publish_part_def publication_defs Let_def)
  obtain scans' where later: "list_all2 ?shown scans' (filter ?complete scans)"
    "dl_events (fold (tcp_store.publish_part clock) scans (tcp_store.publish_part clock packets link)) =
      dl_events (tcp_store.publish_part clock packets link) @ map (New_Scan callback) scans'"
    using Cons.IH [OF one(1)] by blast
  show ?case
  proof (cases "?complete packets")
    case True
    have "list_all2 ?shown (scan_of_packets (clock (dl_scanCounter link)) packets # scans') (filter ?complete (packets # scans))"
      using later(1) True by auto
    moreover have "dl_events (fold (tcp_store.publish_part clock) (packets # scans) link) =
        dl_events link @ map (New_Scan callback) (scan_of_packets (clock (dl_scanCounter link)) packets # scans')"
      using later(2) one(2) True by simp
    ultimately show ?thesis by blast
  next
    case False
    then show ?thesis using later one(2) by auto
  qed
qed simp

section \<open>Properties\<close>

text \<open>
  C1: The TCP link publishes the scans the device sends. A stream of scans, each from its first packet on but
  not necessarily to its last, received in chunks of any sizes up to the smallest reception buffer, none
  of which ends within the first 79 bytes of a packet, publishes, whatever the link held of an earlier
  scan, exactly the scans that are complete, in their order: each with the distances, the amplitudes and
  the headers of its packets in the order in which they were sent.
\<close>

theorem tcp_scans_published:
  assumes "tcp_reachable clock l" and "tl_extractionByteBuffer l = []" and "\<not> Tcp_isComplete (tl_scanFactory l)"
    and "\<forall>packets \<in> set scans. begun_scan packets"
    and "\<forall>packets \<in> set scans. \<forall>p \<in> set packets. sent_ok p \<and> length (sent_bytes p) < 2 ^ 31"
    and "concat chunks = stream_bytes (concat scans)" and "\<forall>chunk \<in> set chunks. length chunk \<le> 4096"
    and "\<forall>k. safe_cut (concat scans) (length (concat (take k chunks)))"
  shows "\<exists>l'. Tcp_receive_all clock chunks l = Some l' \<and>
    tl_link l' = fold (\<lambda>packets link.
      if points_of packets = announced packets
      then setOutputScanFromCompletedFactory (scan_of_packets (clock (dl_scanCounter link)) packets) link
      else link) scans (tl_link l)"
  using tcp_scans [OF assms] unfolding tcp_store.publish_part_def [abs_def] .

text \<open>A scan that is broken off after its first packet, and one of a single packet.\<close>

definition example_broken_off :: sent_packet where
  "example_broken_off = (PT_C, example_header 2 1 4, [], example_points)"

lemma length_example_points [simp]: "length example_points = 2"
  by (simp add: example_points_def)

lemma example_scans:
  "begun_scan [example_broken_off]" "begun_scan [example_packet]"
  "points_of [example_broken_off] = 2" "announced [example_broken_off] = 4" "points_of [example_packet] = 2" "announced [example_packet] = 2"
  "sent_ok example_broken_off" "length (sent_bytes example_broken_off) = 84"
  "scan_of_packets 77 [example_packet] = example_scan"
  by (simp_all add: begun_scan_def same_scan_def announced_def sent_points_def sent_header_def isNewScan_def
      example_broken_off_def example_packet_def example_well_formed example_values scan_of_packets_def example_scan_def)

lemma example_cuts:
  "\<forall>k. safe_cut (concat [[example_broken_off], [example_packet]])
     (length (concat (take k [sent_bytes example_broken_off @ sent_bytes example_packet])))"
proof
  fix k
  show "safe_cut (concat [[example_broken_off], [example_packet]])
      (length (concat (take k [sent_bytes example_broken_off @ sent_bytes example_packet])))"
    by (cases k) (simp_all add: example_scans del: example_packet_ok(3))
qed

theorem tcp_scans_published_witness:
  "\<exists>l'. Tcp_receive_all (\<lambda>_. 77) [sent_bytes example_broken_off @ sent_bytes example_packet] (TCPLink_new True) = Some l' \<and>
     getLastScan (tl_link l') = example_scan \<and> dl_scanCounter (tl_link l') = 1"
proof -
  let ?l = "TCPLink_new True" and ?scans = "[[example_broken_off], [example_packet]]"
  let ?chunks = "[sent_bytes example_broken_off @ sent_bytes example_packet]"
  have new: "tl_extractionByteBuffer ?l = []" "\<not> Tcp_isComplete (tl_scanFactory ?l)" "dl_scanCounter (tl_link ?l) = 0"
    by (simp_all add: TCPLink_new_def Tcp_handler_defs Tcp_defs DataLink_new_def DataLink_initial_def)
  have "\<exists>l'. Tcp_receive_all (\<lambda>_. 77) ?chunks ?l = Some l' \<and>
      tl_link l' = fold (\<lambda>packets link. if points_of packets = announced packets
        then setOutputScanFromCompletedFactory (scan_of_packets 77 packets) link else link) ?scans (tl_link ?l)"
    by (rule tcp_scans_published [where clock = "\<lambda>_. 77", OF constructed new(1,2) _ _ _ _ example_cuts])
      (simp_all add: example_scans del: example_packet_ok(3))
  then show ?thesis
    using new(3) by (auto simp: example_scans getLastScan_def publication_defs Let_def simp del: points_of_simps)
qed

end
