(* ===== verification/Data_Link_Builder.thy ===== *)
theory Data_Link_Builder
  imports Device_Commands
begin

text \<open>
  The handle of a stream (\<open>include/Control/DeviceHandle.hpp\<close>) and the builder of links
  (\<open>include/DataLink/DataLinkBuilder.hpp\<close>, \<open>src/DataLink/DataLinkBuilder.cpp\<close>). An address is its text;
  \<open>address::from_string\<close> of Boost is the parameter \<open>from_string\<close>. Times are in milliseconds.
\<close>

section \<open>The handle\<close>

datatype PROTOCOL = PROTOCOL_TCP | PROTOCOL_UDP

record DeviceHandle =
  dh_value :: string
  dh_watchdogEnabled :: bool
  dh_watchdogTimeout :: int
  dh_port :: u16
  dh_ipv4Address :: string

definition DeviceHandle_new :: "string \<Rightarrow> string \<Rightarrow> u16 \<Rightarrow> bool \<Rightarrow> int \<Rightarrow> DeviceHandle" where
  "DeviceHandle_new handleValue address port watchdogEnabled watchdogTimeout =
     \<lparr>dh_value = handleValue, dh_watchdogEnabled = watchdogEnabled, dh_watchdogTimeout = watchdogTimeout,
      dh_port = port, dh_ipv4Address = address\<rparr>"

section \<open>Requirements\<close>

text \<open>The contents of a \<open>std::any\<close> that the builder stores; a handle builder is the parameters it builds.\<close>

datatype requirement =
    Any_Protocol PROTOCOL
  | Any_TcpHandle ParametersMap
  | Any_UdpHandle ParametersMap

type_synonym Requirements = "(string \<times> requirement) list"

definition Requirements_put :: "string \<Rightarrow> requirement \<Rightarrow> Requirements \<Rightarrow> Requirements" where
  "Requirements_put key v requirements = AList.update key v requirements"

definition Requirements_get :: "Requirements \<Rightarrow> string \<Rightarrow> requirement option" where
  "Requirements_get requirements key = map_of requirements key"

text \<open>\<open>std::any_cast\<close> is given as the projection to the type, \<open>None\<close> when another type is stored.\<close>

definition castAnyOrThrow :: "(requirement \<Rightarrow> 'a option) \<Rightarrow> requirement option \<Rightarrow> string \<Rightarrow> 'a result" where
  "castAnyOrThrow any_cast any throwMessage =
     (case any of
        None \<Rightarrow> Inl (Builder_Error (''Any is empty -> '' @ throwMessage))
      | Some stored \<Rightarrow> (case any_cast stored of None \<Rightarrow> Inl Bad_Any_Cast | Some v \<Rightarrow> Inr v))"

fun any_protocol :: "requirement \<Rightarrow> PROTOCOL option" where
  "any_protocol (Any_Protocol p) = Some p"
| "any_protocol _ = None"

fun any_tcp_handle :: "requirement \<Rightarrow> ParametersMap option" where
  "any_tcp_handle (Any_TcpHandle h) = Some h"
| "any_tcp_handle _ = None"

fun any_udp_handle :: "requirement \<Rightarrow> ParametersMap option" where
  "any_udp_handle (Any_UdpHandle h) = Some h"
| "any_udp_handle _ = None"

definition findValueOrThrow :: "ParametersMap \<Rightarrow> string \<Rightarrow> string \<Rightarrow> string result" where
  "findValueOrThrow m key throwMessage =
     (if \<not> pm_count m key then Inl (Builder_Error (''Key not found -> '' @ throwMessage)) else pm_at m key)"

definition findValueOrDefault :: "ParametersMap \<Rightarrow> string \<Rightarrow> string \<Rightarrow> string result" where
  "findValueOrDefault m key defaultValue = (if \<not> pm_count m key then Inr defaultValue else pm_at m key)"

definition DataLinkBuilder_tcp :: "ParametersMap \<Rightarrow> Requirements" where
  "DataLinkBuilder_tcp builder =
     Requirements_put ''handleBuilder'' (Any_TcpHandle builder)
       (Requirements_put ''protocol'' (Any_Protocol PROTOCOL_TCP) [])"

definition DataLinkBuilder_udp :: "ParametersMap \<Rightarrow> Requirements" where
  "DataLinkBuilder_udp builder =
     Requirements_put ''handleBuilder'' (Any_UdpHandle builder)
       (Requirements_put ''protocol'' (Any_Protocol PROTOCOL_UDP) [])"

section \<open>Extraction of the parameters of a link\<close>

definition extractWatchdogParameters :: "ParametersMap \<Rightarrow> (bool \<times> int) result" where
  "extractWatchdogParameters m =
     bind_result (findValueOrDefault m PARAMETER_HANDLE_WATCHDOG BOOL_PARAMETER_FALSE) (\<lambda>enabled.
       let watchdogEnabled = enabled = BOOL_PARAMETER_TRUE
       in bind_result
            (if watchdogEnabled
             then bind_result (findValueOrThrow m PARAMETER_HANDLE_WATCHDOG_TIMEOUT []) stoi
             else Inr 60000)
            (\<lambda>watchdogTimeout. Inr (watchdogEnabled, watchdogTimeout)))"

definition extractTcpDataLinkParameters :: "Requirements \<Rightarrow> (ParametersMap \<times> bool \<times> int) result" where
  "extractTcpDataLinkParameters requirements =
     bind_result (castAnyOrThrow any_tcp_handle (Requirements_get requirements ''handleBuilder'') []) (\<lambda>handleBuilder.
     bind_result (extractWatchdogParameters handleBuilder) (\<lambda>watchdog.
       Inr (handleBuilder, watchdog)))"

definition extractUdpDataLinkParameters ::
  "(string \<Rightarrow> string result) \<Rightarrow> Requirements \<Rightarrow> (ParametersMap \<times> (bool \<times> int) \<times> string \<times> u32) result" where
  "extractUdpDataLinkParameters from_string requirements =
     bind_result (castAnyOrThrow any_udp_handle (Requirements_get requirements ''handleBuilder'') []) (\<lambda>handleBuilder.
     bind_result (extractWatchdogParameters handleBuilder) (\<lambda>watchdog.
     bind_result (bind_result (findValueOrThrow handleBuilder PARAMETER_HANDLE_PORT
                    ''Could not find the port parameter.'') stoi) (\<lambda>port.
     bind_result (bind_result (findValueOrThrow handleBuilder PARAMETER_HANDLE_ADDRESS
                    ''Could not find the address parameter.'') from_string) (\<lambda>address.
       Inr (handleBuilder, watchdog, address, word_of_int port)))))"

section \<open>Construction of a link\<close>

definition makeTcpDeviceHandle ::
  "RequestResult \<times> int \<times> string \<Rightarrow> string \<Rightarrow> bool \<times> int \<Rightarrow> DeviceHandle" where
  "makeTcpDeviceHandle commandResult address watchdog =
     (let port = fst (snd commandResult);
          handle = snd (snd commandResult)
      in DeviceHandle_new handle address (word_of_int port) (fst watchdog) (snd watchdog))"

definition makeUdpDeviceHandle ::
  "RequestResult \<times> string \<Rightarrow> string \<Rightarrow> u32 \<Rightarrow> bool \<times> int \<Rightarrow> DeviceHandle" where
  "makeUdpDeviceHandle commandResult address port watchdog =
     DeviceHandle_new (snd commandResult) address (ucast port) (fst watchdog) (snd watchdog)"

text \<open>The link that is constructed, with the handle it is constructed for.\<close>

datatype built_link = Built_TCPLink DeviceHandle | Built_UDPLink DeviceHandle

type_synonym BuildResult = "RequestResult \<times> built_link option"

definition constructDataLink ::
  "'tree ptree_ops \<Rightarrow> (string \<Rightarrow> string result) \<Rightarrow> 'tree sender \<Rightarrow> DeviceConfiguration \<Rightarrow> Requirements
   \<Rightarrow> BuildResult result" where
  "constructDataLink ops from_string send configuration requirements =
     bind_result (castAnyOrThrow any_protocol (Requirements_get requirements ''protocol'') []) (\<lambda>protocol.
       case protocol of
         PROTOCOL_TCP \<Rightarrow>
           bind_result (extractTcpDataLinkParameters requirements) (\<lambda>(builder, watchdog).
           bind_result (RequestTcpHandle_execute ops send builder) (\<lambda>res.
             if fst res \<noteq> SUCCESS then Inr (fst res, None)
             else Inr (SUCCESS, Some (Built_TCPLink
                    (makeTcpDeviceHandle res (cf_deviceAddress configuration) watchdog)))))
       | PROTOCOL_UDP \<Rightarrow>
           bind_result (extractUdpDataLinkParameters from_string requirements) (\<lambda>(builder, watchdog, address, port).
           bind_result (RequestUdpHandle_execute ops send builder) (\<lambda>res.
             if fst res \<noteq> SUCCESS then Inr (fst res, None)
             else Inr (SUCCESS, Some (Built_UDPLink (makeUdpDeviceHandle res address port watchdog))))))"

text \<open>
  The asynchronous construction. The body of the two completions, for the variables they capture.
\<close>

definition onTcpHandleObtained ::
  "DeviceConfiguration \<Rightarrow> bool \<times> int \<Rightarrow> RequestResult \<times> int \<times> string \<Rightarrow> BuildResult" where
  "onTcpHandleObtained configuration w result =
     (let resultRequest = fst result
      in if resultRequest \<noteq> SUCCESS then (resultRequest, None)
         else (SUCCESS, Some (Built_TCPLink (makeTcpDeviceHandle result (cf_deviceAddress configuration) w))))"

definition onUdpHandleObtained ::
  "string \<Rightarrow> bool \<times> int \<Rightarrow> u32 \<Rightarrow> RequestResult \<times> string \<Rightarrow> BuildResult" where
  "onUdpHandleObtained a w p result =
     (let resultRequest = fst result
      in if resultRequest \<noteq> SUCCESS then (resultRequest, None)
         else (SUCCESS, Some (Built_UDPLink (makeUdpDeviceHandle result a p w))))"

text \<open>
  The completion that is given to the command, as the closure it is: which of the two lambdas, with the
  values it has captured. It is called with what the command makes of the answer of the device, and its
  result is the value of the promise.
\<close>

datatype completion =
    TcpCompletion "bool \<times> int"
  | UdpCompletion string "bool \<times> int" u32

fun completion_call ::
  "'tree ptree_ops \<Rightarrow> DeviceConfiguration \<Rightarrow> completion \<Rightarrow> 'tree DeviceAnswer \<Rightarrow> BuildResult result" where
  "completion_call ops configuration (TcpCompletion w) answer =
     bind_result (RequestTcpHandle_onComplete ops answer) (\<lambda>result. Inr (onTcpHandleObtained configuration w result))"
| "completion_call ops configuration (UdpCompletion a w p) answer =
     bind_result (RequestUdpHandle_onComplete ops answer) (\<lambda>result. Inr (onUdpHandleObtained a w p result))"

text \<open>
  What the construction leaves: the client with the command submitted, the completion waiting for its
  answer, and the value of the promise when the worker refuses the job. The function is \<open>noexcept\<close>: an
  exception ends the program.
\<close>

datatype ('tree, 'ep) async_build =
    Program_Terminated fault
  | Requested "('tree, 'ep) R2000" completion "BuildResult option"

definition constructDataLink_async ::
  "(string \<Rightarrow> string result) \<Rightarrow> Requirements \<Rightarrow> int \<Rightarrow> nat \<Rightarrow> ('tree, 'ep) R2000 \<Rightarrow> ('tree, 'ep) async_build" where
  "constructDataLink_async from_string requirements timeout callable device =
     (case bind_result (castAnyOrThrow any_protocol (Requirements_get requirements ''protocol'') []) (\<lambda>protocol.
         case protocol of
           PROTOCOL_TCP \<Rightarrow>
             bind_result (extractTcpDataLinkParameters requirements) (\<lambda>(handle, watchdog).
               Inr (TcpCompletion watchdog, RequestTcpHandle_asyncExecute handle timeout callable device))
         | PROTOCOL_UDP \<Rightarrow>
             bind_result (extractUdpDataLinkParameters from_string requirements) (\<lambda>(builder, watchdog, address, port).
               Inr (UdpCompletion address watchdog port, RequestUdpHandle_asyncExecute builder timeout callable device))) of
        Inl e \<Rightarrow> Program_Terminated e
      | Inr (onComplete, device1, launched) \<Rightarrow>
          Requested device1 onComplete (if \<not> launched then Some (FAILED, None) else None))"

text \<open>The two members \<open>build\<close>.\<close>

definition DataLinkBuilder_build ::
  "'tree ptree_ops \<Rightarrow> (string \<Rightarrow> string result) \<Rightarrow> 'tree sender \<Rightarrow> DeviceConfiguration \<Rightarrow> Requirements
   \<Rightarrow> BuildResult result" where
  "DataLinkBuilder_build ops from_string send configuration requirements =
     constructDataLink ops from_string send configuration requirements"

definition DataLinkBuilder_build_async ::
  "(string \<Rightarrow> string result) \<Rightarrow> Requirements \<Rightarrow> int \<Rightarrow> nat \<Rightarrow> ('tree, 'ep) R2000 \<Rightarrow> ('tree, 'ep) async_build" where
  "DataLinkBuilder_build_async from_string requirements timeout callable device =
     constructDataLink_async from_string requirements timeout callable device"

section \<open>The watchdog of a chain of builder calls\<close>

text \<open>The last call decides: whether the watchdog is on, and the time-out if one was given.\<close>

fun watchdog_call :: "RwHandleTcp \<Rightarrow> bool \<times> u32 option \<Rightarrow> bool \<times> u32 option" where
  "watchdog_call RwHandleTcp_withWatchdog (on, t) = (True, t)"
| "watchdog_call RwHandleTcp_withoutWatchdog (on, t) = (False, t)"
| "watchdog_call (RwHandleTcp_withWatchdogTimeout n) (on, t) = (on, Some n)"
| "watchdog_call _ w = w"

definition chosen_watchdog :: "RwHandleTcp list \<Rightarrow> bool \<times> u32 option" where
  "chosen_watchdog calls = fold watchdog_call calls (False, None)"

lemmas method_defs =
  ADD_RW_PARAMETER_BUILDER_METHOD_def ADD_RW_PARAMETER_BUILDER_METHOD_ON_def
  ADD_RW_PARAMETER_BUILDER_METHOD_OFF_def

lemma TcpHandle_watchdog:
  "map_of (TcpHandle calls) PARAMETER_HANDLE_WATCHDOG =
     Some (if fst (chosen_watchdog calls) then BOOL_PARAMETER_TRUE else BOOL_PARAMETER_FALSE) \<and>
   map_of (TcpHandle calls) PARAMETER_HANDLE_WATCHDOG_TIMEOUT =
     map_option u32_to_string (snd (chosen_watchdog calls))"
proof (induction calls rule: rev_induct)
  case Nil
  show ?case by (simp add: TcpHandle_def build_rw_def RwHandleTcp_new_def method_defs chosen_watchdog_def)
next
  case (snoc call calls)
  have step: "TcpHandle (calls @ [call]) = RwHandleTcp_method call (TcpHandle calls)"
    "chosen_watchdog (calls @ [call]) = watchdog_call call (chosen_watchdog calls)"
    by (simp_all add: TcpHandle_def build_rw_def chosen_watchdog_def)
  obtain on t where w: "chosen_watchdog calls = (on, t)" by (cases "chosen_watchdog calls")
  show ?case using snoc unfolding step w by (cases call) (simp_all add: method_defs)
qed

lemma scan_u32 [simp]: "stoi (u32_to_string n) = (if unat n < 2 ^ 31 then Inr (int (unat n)) else Inl Out_Of_Range)"
  by (simp add: stoi_def u32_to_string_def)

text \<open>The parameters of the link that a chain of calls leads to.\<close>

definition watchdog_parameters :: "RwHandleTcp list \<Rightarrow> (bool \<times> int) result" where
  "watchdog_parameters calls =
     (case chosen_watchdog calls of
        (False, _) \<Rightarrow> Inr (False, 60000)
      | (True, None) \<Rightarrow> Inl (Builder_Error ''Key not found -> '')
      | (True, Some t) \<Rightarrow> if unat t < 2 ^ 31 then Inr (True, int (unat t)) else Inl Out_Of_Range)"

lemma extractWatchdogParameters_TcpHandle:
  "extractWatchdogParameters (TcpHandle calls) = watchdog_parameters calls"
  using TcpHandle_watchdog [of calls]
  by (cases "chosen_watchdog calls"; cases "snd (chosen_watchdog calls)")
    (auto simp: extractWatchdogParameters_def watchdog_parameters_def findValueOrDefault_def findValueOrThrow_def
      pm_count_iff pm_at_def Let_def split: bool.split)

lemma DataLinkBuilder_tcp_requirements:
  "Requirements_get (DataLinkBuilder_tcp h) ''protocol'' = Some (Any_Protocol PROTOCOL_TCP)"
  "Requirements_get (DataLinkBuilder_tcp h) ''handleBuilder'' = Some (Any_TcpHandle h)"
  by (simp_all add: Requirements_get_def DataLinkBuilder_tcp_def Requirements_put_def)

lemma DataLinkBuilder_udp_requirements:
  "Requirements_get (DataLinkBuilder_udp h) ''protocol'' = Some (Any_Protocol PROTOCOL_UDP)"
  "Requirements_get (DataLinkBuilder_udp h) ''handleBuilder'' = Some (Any_UdpHandle h)"
  by (simp_all add: Requirements_get_def DataLinkBuilder_udp_def Requirements_put_def)

lemma constructDataLink_tcp:
  "constructDataLink ops from_string send configuration (DataLinkBuilder_tcp (TcpHandle calls)) =
     bind_result (watchdog_parameters calls) (\<lambda>watchdog.
       bind_result (RequestTcpHandle_execute ops send (TcpHandle calls)) (\<lambda>res.
         if fst res \<noteq> SUCCESS then Inr (fst res, None)
         else Inr (SUCCESS, Some (Built_TCPLink
                (makeTcpDeviceHandle res (cf_deviceAddress configuration) watchdog)))))"
  by (simp add: constructDataLink_def castAnyOrThrow_def extractTcpDataLinkParameters_def
      DataLinkBuilder_tcp_requirements extractWatchdogParameters_TcpHandle bind_result_assoc)

lemma DataLinkBuilder_tcp_async:
  "constructDataLink_async from_string (DataLinkBuilder_tcp (TcpHandle calls)) timeout callable device =
     (case watchdog_parameters calls of
        Inl e \<Rightarrow> Program_Terminated e
      | Inr watchdog \<Rightarrow>
          (case asyncSendHttpCommand COMMAND_REQUEST_TCP_HANDLE (TcpHandle calls) callable timeout device of
             (device1, launched) \<Rightarrow>
               Requested device1 (TcpCompletion watchdog) (if \<not> launched then Some (FAILED, None) else None)))"
  by (cases "watchdog_parameters calls")
    (simp_all add: constructDataLink_async_def castAnyOrThrow_def extractTcpDataLinkParameters_def
      DataLinkBuilder_tcp_requirements extractWatchdogParameters_TcpHandle RequestTcpHandle_asyncExecute_def)

text \<open>The blocking construction, as a request followed by what the completion makes of its answer.\<close>

lemma constructDataLink_tcp_completion:
  "constructDataLink ops from_string send configuration (DataLinkBuilder_tcp (TcpHandle calls)) =
     bind_result (watchdog_parameters calls) (\<lambda>watchdog.
       bind_result (send COMMAND_REQUEST_TCP_HANDLE (TcpHandle calls))
         (completion_call ops configuration (TcpCompletion watchdog)))"
  unfolding constructDataLink_tcp RequestTcpHandle_execute_eq
  by (simp add: bind_result_def onTcpHandleObtained_def Let_def split: sum.split)

lemma constructDataLink_udp_completion:
  "constructDataLink ops from_string send configuration (DataLinkBuilder_udp (UdpHandle calls)) =
     bind_result (extractUdpDataLinkParameters from_string (DataLinkBuilder_udp (UdpHandle calls)))
       (\<lambda>(builder, watchdog, address, port).
       bind_result (send COMMAND_REQUEST_UDP_HANDLE builder)
         (completion_call ops configuration (UdpCompletion address watchdog port)))"
  unfolding constructDataLink_def castAnyOrThrow_def DataLinkBuilder_udp_requirements RequestUdpHandle_execute_eq
  by (simp add: bind_result_def onUdpHandleObtained_def Let_def split: sum.split)

lemma extractUdp_builder:
  "extractUdpDataLinkParameters from_string (DataLinkBuilder_udp h) = Inr (builder, captured) \<Longrightarrow> builder = h"
  by (auto simp: extractUdpDataLinkParameters_def castAnyOrThrow_def DataLinkBuilder_udp_requirements result_simps
      split: if_splits)

text \<open>A device that answers a request for a handle.\<close>

definition example_handle_ops :: "string ptree_ops" where
  "example_handle_ops = example_ptree_ops\<lparr>pt_get_int := \<lambda>_ path. if path = ''port'' then Inr 4711 else Inl (Ptree_Bad_Path path)\<rparr>"

lemma example_handle_tree:
  "pt_read_json example_handle_ops (cleaned_body [CHR ''{'', LF, CHR ''}'']) = Inr ''{}''"
  "verifyErrorCode example_handle_ops ''{}''"
  by (simp_all add: example_handle_ops_def example_ptree_ops_def cleaned_body_def LF_def CR_def verifyErrorCode_def)

section \<open>The destination of a chain of builder calls\<close>

fun destination_call :: "RwHandleUdp \<Rightarrow> string option \<times> u16 option \<Rightarrow> string option \<times> u16 option" where
  "destination_call (RwHandleUdp_withHostname host) (h, p) = (Some host, p)"
| "destination_call (RwHandleUdp_withPort port) (h, p) = (h, Some port)"
| "destination_call _ d = d"

definition chosen_destination :: "RwHandleUdp list \<Rightarrow> string option \<times> u16 option" where
  "chosen_destination calls = fold destination_call calls (None, None)"

lemma UdpHandle_destination:
  "map_of (UdpHandle calls) PARAMETER_HANDLE_ADDRESS = fst (chosen_destination calls) \<and>
   map_of (UdpHandle calls) PARAMETER_HANDLE_PORT = map_option u16_to_string (snd (chosen_destination calls))"
proof (induction calls rule: rev_induct)
  case Nil
  show ?case by (simp add: UdpHandle_def build_rw_def RwHandleUdp_new_def method_defs chosen_destination_def)
next
  case (snoc call calls)
  have step: "UdpHandle (calls @ [call]) = RwHandleUdp_method call (UdpHandle calls)"
    "chosen_destination (calls @ [call]) = destination_call call (chosen_destination calls)"
    by (simp_all add: UdpHandle_def build_rw_def chosen_destination_def)
  obtain h p where d: "chosen_destination calls = (h, p)" by (cases "chosen_destination calls")
  show ?case using snoc unfolding step d by (cases call) (simp_all add: method_defs)
qed

lemma port_parsed: "stoi (u16_to_string port) = Inr (int (unat port))"
  using unsigned_less [of port, where ?'a = nat]
  by (simp add: u16_to_string_def stoi_nat_to_string)

text \<open>A port survives the way through text, \<open>int\<close> and \<open>unsigned int\<close>.\<close>

lemma port_round_trip:
  "bind_result (stoi (u16_to_string port)) (\<lambda>i. Inr (word_of_int i)) = Inr (port32 :: u32) \<Longrightarrow> ucast port32 = port"
  by (auto simp: port_parsed intro!: bit_word_eqI simp: bit_simps)

section \<open>Properties\<close>

text \<open>
  Building a TCP link from a chain of builder calls: the last call decides whether the watchdog is
  on, and with which time-out. A watchdog without a time-out, or with one that does not fit in an
  \<open>int\<close>, makes the build throw before anything is sent. Otherwise the parameters of the chain are sent,
  and a successful answer gives a link whose handle has the port and the handle of the answer, the
  address of the device and the chosen watchdog; a failed one gives its result and no link.
\<close>

theorem tcp_link_built:
  "constructDataLink ops from_string send configuration (DataLinkBuilder_tcp (TcpHandle calls)) =
     (case chosen_watchdog calls of
        (True, None) \<Rightarrow> Inl (Builder_Error ''Key not found -> '')
      | (on, t) \<Rightarrow>
          if on \<and> 2 ^ 31 \<le> unat (the t) then Inl Out_Of_Range
          else bind_result (RequestTcpHandle_execute ops send (TcpHandle calls)) (\<lambda>(res, port, handle).
            Inr (if res = SUCCESS
                 then (SUCCESS, Some (Built_TCPLink
                        \<lparr>dh_value = handle, dh_watchdogEnabled = on,
                         dh_watchdogTimeout = (if on then int (unat (the t)) else 60000),
                         dh_port = word_of_int port, dh_ipv4Address = cf_deviceAddress configuration\<rparr>))
                 else (res, None))))"
  unfolding constructDataLink_tcp watchdog_parameters_def
  by (cases "RequestTcpHandle_execute ops send (TcpHandle calls)"; cases "chosen_watchdog calls")
    (auto simp: makeTcpDeviceHandle_def DeviceHandle_new_def split: option.split bool.split)

text \<open>
  C24: A UDP link built from a chain of builder calls is for the destination that was asked of the device:
  the port of its handle is the last port given to the builder and its address the one Boost reads in
  the last host name, while the request carries that port, in decimal, and that host name.
\<close>

theorem udp_link_destination:
  assumes "constructDataLink ops from_string send configuration (DataLinkBuilder_udp (UdpHandle calls)) =
      Inr (res, Some (Built_UDPLink handle))"
  shows "\<exists>host port. chosen_destination calls = (Some host, Some port) \<and>
    dh_port handle = port \<and> from_string host = Inr (dh_ipv4Address handle) \<and>
    map_of (UdpHandle calls) PARAMETER_HANDLE_ADDRESS = Some host \<and>
    map_of (UdpHandle calls) PARAMETER_HANDLE_PORT = Some (nat_to_string (unat port)) \<and>
    (\<exists>answer. send COMMAND_REQUEST_UDP_HANDLE (UdpHandle calls) = Inr answer \<and>
       extractUdpHandleInfo ops (da_propertyTree answer) = Inr (dh_value handle))"
proof -
  obtain watchdog address port32 info where built:
    "extractUdpDataLinkParameters from_string (DataLinkBuilder_udp (UdpHandle calls)) =
       Inr (UdpHandle calls, watchdog, address, port32)"
    "RequestUdpHandle_execute ops send (UdpHandle calls) = Inr info" "fst info = SUCCESS"
    "handle = makeUdpDeviceHandle info address port32 watchdog"
    using assms
    by (auto simp: constructDataLink_def castAnyOrThrow_def DataLinkBuilder_udp_requirements
        extractUdpDataLinkParameters_def result_simps split: if_splits)
  obtain host where host: "map_of (UdpHandle calls) PARAMETER_HANDLE_ADDRESS = Some host" "from_string host = Inr address"
    using built(1)
    by (auto simp: extractUdpDataLinkParameters_def castAnyOrThrow_def DataLinkBuilder_udp_requirements
        findValueOrThrow_def pm_count_iff pm_at_def result_simps split: if_splits option.splits)
  obtain p where p: "map_of (UdpHandle calls) PARAMETER_HANDLE_PORT = Some p" "bind_result (stoi p) (\<lambda>i. Inr (word_of_int i)) = Inr port32"
    using built(1)
    by (auto simp: extractUdpDataLinkParameters_def castAnyOrThrow_def DataLinkBuilder_udp_requirements
        findValueOrThrow_def pm_count_iff pm_at_def result_simps split: if_splits option.splits)
  have chosen: "map_of (UdpHandle calls) PARAMETER_HANDLE_ADDRESS = fst (chosen_destination calls)"
    "map_of (UdpHandle calls) PARAMETER_HANDLE_PORT = map_option u16_to_string (snd (chosen_destination calls))"
    using UdpHandle_destination by blast+
  obtain port where port: "snd (chosen_destination calls) = Some port" "p = u16_to_string port"
    using chosen(2) p(1) by (cases "snd (chosen_destination calls)") auto
  have "ucast port32 = port" using p(2) port(2) by (simp add: port_round_trip)
  moreover obtain answer where "send COMMAND_REQUEST_UDP_HANDLE (UdpHandle calls) = Inr answer"
    "extractUdpHandleInfo ops (da_propertyTree answer) = Inr (snd info)"
    using built(2,3) by (auto simp: RequestUdpHandle_execute_def DeviceAnswer_bool_def result_simps split: if_splits)
  ultimately show ?thesis
    using chosen host p(1) port built(4)
    by (intro exI [of _ host] exI [of _ port])
      (auto simp: makeUdpDeviceHandle_def DeviceHandle_new_def u16_to_string_def prod_eq_iff)
qed

definition example_calls :: "RwHandleUdp list" where
  "example_calls = [RwHandleUdp_withHostname ''10.0.0.2'', RwHandleUdp_withPort 5000]"

definition example_handle :: DeviceHandle where
  "example_handle =
     \<lparr>dh_value = ''h7'', dh_watchdogEnabled = False, dh_watchdogTimeout = 60000, dh_port = 5000,
      dh_ipv4Address = ''10.0.0.2''\<rparr>"

theorem udp_link_destination_witness:
  "\<exists>host port. chosen_destination example_calls = (Some host, Some port) \<and> port = 5000 \<and> host = ''10.0.0.2''"
proof -
  have "UdpHandle example_calls =
      [(PARAMETER_HANDLE_WATCHDOG, BOOL_PARAMETER_FALSE), (PARAMETER_HANDLE_ADDRESS, ''10.0.0.2''),
       (PARAMETER_HANDLE_PORT, u16_to_string 5000)]"
    by (simp add: UdpHandle_def build_rw_def RwHandleUdp_new_def method_defs example_calls_def pm_assign_def)
  then have "constructDataLink example_ptree_ops Inr (\<lambda>_ _. Inr (DeviceAnswer_with SUCCESS ''{}''))
      \<lparr>cf_name = [], cf_deviceAddress = [], cf_httpServicePort = 80\<rparr> (DataLinkBuilder_udp (UdpHandle example_calls)) =
      Inr (SUCCESS, Some (Built_UDPLink example_handle))"
    by (simp add: constructDataLink_def castAnyOrThrow_def DataLinkBuilder_udp_requirements
        extractUdpDataLinkParameters_def extractWatchdogParameters_def findValueOrThrow_def findValueOrDefault_def
        pm_count_def pm_at_def RequestUdpHandle_execute_def DeviceAnswer_bool_def DeviceAnswer_with_def
        extractUdpHandleInfo_def example_ptree_ops_def makeUdpDeviceHandle_def DeviceHandle_new_def
        example_handle_def Let_def port_parsed)
  from udp_link_destination [OF this] show ?thesis by (simp add: example_handle_def)
qed

end
