(* ===== verification/Example_Programs.thy ===== *)
theory Example_Programs
  imports Supervision TCP_Scans Data_Link_Builder
begin

text \<open>
  The three programs of the directory \<open>examples\<close>, on the model of the driver: the check of their
  arguments, what they set up, their callbacks and their loops. The parser of addresses of Boost is a
  parameter: the address it reads, by its text, or its error, and whether an address is one of IPv4. What
  the programs print is the text they print; the texts of the usage are left out.
\<close>

section \<open>Arguments\<close>

datatype exit_status = EXIT_SUCCESS | EXIT_FAILURE

text \<open>A program has ended, is ended by an exception that it does not catch, or goes on.\<close>

datatype 'a program = Exits exit_status | Terminates fault | Goes_On 'a

definition DeviceConfiguration_new ::
  "(string \<Rightarrow> string result) \<Rightarrow> string \<Rightarrow> string \<Rightarrow> u16 \<Rightarrow> DeviceConfiguration result" where
  "DeviceConfiguration_new from_string deviceName deviceAddress port =
     bind_result (from_string deviceAddress) (\<lambda>address.
       Inr \<lparr>cf_name = deviceName, cf_deviceAddress = address, cf_httpServicePort = port\<rparr>)"

definition isValidIpv4 :: "(string \<Rightarrow> string result) \<Rightarrow> (string \<Rightarrow> bool) \<Rightarrow> string \<Rightarrow> bool" where
  "isValidIpv4 from_string v4_address address =
     (case from_string address of Inl errorCode \<Rightarrow> False | Inr ipv4Address \<Rightarrow> v4_address ipv4Address)"

text \<open>The first element of the arguments is the name of the program.\<close>

definition configured ::
  "(string \<Rightarrow> string result) \<Rightarrow> (string \<Rightarrow> bool) \<Rightarrow> string list \<Rightarrow> DeviceConfiguration program" where
  "configured from_string v4_address argv =
     (if length argv < 2 then Exits EXIT_SUCCESS
      else let deviceAddress = argv ! 1
           in if \<not> isValidIpv4 from_string v4_address deviceAddress then Exits EXIT_FAILURE
              else case DeviceConfiguration_new from_string ''R2000'' deviceAddress 80 of
                  Inl e \<Rightarrow> Terminates e
                | Inr configuration \<Rightarrow> Goes_On configuration)"

section \<open>\<open>AcquireScan\<close>\<close>

text \<open>The program requests a link; \<open>callable\<close> settles the future of the build.\<close>

definition AcquireScan_handleParameters :: ParametersMap where
  "AcquireScan_handleParameters = TcpHandle [RwHandleTcp_withWatchdog, RwHandleTcp_withWatchdogTimeout 5000]"

definition AcquireScan_start ::
  "(string \<Rightarrow> string result) \<Rightarrow> (string \<Rightarrow> bool) \<Rightarrow> string list \<Rightarrow> nat
   \<Rightarrow> (DeviceConfiguration \<times> ('tree, 'ep) R2000 \<times> completion \<times> BuildResult option) program" where
  "AcquireScan_start from_string v4_address argv callable =
     (case configured from_string v4_address argv of
        Exits status \<Rightarrow> Exits status
      | Terminates e \<Rightarrow> Terminates e
      | Goes_On configuration \<Rightarrow>
          (case DataLinkBuilder_build_async from_string (DataLinkBuilder_tcp AcquireScan_handleParameters) 1000 callable R2000_new of
             Program_Terminated e \<Rightarrow> Terminates e
           | Requested device onComplete build \<Rightarrow> Goes_On (configuration, device, onComplete, build)))"

text \<open>With the result of the build it goes on with the link; a success always comes with a link.\<close>

definition AcquireScan_onBuilt :: "BuildResult \<Rightarrow> built_link program" where
  "AcquireScan_onBuilt result =
     (case result of
        (requestResult, dataLink) \<Rightarrow>
          (if requestResult \<noteq> SUCCESS then Exits EXIT_FAILURE
           else case dataLink of None \<Rightarrow> Terminates Undefined_Behaviour | Some l \<Rightarrow> Goes_On l))"

text \<open>The callback for scans takes the first header without a check.\<close>

definition AcquireScan_onNewScan :: "Scan \<Rightarrow> string result" where
  "AcquireScan_onNewScan newScan =
     (case sc_headers newScan of
        [] \<Rightarrow> Inl Undefined_Behaviour
      | header # _ \<Rightarrow> Inr (''Scan number ['' @ u16_to_string (h_scanNumber header) @ ''] has been received'' @ [LF]))"

text \<open>
  The loop: for each round the flag of the signals when it is tested and the link after the pause. It
  goes on when the rounds are used up.
\<close>

fun AcquireScan_loop :: "(bool \<times> DataLink) list \<Rightarrow> exit_status option" where
  "AcquireScan_loop [] = None"
| "AcquireScan_loop ((interruptProgram, dataLink) # later) =
     (if interruptProgram then Some EXIT_SUCCESS
      else if isStalled dataLink then Some EXIT_SUCCESS
      else AcquireScan_loop later)"

section \<open>\<open>WatchDeviceEvents\<close>\<close>

definition WatchDeviceEvents_start ::
  "(string \<Rightarrow> string result) \<Rightarrow> (string \<Rightarrow> bool) \<Rightarrow> string list \<Rightarrow> (DeviceConfiguration \<times> StatusWatcher) program" where
  "WatchDeviceEvents_start from_string v4_address argv =
     (case configured from_string v4_address argv of
        Exits status \<Rightarrow> Exits status
      | Terminates e \<Rightarrow> Terminates e
      | Goes_On configuration \<Rightarrow> Goes_On (configuration, StatusWatcher_new))"

text \<open>The callbacks are 1 for connections and 2 for disconnections; the steps by which they are registered.\<close>

definition WatchDeviceEvents_register :: "watcher_call list" where
  "WatchDeviceEvents_register = [Call_If_Connected 1, Add_Connected_Callback 1, Add_Disconnected_Callback 2]"

definition WatchDeviceEvents_connected :: "DeviceConfiguration \<Rightarrow> string" where
  "WatchDeviceEvents_connected configuration =
     cf_name configuration @ '' has connected at ['' @ cf_deviceAddress configuration @ '']'' @ [LF]"

definition WatchDeviceEvents_disconnected :: "DeviceConfiguration \<Rightarrow> string" where
  "WatchDeviceEvents_disconnected configuration =
     cf_name configuration @ '' has disconnected at ['' @ cf_deviceAddress configuration @ '']'' @ [LF]"

fun WatchDeviceEvents_print :: "DeviceConfiguration \<Rightarrow> watcher_event \<Rightarrow> string" where
  "WatchDeviceEvents_print configuration (Device_Connected callback) =
     (if callback = 1 then WatchDeviceEvents_connected configuration else [])"
| "WatchDeviceEvents_print configuration (Device_Disconnected callback) =
     (if callback = 2 then WatchDeviceEvents_disconnected configuration else [])"
| "WatchDeviceEvents_print configuration (Status_Available callback status) = []"

section \<open>\<open>WatchDeviceStatus\<close>\<close>

definition WatchDeviceStatus_start ::
  "(string \<Rightarrow> string result) \<Rightarrow> (string \<Rightarrow> bool) \<Rightarrow> string list \<Rightarrow> (DeviceConfiguration \<times> StatusWatcher) program" where
  "WatchDeviceStatus_start from_string v4_address argv =
     (case configured from_string v4_address argv of
        Exits status \<Rightarrow> Exits status
      | Terminates e \<Rightarrow> Terminates e
      | Goes_On configuration \<Rightarrow> Goes_On (configuration, addOnStatusAvailableCallback 1 StatusWatcher_new))"

text \<open>The getters are called with their default fallback.\<close>

definition WatchDeviceStatus_onStatus :: "DeviceStatus \<Rightarrow> string result" where
  "WatchDeviceStatus_onStatus status =
     bind_result (getCpuLoad status 0) (\<lambda>cpuLoad.
     bind_result (getCurrentTemperature status 0) (\<lambda>temperature.
     bind_result (getOperationTime status 0) (\<lambda>operationTime.
     bind_result (getRawSystemTime status 0) (\<lambda>rawSystemTime.
       Inr (''+ Cpu Load: '' @ nat_to_string (unat cpuLoad) @ [LF] @
            ''+ Current temperature: '' @ nat_to_string (unat temperature) @ [LF] @
            ''+ Operation time: '' @ nat_to_string (unat operationTime) @ [LF] @
            ''+ Raw system time: '' @ nat_to_string (unat rawSystemTime) @ [LF] @ [LF])))))"

text \<open>The loop of both watching programs, by the flag at each test.\<close>

fun watching_loop :: "bool list \<Rightarrow> exit_status option" where
  "watching_loop [] = None"
| "watching_loop (interruptProgram # later) = (if interruptProgram then Some EXIT_SUCCESS else watching_loop later)"

section \<open>Properties\<close>

lemma configured_valid:
  assumes "2 \<le> length argv" and "from_string (argv ! 1) = Inr address" and "v4_address address"
  shows "configured from_string v4_address argv =
    Goes_On \<lparr>cf_name = ''R2000'', cf_deviceAddress = address, cf_httpServicePort = 80\<rparr>"
  using assms by (simp add: configured_def isValidIpv4_def DeviceConfiguration_new_def Let_def)

lemma AcquireScan_watchdog:
  "watchdog_parameters [RwHandleTcp_withWatchdog, RwHandleTcp_withWatchdogTimeout 5000] = Inr (True, 5000)"
  by (simp add: watchdog_parameters_def chosen_watchdog_def)

text \<open>
  C26: From the arguments of \<open>AcquireScan\<close> to its link: given a valid IPv4 address the
  program sends its request for a TCP handle, with a completion, and goes on; and when a list of endpoints
  is found for the device and it responds with code 200 to the request, in whatever pieces, and the body
  holds no error, a port and a handle, the client has a continuation in which its callback is called once,
  and of what it is given the completion makes a link to the address, the port and the handle, with a
  watchdog of 5000 milliseconds, with which the program goes on.
\<close>

theorem acquire_scan_link:
  fixes endpoints :: "'ep list" and ops :: "'tree ptree_ops"
  assumes "2 \<le> length argv" and "from_string (argv ! 1) = Inr address" and "v4_address address"
    and "request = makeRequestFromParameters COMMAND_REQUEST_TCP_HANDLE AcquireScan_handleParameters"
    and "response_pieces (socket (''GET '' @ request @ '' HTTP/1.0'' @ [CR, LF, CR, LF])) 200 body"
    and "pt_read_json ops (cleaned_body body) = Inr tree" and "verifyErrorCode ops tree"
    and "pt_get_int ops tree ''port'' = Inr port" and "pt_get_string ops tree ''handle'' = Inr handle"
    and "endpoints \<noteq> []" and "\<forall>a. throws callable a \<longleftrightarrow> (\<exists>e. RequestTcpHandle_onComplete ops a = Inl e)"
  shows "\<exists>(configuration :: DeviceConfiguration) (device :: ('tree, 'ep) R2000) onComplete r answer built.
    AcquireScan_start from_string v4_address argv callable = Goes_On (configuration, device, onComplete, None) \<and>
    (R2000_step ops throws)\<^sup>*\<^sup>* device r \<and>
    r2_calls r = [(\<lparr>jb_request = request, jb_callable = callable, jb_timeout = 1000\<rparr>, answer)] \<and>
    completion_call ops configuration onComplete answer = Inr built \<and>
    AcquireScan_onBuilt built =
      Goes_On (Built_TCPLink \<lparr>dh_value = handle, dh_watchdogEnabled = True, dh_watchdogTimeout = 5000,
                               dh_port = word_of_int port, dh_ipv4Address = address\<rparr>)"
proof -
  let ?configuration = "\<lparr>cf_name = ''R2000'', cf_deviceAddress = address, cf_httpServicePort = 80\<rparr>"
  let ?answer = "DeviceAnswer_with SUCCESS tree"
  have completed: "RequestTcpHandle_onComplete ops ?answer = Inr (SUCCESS, port, handle)"
    by (simp add: RequestTcpHandle_onComplete_def extractTcpHandleInfo_def DeviceAnswer_with_def DeviceAnswer_bool_def
        assms(8,9))
  obtain device queued where sent: "asyncSendHttpCommand COMMAND_REQUEST_TCP_HANDLE AcquireScan_handleParameters callable 1000
      (R2000_new :: ('tree, 'ep) R2000) = (device, queued)" by fastforce
  have answer: "HttpGet_socket ops socket request = Inr ?answer"
    by (rule response_success [where socket = socket, OF assms(5-7)])
  have "ready endpoints (R2000_new :: ('tree, 'ep) R2000)"
    by (simp add: ready_def worker_idle_def R2000_new_def Worker_new_def)
  from submitted_completes [where throws = throws and socket = socket,
      OF this worker_serves_run [OF R2000_run.start] assms(10) sent answer [unfolded assms(4)]] completed assms(11)
  obtain r where "queued" and r: "(R2000_step ops throws)\<^sup>*\<^sup>* device r"
    "r2_calls r = [(\<lparr>jb_request = request, jb_callable = callable, jb_timeout = 1000\<rparr>, ?answer)]"
    by (auto simp: assms(4) R2000_new_def)
  have "AcquireScan_start from_string v4_address argv callable =
      Goes_On (?configuration, device, TcpCompletion (True, 5000), None)"
    using \<open>queued\<close> sent
    by (simp add: AcquireScan_start_def DataLinkBuilder_build_async_def configured_valid [where v4_address = v4_address and from_string = from_string, OF assms(1-3)] DataLinkBuilder_tcp_async
        AcquireScan_handleParameters_def AcquireScan_watchdog)
  moreover have "completion_call ops ?configuration (TcpCompletion (True, 5000)) ?answer =
      Inr (SUCCESS, Some (Built_TCPLink \<lparr>dh_value = handle, dh_watchdogEnabled = True, dh_watchdogTimeout = 5000,
                                          dh_port = word_of_int port, dh_ipv4Address = address\<rparr>))"
    by (simp add: completed onTcpHandleObtained_def makeTcpDeviceHandle_def DeviceHandle_new_def)
  moreover have "AcquireScan_onBuilt (SUCCESS, Some l) = Goes_On l" for l by (simp add: AcquireScan_onBuilt_def)
  ultimately show ?thesis using r by blast
qed

theorem acquire_scan_link_witness:
  "\<exists>(configuration :: DeviceConfiguration) (device :: (string, nat) R2000) onComplete r.
     AcquireScan_start Inr (\<lambda>_. True) [''./AcquireScan'', ''10.0.0.1''] 3 = Goes_On (configuration, device, onComplete, None) \<and>
     (R2000_step example_handle_ops (\<lambda>_ a. \<exists>e. RequestTcpHandle_onComplete example_handle_ops a = Inl e))\<^sup>*\<^sup>* device r \<and>
     length (r2_calls r) = 1"
proof -
  have port: "pt_get_int example_handle_ops ''{}'' ''port'' = Inr 4711"
    and handle: "pt_get_string example_handle_ops ''{}'' ''handle'' = Inr ''h7''"
    by (simp_all add: example_handle_ops_def example_ptree_ops_def)
  obtain configuration onComplete and device r :: "(string, nat) R2000" and answer where
    start: "AcquireScan_start Inr (\<lambda>_. True) [''./AcquireScan'', ''10.0.0.1''] 3 =
      Goes_On (configuration, device, onComplete, None)"
    "(R2000_step example_handle_ops (\<lambda>_ a. \<exists>e. RequestTcpHandle_onComplete example_handle_ops a = Inl e))\<^sup>*\<^sup>* device r"
    and "r2_calls r = [(\<lparr>jb_request = makeRequestFromParameters COMMAND_REQUEST_TCP_HANDLE AcquireScan_handleParameters,
                        jb_callable = 3, jb_timeout = 1000\<rparr>, answer)]"
    using acquire_scan_link [where argv = "[''./AcquireScan'', ''10.0.0.1'']" and from_string = Inr and address = "''10.0.0.1''"
        and v4_address = "\<lambda>_. True" and socket = "\<lambda>_. example_exchange" and endpoints = "[7 :: nat]" and callable = 3
        and throws = "\<lambda>_ a. \<exists>e. RequestTcpHandle_onComplete example_handle_ops a = Inl e",
        OF _ _ _ refl example_exchange_response example_handle_tree port handle]
    by auto
  then have "length (r2_calls r) = 1" by simp
  with start show ?thesis by blast
qed

text \<open>
  In any history of a TCP link the callback of \<open>AcquireScan\<close> can print every scan the link publishes:
  a scan always has a header, and the number printed is the one that all its packets carry.
\<close>

theorem acquire_scan_prints:
  assumes "tcp_reachable clock l" and "New_Scan callback scan \<in> set (dl_events (tl_link l))"
  shows "\<exists>n. AcquireScan_onNewScan scan = Inr (''Scan number ['' @ u16_to_string n @ ''] has been received'' @ [LF]) \<and>
    (\<forall>h \<in> set (sc_headers scan). h_scanNumber h = n)"
proof -
  have "published_sound (tl_link l)"
    using Tcp_link_inv_reachable [OF assms(1)] unfolding Tcp_link_inv_def by blast
  then have "sound_scan scan" using assms(2) unfolding published_sound_def by blast
  then have same: "\<And>h h'. h \<in> set (sc_headers scan) \<Longrightarrow> h' \<in> set (sc_headers scan) \<Longrightarrow> h_scanNumber h = h_scanNumber h'"
    and some: "sc_headers scan \<noteq> []"
    unfolding sound_scan_def by (blast, force)
  obtain header headers where headers: "sc_headers scan = header # headers" using some by (cases "sc_headers scan") blast
  have "\<forall>h \<in> set (sc_headers scan). h_scanNumber h = h_scanNumber header"
    using same [of _ header] headers by (metis list.set_intros(1))
  then show ?thesis using headers by (intro exI [of _ "h_scanNumber header"]) (simp add: AcquireScan_onNewScan_def)
qed

theorem acquire_scan_prints_witness:
  "\<exists>n. AcquireScan_onNewScan example_padded_scan =
     Inr (''Scan number ['' @ u16_to_string n @ ''] has been received'' @ [LF])"
proof -
  obtain l where "tcp_reachable (\<lambda>_. 77) l" "New_Scan 1 example_padded_scan \<in> set (dl_events (tl_link l))"
    using example_published by blast
  from acquire_scan_prints [OF this] show ?thesis by blast
qed

text \<open>
  C27: From the bytes of the stream to the output of \<open>AcquireScan\<close>: with its callback as the
  only one, and whatever the link held of an earlier scan, the program prints for a stream of scans, in
  any safe chunks, one line for each complete scan, with its number, in the order in which they were sent.
\<close>

theorem acquire_scan_output:
  assumes "tcp_reachable clock l" and "tl_extractionByteBuffer l = []" and "\<not> Tcp_isComplete (tl_scanFactory l)"
    and "\<forall>packets \<in> set scans. begun_scan packets"
    and "\<forall>packets \<in> set scans. \<forall>p \<in> set packets. sent_ok p \<and> length (sent_bytes p) < 2 ^ 31"
    and "concat chunks = stream_bytes (concat scans)" and "\<forall>chunk \<in> set chunks. length chunk \<le> 4096"
    and "\<forall>k. safe_cut (concat scans) (length (concat (take k chunks)))"
    and "dl_onNewScanAvailableCallbacks (tl_link l) = [callback]" and "dl_events (tl_link l) = []"
  shows "\<exists>l'. Tcp_receive_all clock chunks l = Some l' \<and>
    map (\<lambda>event. case event of New_Scan _ scan \<Rightarrow> AcquireScan_onNewScan scan | Connection_Lost _ \<Rightarrow> Inr []) (dl_events (tl_link l')) =
    map (\<lambda>packets. Inr (''Scan number ['' @ u16_to_string (h_scanNumber (sent_header (hd packets))) @ ''] has been received'' @ [LF]))
      (filter (\<lambda>packets. points_of packets = announced packets) scans)"
proof -
  obtain l' where l': "Tcp_receive_all clock chunks l = Some l'" "tl_link l' = fold (tcp_store.publish_part clock) scans (tl_link l)"
    using tcp_scans [OF assms(1-8)] by blast
  obtain scans' where scans': "list_all2 (\<lambda>scan packets. \<exists>time. scan = scan_of_packets time packets) scans'
      (filter (\<lambda>packets. points_of packets = announced packets) scans)"
    "dl_events (tl_link l') = map (New_Scan callback) scans'"
    using published_events [OF assms(9), of scans clock] l'(2) assms(10) by auto
  have prints: "AcquireScan_onNewScan (scan_of_packets time packets) =
      Inr (''Scan number ['' @ u16_to_string (h_scanNumber (sent_header (hd packets))) @ ''] has been received'' @ [LF])"
    if "packets \<in> set scans" for time packets
  proof -
    have "packets \<noteq> []" using that assms(4) unfolding begun_scan_def by blast
    then show ?thesis by (cases packets) (simp_all add: AcquireScan_onNewScan_def scan_of_packets_def)
  qed
  have "list_all2 (\<lambda>scan packets. AcquireScan_onNewScan scan =
      Inr (''Scan number ['' @ u16_to_string (h_scanNumber (sent_header (hd packets))) @ ''] has been received'' @ [LF]))
      scans' (filter (\<lambda>packets. points_of packets = announced packets) scans)"
    by (rule list.rel_mono_strong [OF scans'(1)]) (auto simp: prints)
  with l'(1) scans'(2) show ?thesis by (auto simp: list_all2_conv_all_nth intro: nth_equalityI)
qed

lemma example_packet_number: "u16_to_string (h_scanNumber (sent_header example_packet)) = ''3''"
  by (simp add: example_packet_def sent_header_def u16_to_string_def nat_to_string.simps digit_char_def, code_simp)

theorem acquire_scan_output_witness:
  "\<exists>l'. Tcp_receive_all (\<lambda>_. 77) [sent_bytes example_broken_off @ sent_bytes example_packet]
          ((TCPLink_new True)\<lparr>tl_link := addOnNewScanAvailableCallback 1 (tl_link (TCPLink_new True))\<rparr>) = Some l' \<and>
     map (\<lambda>event. case event of New_Scan _ scan \<Rightarrow> AcquireScan_onNewScan scan | Connection_Lost _ \<Rightarrow> Inr []) (dl_events (tl_link l')) =
       [Inr (''Scan number [3] has been received'' @ [LF])]"
proof -
  let ?l = "(TCPLink_new True)\<lparr>tl_link := addOnNewScanAvailableCallback 1 (tl_link (TCPLink_new True))\<rparr>"
  have reachable: "tcp_reachable (\<lambda>_. 77) ?l" by (rule reached [OF constructed scan_callback])
  have new: "tl_extractionByteBuffer ?l = []" "\<not> Tcp_isComplete (tl_scanFactory ?l)"
    "dl_onNewScanAvailableCallbacks (tl_link ?l) = [1]" "dl_events (tl_link ?l) = []"
    by (simp_all add: TCPLink_new_def Tcp_handler_defs Tcp_defs DataLink_new_def DataLink_initial_def addOnNewScanAvailableCallback_def)
  have shown: "map (\<lambda>packets. Inr (''Scan number ['' @ u16_to_string (h_scanNumber (sent_header (hd packets))) @ ''] has been received'' @ [LF]) :: string result)
      (filter (\<lambda>packets. points_of packets = announced packets) [[example_broken_off], [example_packet]]) =
      [Inr (''Scan number [3] has been received'' @ [LF])]"
    by (simp add: example_scans example_packet_number del: points_of_simps)
  have "\<exists>l'. Tcp_receive_all (\<lambda>_. 77) [sent_bytes example_broken_off @ sent_bytes example_packet] ?l = Some l' \<and>
      map (\<lambda>event. case event of New_Scan _ scan \<Rightarrow> AcquireScan_onNewScan scan | Connection_Lost _ \<Rightarrow> Inr []) (dl_events (tl_link l')) =
      map (\<lambda>packets. Inr (''Scan number ['' @ u16_to_string (h_scanNumber (sent_header (hd packets))) @ ''] has been received'' @ [LF]))
        (filter (\<lambda>packets. points_of packets = announced packets) [[example_broken_off], [example_packet]])"
    by (rule acquire_scan_output [where clock = "\<lambda>_. 77", OF reachable new(1,2) _ _ _ _ example_cuts new(3,4)])
      (simp_all add: example_scans del: example_packet_ok(3))
  then show ?thesis unfolding shown .
qed

text \<open>
  The programs end only by a signal, or, for \<open>AcquireScan\<close>, once the link has stalled, also when scans
  arrive again; the status they exit with is always the one of a success.
\<close>

lemma watching_loop_ends: "watching_loop flags = (if True \<in> set flags then Some EXIT_SUCCESS else None)"
  by (induction flags) auto

lemma AcquireScan_loop_ends:
  "AcquireScan_loop tests = (if \<exists>(interruptProgram, dataLink) \<in> set tests. interruptProgram \<or> isStalled dataLink
                              then Some EXIT_SUCCESS else None)"
  by (induction tests rule: AcquireScan_loop.induct) auto

lemma acquire_scan_gives_up:
  assumes "isStalled (tl_link l)" and "\<forall>(interruptProgram, dataLink) \<in> set tests. \<exists>l'. (tcp_step clock)\<^sup>*\<^sup>* l l' \<and> dataLink = tl_link l'"
    and "tests \<noteq> []"
  shows "AcquireScan_loop tests = Some EXIT_SUCCESS"
proof -
  obtain interruptProgram dataLink where "(interruptProgram, dataLink) \<in> set tests"
    using assms(3) by (metis list.set_sel(1) surj_pair)
  moreover from this assms(2) obtain l' where "(tcp_step clock)\<^sup>*\<^sup>* l l'" "dataLink = tl_link l'" by blast
  then have "isStalled dataLink" using tcp_stalled_for_ever assms(1) by blast
  ultimately show ?thesis unfolding AcquireScan_loop_ends by auto
qed

text \<open>The getters of a status always return.\<close>

lemma otherwise_returns: "\<exists>v. otherwise (castQuietly_uint64 opt) fallback = Inr v"
  by (auto simp: otherwise_def castQuietly_uint64_def stoul_def split: option.split)

lemmas getter_defs = getCpuLoad_def getCurrentTemperature_def getOperationTime_def getRawSystemTime_def

text \<open>
  \<open>WatchDeviceStatus\<close> prints every status, whatever the device has sent as its values: no exception of
  a conversion leaves its callback. When the four values it shows are decimal numbers below 2^64 it
  prints these numbers.
\<close>

theorem status_printed:
  "(\<exists>out. WatchDeviceStatus_onStatus status = Inr out) \<and>
   (map_of status PARAMETER_STATUS_LOAD_INDICATION = Some (nat_to_string load) \<and> load < 2 ^ 64 \<and>
    map_of status PARAMETER_STATUS_TEMPERATURE_CURRENT = Some (nat_to_string temperature) \<and> temperature < 2 ^ 64 \<and>
    map_of status PARAMETER_STATUS_OPERATION_TIME = Some (nat_to_string time) \<and> time < 2 ^ 64 \<and>
    map_of status PARAMETER_STATUS_SYSTEM_TIME_RAW = Some (nat_to_string raw) \<and> raw < 2 ^ 64 \<longrightarrow>
    WatchDeviceStatus_onStatus status =
      Inr (''+ Cpu Load: '' @ nat_to_string load @ [LF] @ ''+ Current temperature: '' @ nat_to_string temperature @ [LF] @
           ''+ Operation time: '' @ nat_to_string time @ [LF] @ ''+ Raw system time: '' @ nat_to_string raw @ [LF, LF]))"
proof (intro conjI impI; (elim conjE)?)
  obtain a b c d where "getCpuLoad status 0 = Inr a" "getCurrentTemperature status 0 = Inr b"
    "getOperationTime status 0 = Inr c" "getRawSystemTime status 0 = Inr d"
    unfolding getter_defs using otherwise_returns by metis
  then show "\<exists>out. WatchDeviceStatus_onStatus status = Inr out" by (simp add: WatchDeviceStatus_onStatus_def)
next
  assume read: "map_of status PARAMETER_STATUS_LOAD_INDICATION = Some (nat_to_string load)" "load < 2 ^ 64"
    "map_of status PARAMETER_STATUS_TEMPERATURE_CURRENT = Some (nat_to_string temperature)" "temperature < 2 ^ 64"
    "map_of status PARAMETER_STATUS_OPERATION_TIME = Some (nat_to_string time)" "time < 2 ^ 64"
    "map_of status PARAMETER_STATUS_SYSTEM_TIME_RAW = Some (nat_to_string raw)" "raw < 2 ^ 64"
  note got = status_value [OF read(1,2)] status_value [OF read(3,4)] status_value [OF read(5,6)] status_value [OF read(7,8)]
  have "unat (of_nat n :: u64) = n" if "n < 2 ^ 64" for n
    using that by (simp add: unsigned_of_nat take_bit_nat_eq_self)
  then show "WatchDeviceStatus_onStatus status =
      Inr (''+ Cpu Load: '' @ nat_to_string load @ [LF] @ ''+ Current temperature: '' @ nat_to_string temperature @ [LF] @
           ''+ Operation time: '' @ nat_to_string time @ [LF] @ ''+ Raw system time: '' @ nat_to_string raw @ [LF, LF])"
    unfolding WatchDeviceStatus_onStatus_def getter_defs got bind_result_Inr using read(2,4,6,8) by simp
qed

theorem status_printed_witness:
  "WatchDeviceStatus_onStatus
     [(PARAMETER_STATUS_LOAD_INDICATION, nat_to_string 12), (PARAMETER_STATUS_TEMPERATURE_CURRENT, nat_to_string 31),
      (PARAMETER_STATUS_OPERATION_TIME, nat_to_string 77), (PARAMETER_STATUS_SYSTEM_TIME_RAW, nat_to_string 5)] =
   Inr (''+ Cpu Load: '' @ nat_to_string 12 @ [LF] @ ''+ Current temperature: '' @ nat_to_string 31 @ [LF] @
        ''+ Operation time: '' @ nat_to_string 77 @ [LF] @ ''+ Raw system time: '' @ nat_to_string 5 @ [LF, LF])"
  by (rule mp [OF conjunct2 [OF status_printed]]) simp

text \<open>The lines for a status, and what the rounds of the watcher leave for its only callback.\<close>

definition status_lines :: "(string \<Rightarrow> nat) \<Rightarrow> string" where
  "status_lines v =
     ''+ Cpu Load: '' @ nat_to_string (v PARAMETER_LOAD_INDICATION) @ [LF] @
     ''+ Current temperature: '' @ nat_to_string (v PARAMETER_TEMPERATURE_CURRENT) @ [LF] @
     ''+ Operation time: '' @ nat_to_string (v PARAMETER_OPERATION_TIME) @ [LF] @
     ''+ Raw system time: '' @ nat_to_string (v PARAMETER_SYSTEM_TIME_RAW) @ [LF, LF]"

definition WatchDeviceStatus_print :: "watcher_event \<Rightarrow> string result" where
  "WatchDeviceStatus_print event =
     (case event of Status_Available callback status \<Rightarrow> WatchDeviceStatus_onStatus status | _ \<Rightarrow> Inr [])"

lemma rounds_events:
  assumes "sw_onStatusAvailableCallbacks w = [1]" and "sw_onDeviceConnectedCallbacks w = []"
    and "\<forall>answer \<in> set answers. da_requestResult answer = SUCCESS"
  shows "sw_events (fold (\<lambda>answer. statusWatcherTask_body (Some (status_outcome ops answer))) answers w) =
    sw_events w @ map (\<lambda>answer. Status_Available 1 (snd (status_outcome ops answer))) answers"
  using assms
proof (induction answers arbitrary: w)
  case (Cons answer answers)
  obtain status where status: "status_outcome ops answer = (SUCCESS, status)"
    using Cons.prems(3) by (simp add: status_outcome_def)
  let ?w = "statusWatcherTask_body (Some (SUCCESS, status)) w"
  have "sw_onStatusAvailableCallbacks ?w = [1]" "sw_onDeviceConnectedCallbacks ?w = []"
    "sw_events ?w = sw_events w @ [Status_Available 1 status]"
    using Cons.prems(1,2) by (simp_all add: round_defs)
  then show ?case using Cons.IH [of ?w] Cons.prems(3) by (simp add: status)
qed simp

lemma status_shown:
  assumes "da_requestResult answer = SUCCESS"
    and "\<forall>name \<in> set systemStatus.
      pt_get_optional_string ops (da_propertyTree answer) name = Some (nat_to_string (v name)) \<and> v name < 2 ^ 64"
  shows "WatchDeviceStatus_print (Status_Available callback (snd (status_outcome ops answer))) = Inr (status_lines v)"
proof -
  let ?status = "snd (status_outcome ops answer)"
  obtain status where status: "GetParameters_onComplete ops systemStatus answer = Inr (SUCCESS, status)"
    "getCpuLoad status 0 = Inr (of_nat (v PARAMETER_LOAD_INDICATION))"
    "getRawSystemTime status 0 = Inr (of_nat (v PARAMETER_SYSTEM_TIME_RAW))"
    "getOperationTime status 0 = Inr (of_nat (v PARAMETER_OPERATION_TIME))"
    "getCurrentTemperature status 0 = Inr (of_nat (v PARAMETER_TEMPERATURE_CURRENT))"
    using status_values [OF assms, of 0] by blast
  then have same: "?status = status" by (simp add: status_task_outcome)
  have "v name < 2 ^ 64" if "name \<in> set systemStatus" for name using assms(2) that by blast
  then have "unat (of_nat (v name) :: u64) = v name" if "name \<in> set systemStatus" for name
    using that by (intro unat_eq_of_nat) simp
  from this [of PARAMETER_LOAD_INDICATION] this [of PARAMETER_SYSTEM_TIME_RAW] this [of PARAMETER_OPERATION_TIME]
    this [of PARAMETER_TEMPERATURE_CURRENT]
  show ?thesis
    by (simp add: WatchDeviceStatus_print_def WatchDeviceStatus_onStatus_def same status(2-5) status_lines_def systemStatus_names)
qed

text \<open>
  C28: From the bytes of the answers to the output of \<open>WatchDeviceStatus\<close>: when the device
  responds to the requests of the watcher, whose callbacks do not throw, one after the other with code
  200, each response in whatever pieces, and the bodies hold no error and a number below 2^64 for each
  name, the program and its client have a continuation that prints exactly one block of lines per
  response, in their order, with the numbers of the responses.
\<close>

theorem status_output:
  fixes responses :: "((string \<Rightarrow> http_exchange) \<times> string \<times> 'tree \<times> (string \<Rightarrow> nat)) list"
  assumes "\<forall>cb a. \<not> throws cb a"
    and "\<forall>(socket, body, tree, v) \<in> set responses.
      response_pieces (socket (''GET '' @ status_request @ '' HTTP/1.0'' @ [CR, LF, CR, LF])) 200 body \<and>
      pt_read_json ops (cleaned_body body) = Inr tree \<and> verifyErrorCode ops tree \<and>
      (\<forall>name \<in> set systemStatus. pt_get_optional_string ops tree name = Some (nat_to_string (v name)) \<and> v name < 2 ^ 64)"
    and "WatchDeviceStatus_start from_string v4_address argv = Goes_On (configuration, watcher)"
  shows "\<exists>s :: ('tree, 'ep, StatusWatcher) requester.
    (task_step ops throws (status_task ops) False)\<^sup>*\<^sup>* (requester_new watcher) s \<and>
    map WatchDeviceStatus_print (sw_events (rq_task s)) = map (\<lambda>(socket, body, tree, v). Inr (status_lines v)) responses"
proof -
  let ?answer = "\<lambda>(socket :: string \<Rightarrow> http_exchange, body :: string, tree, v :: string \<Rightarrow> nat). DeviceAnswer_with SUCCESS tree"
  let ?answers = "map ?answer responses"
  have watcher: "watcher = addOnStatusAvailableCallback 1 StatusWatcher_new"
    using assms(3) by (simp add: WatchDeviceStatus_start_def split: program.splits)
  have start: "sw_onStatusAvailableCallbacks watcher = [1]" "sw_onDeviceConnectedCallbacks watcher = []"
    "sw_events watcher = []" "\<not> sw_interruptFlag watcher"
    by (simp_all add: watcher addOnStatusAvailableCallback_def StatusWatcher_new_def)
  have given: "\<forall>answer \<in> set ?answers. \<exists>socket. HttpGet_socket ops socket (task_request (status_task ops)) = Inr answer"
    using assms(2) response_success by fastforce
  have keeps: "\<forall>outcome w. to_interrupted (status_task ops) (to_body (status_task ops) outcome w) = to_interrupted (status_task ops) w"
    by (simp add: round_defs split: option.split)
  obtain s :: "('tree, 'ep, StatusWatcher) requester" where
    s: "(task_step ops throws (status_task ops) False)\<^sup>*\<^sup>* (requester_new watcher) s"
      "rq_task s = fold (\<lambda>answer. statusWatcherTask_body (Some (status_outcome ops answer))) ?answers watcher"
    using rounds_complete [where s = "requester_new watcher" and endpoints = "[undefined]",
        OF assms(1) keeps _ given task_run.start new_watcher_ready(2) _ new_watcher_ready(1)] start(4)
    by (auto simp: new_watcher_ready)
  have shown: "WatchDeviceStatus_print (Status_Available 1 (snd (status_outcome ops (?answer response)))) =
      (case response of (socket, body, tree, v) \<Rightarrow> Inr (status_lines v))" if "response \<in> set responses" for response
    using that assms(2) by (auto simp: DeviceAnswer_with_def intro!: status_shown)
  have "\<forall>answer \<in> set ?answers. da_requestResult answer = SUCCESS" by (auto simp: DeviceAnswer_with_def)
  from rounds_events [OF start(1,2) this, of ops]
  have "sw_events (rq_task s) = map (\<lambda>response. Status_Available 1 (snd (status_outcome ops (?answer response)))) responses"
    by (simp only: s(2) start(3) append_Nil map_map comp_def)
  then have "map WatchDeviceStatus_print (sw_events (rq_task s)) = map (\<lambda>(socket, body, tree, v). Inr (status_lines v)) responses"
    using shown by (simp only: map_map comp_def) (rule map_cong [OF refl])
  with s(1) show ?thesis by blast
qed

theorem status_output_witness:
  "\<exists>s :: (string, nat, StatusWatcher) requester.
    (task_step example_status_ops (\<lambda>_ _. False) (status_task example_status_ops) False)\<^sup>*\<^sup>*
      (requester_new (addOnStatusAvailableCallback 1 StatusWatcher_new)) s \<and>
    length (sw_events (rq_task s)) = 2"
proof -
  let ?response = "(\<lambda>_ :: string. example_exchange, [CHR ''{'', LF, CHR ''}''], ''{}'', length :: string \<Rightarrow> nat)"
  have given: "\<forall>(socket, body, tree, v) \<in> set [?response, ?response].
      response_pieces (socket (''GET '' @ status_request @ '' HTTP/1.0'' @ [CR, LF, CR, LF])) 200 body \<and>
      pt_read_json example_status_ops (cleaned_body body) = Inr tree \<and> verifyErrorCode example_status_ops tree \<and>
      (\<forall>name \<in> set systemStatus. pt_get_optional_string example_status_ops tree name = Some (nat_to_string (v name)) \<and> v name < 2 ^ 64)"
    using example_exchange_response example_status_tree example_status_values by (simp add: systemStatus_names)
  have started: "WatchDeviceStatus_start Inr (\<lambda>_. True) [''./WatchDeviceStatus'', ''10.0.0.1''] =
      Goes_On (\<lparr>cf_name = ''R2000'', cf_deviceAddress = ''10.0.0.1'', cf_httpServicePort = 80\<rparr>,
        addOnStatusAvailableCallback 1 StatusWatcher_new)"
    by (simp add: WatchDeviceStatus_start_def configured_valid)
  obtain s :: "(string, nat, StatusWatcher) requester" where s: "(task_step example_status_ops (\<lambda>_ _. False) (status_task example_status_ops) False)\<^sup>*\<^sup>*
      (requester_new (addOnStatusAvailableCallback 1 StatusWatcher_new)) s"
    "map WatchDeviceStatus_print (sw_events (rq_task s)) =
      map (\<lambda>(socket, body, tree, v). Inr (status_lines v)) [?response, ?response]"
    using status_output [where throws = "\<lambda>_ _. False", OF _ given started] by blast
  from arg_cong [where f = length, OF s(2)] have "length (sw_events (rq_task s)) = 2" by simp
  with s(1) show ?thesis by blast
qed

text \<open>
  C29: \<open>WatchDeviceEvents\<close> can miss the connection of the device: when no callback of a
  command throws and the first answer comes after the registration of its callback has found the device
  not connected, and before the callback is added, the device is alive, but no connection is printed; and
  when the device later fails three times the program prints a disconnection without a connection.
\<close>

theorem connection_missed:
  fixes throws :: "'tree callbacks"
  assumes "\<forall>cb a. \<not> throws cb a"
    and "HttpGet_socket ops up status_request = Inr answered" and "da_requestResult answered = SUCCESS"
    and "HttpGet_socket ops down status_request = Inr refused" and "da_requestResult refused \<noteq> SUCCESS"
  shows "\<exists>s s' :: ('tree, 'ep, StatusWatcher) requester.
    (task_step ops throws (status_task ops) False)\<^sup>*\<^sup>*
      (requester_new (fold watcher_apply (take 1 WatchDeviceEvents_register) StatusWatcher_new)) s \<and>
    StatusWatcher_isAlive (rq_task s) \<and>
    (task_step ops throws (status_task ops) False)\<^sup>*\<^sup>*
      (s\<lparr>rq_task := fold watcher_apply (drop 1 WatchDeviceEvents_register) (rq_task s)\<rparr>) s' \<and>
    concat (map (WatchDeviceEvents_print configuration) (sw_events (rq_task s'))) = WatchDeviceEvents_disconnected configuration"
proof -
  let ?run = "task_step ops throws (status_task ops) False :: ('tree, 'ep, StatusWatcher) requester \<Rightarrow> _"
  let ?w = "fold watcher_apply (take 1 WatchDeviceEvents_register) StatusWatcher_new"
  have going: "\<forall>outcome w. to_interrupted (status_task ops) (to_body (status_task ops) outcome w) = to_interrupted (status_task ops) w"
    by (auto simp: round_defs split: option.split)
  have w: "?w = StatusWatcher_new"
    by (simp add: WatchDeviceEvents_register_def addOnDeviceConnectedCallback_call_def StatusWatcher_new_def)
  obtain v where ok: "status_outcome ops answered = (SUCCESS, v)" using assms(3) by (simp add: status_outcome_def)
  obtain res u where bad: "status_outcome ops refused = (res, u)" "res \<noteq> SUCCESS" using assms(5) by (simp add: status_outcome_def)
  have up: "\<forall>a \<in> set [answered]. \<exists>socket. HttpGet_socket ops socket (task_request (status_task ops)) = Inr a"
    and down: "\<forall>a \<in> set [refused, refused, refused]. \<exists>socket. HttpGet_socket ops socket (task_request (status_task ops)) = Inr a"
    using assms(2,4) by auto
  obtain s :: "('tree, 'ep, StatusWatcher) requester" where s: "?run\<^sup>*\<^sup>* (requester_new StatusWatcher_new) s" "rq_future s = None"
    "ready [undefined] (rq_client s)"
    "rq_task s = statusWatcherTask_body (Some (SUCCESS, v)) StatusWatcher_new"
    using rounds_complete [where shared = False and w = StatusWatcher_new and endpoints = "[undefined]", OF assms(1) going _ up task_run.start
        new_watcher_ready(2) _ new_watcher_ready(1)]
    by (auto simp: new_watcher_ready ok)
  let ?s = "s\<lparr>rq_task := fold watcher_apply (drop 1 WatchDeviceEvents_register) (rq_task s)\<rparr>"
  have "?run\<^sup>*\<^sup>* s ?s" using call_steps [of ops throws "status_task ops" False s] by simp
  then have run: "task_run ops throws (status_task ops) False StatusWatcher_new ?s"
    using task_run_steps [OF rtranclp_trans [OF s(1)] task_run.start] by blast
  have later: "rq_future ?s = None" "ready [undefined] (rq_client ?s)" "\<not> to_interrupted (status_task ops) (rq_task ?s)"
    using s(2,3) by (simp_all add: s(4) WatchDeviceEvents_register_def round_defs StatusWatcher_new_def
        addOnDeviceConnectedCallback_add_def addOnDeviceDisconnectedCallback_def)
  obtain s' where s': "?run\<^sup>*\<^sup>* ?s s'"
    "rq_task s' = fold (\<lambda>answer. statusWatcherTask_body (Some (status_outcome ops answer))) [refused, refused, refused] (rq_task ?s)"
    using rounds_complete [where endpoints = "[undefined]", OF assms(1) going _ down run later(1,3,2)] by auto
  have "sw_events (rq_task s') = [Device_Disconnected 2]"
    using bad(2) by (simp add: s'(2) s(4) bad(1) WatchDeviceEvents_register_def round_defs StatusWatcher_new_def
        addOnDeviceConnectedCallback_add_def addOnDeviceDisconnectedCallback_def)
  moreover have "StatusWatcher_isAlive (rq_task s)" by (simp add: s(4) round_defs StatusWatcher_isAlive_def)
  ultimately show ?thesis unfolding w using s(1) s'(1) by (intro exI [of _ s] exI [of _ s']) simp
qed

text \<open>A device that answers and then refuses.\<close>

theorem connection_missed_witness:
  "\<exists>s s' :: (string, nat, StatusWatcher) requester.
     StatusWatcher_isAlive (rq_task s) \<and>
     (task_step example_ptree_ops (\<lambda>_ _. False) (status_task example_ptree_ops) False)\<^sup>*\<^sup>*
       (s\<lparr>rq_task := fold watcher_apply (drop 1 WatchDeviceEvents_register) (rq_task s)\<rparr>) s' \<and>
     concat (map (WatchDeviceEvents_print \<lparr>cf_name = ''R2000'', cf_deviceAddress = ''10.0.0.1'', cf_httpServicePort = 80\<rparr>)
       (sw_events (rq_task s'))) = ''R2000 has disconnected at [10.0.0.1]'' @ [LF]"
proof -
  have "DeviceAnswer_of example_ptree_ops BAD_REQUEST = \<lparr>da_requestResult = BAD_REQUEST, da_propertyTree = []\<rparr>"
    by (simp add: DeviceAnswer_of_def example_ptree_ops_def)
  with connection_missed [where throws = "\<lambda>_ _. False" and up = "\<lambda>_. example_exchange" and down = "\<lambda>_. example_refusal"
      and configuration = "\<lparr>cf_name = ''R2000'', cf_deviceAddress = ''10.0.0.1'', cf_httpServicePort = 80\<rparr>",
      OF _ example_answer _ example_refused]
  show ?thesis by (simp add: DeviceAnswer_with_def WatchDeviceEvents_disconnected_def) blast
qed

end
