(* ===== verification/Spec2Isabelle.thy ===== *)
theory Spec2Isabelle
  imports UDP_Scans Scan_Consumers Socket_Guard Silent_Device Example_Programs
begin

text \<open>
  \<^bold>\<open>A verification of the C++ driver of the Pepperl+Fuchs R2000 laser scanner.\<close>

  \<^bold>\<open>The program.\<close> The scanner is controlled by HTTP requests and sends its measures in packets, over a TCP
  connection or as UDP datagrams. The driver has a client that sends requests (\<open>R2000\<close>), commands that
  make requests of parameters and values of answers (\<open>Control/Commands.hpp\<close>,
  \<open>Control/Parameters.hpp\<close>), a builder that asks the device for a stream and constructs a link for it
  (\<open>DataLinkBuilder\<close>), the two links that turn bytes into scans and keep the stream alive (\<open>DataLink\<close>,
  \<open>TCPLink\<close>, \<open>UDPLink\<close>), and a watcher that asks for the status of the device (\<open>StatusWatcher\<close>). Requests
  run as jobs of a worker (\<open>Worker\<close>) and complete on the task of an io service of Boost.

  \<^bold>\<open>The theories\<close>, in the order of their imports. Paths are under \<open>src/\<close>; definitions have the names of the
  sources, with the class in front where several classes share a name (\<open>Tcp_addPacket\<close>).

  \<^item> \<open>Prelude\<close>: machine integers as words, the faults, sequencing of fallible calls, reads of bytes.
  \<^item> \<open>Wire_Data\<close> (\<open>include/DataLink/Data.hpp\<close>): little-endian fields, \<open>Header::fromByteRange\<close>, \<open>Scan\<close>.
  \<^item> \<open>Std_Strings\<close>: \<open>std::to_string\<close>, \<open>std::stoi\<close>, \<open>std::stoul\<close>, each proved inverse to the printing.
  \<^item> \<open>Parameter_Types\<close>, \<open>Parameters\<close> (\<open>include/Control/Parameters.hpp\<close>): the enumerations with their texts;
    the names, the maps, the builder macros and one datatype of calls per builder class.
  \<^item> \<open>Packet_Extraction\<close> (namespace \<open>internals\<close> of \<open>include/DataLink/DataLink.hpp\<close>): the search for the magic,
    the header, the payloads of type A, B and C.
  \<^item> \<open>Scan_Factory\<close> (\<open>ScanFactory\<close>, \<open>TcpScanFactory\<close>, \<open>UdpScanFactory\<close>): a factory is a record of
    operations, \<open>factory_ops\<close>; the locale \<open>scan_factory\<close> states what both classes promise and is
    interpreted on both.
  \<^item> \<open>Scan_Extraction\<close> (\<open>extractScanPacketFromByteRange\<close>): one packet of a range into a factory.
  \<^item> \<open>Request_Result\<close> (\<open>include/R2000.hpp\<close>): the results of a request.
  \<^item> \<open>Data_Link\<close> (\<open>DataLink\<close>): publication, callbacks, \<open>waitForNextScan\<close>, one round of the watchdog task and
    of the stall monitor, construction and destruction.
  \<^item> \<open>Extraction_Loop\<close>: the loop of \<open>tryExtractingScanFromByteRange\<close>, the same in both links, and, in the
    context of \<open>scan_factory\<close>, what it makes of the packets of a device.
  \<^item> \<open>Scan_Consumers\<close>: \<open>waitForNextScan\<close> and \<open>setOutputScanFromCompletedFactory\<close> once more, in the steps between
    which two threads can interleave.
  \<^item> \<open>Scan_Streams\<close>: scans in a factory, one after the other, of which some stay incomplete. The locale
    \<open>scan_store\<close> extends \<open>scan_factory\<close> by what a factory holds of the packets given to it; it is interpreted
    on both factories.
  \<^item> \<open>TCP_Link\<close>, \<open>UDP_Link\<close> (\<open>src/DataLink/TCPLink.cpp\<close>, \<open>src/DataLink/UDPLink.cpp\<close> and their headers): every
    handler, the buffers, and the step relations \<open>tcp_step\<close> and \<open>udp_step\<close>.
  \<^item> \<open>TCP_Scans\<close>, \<open>UDP_Scans\<close>: from the bytes of a stream, or from datagrams that are lost and reordered, to the
    scans a link publishes.
  \<^item> \<open>Job_Worker\<close> (\<open>include/Worker.hpp\<close>): the queue and the task, one job at a time; the locale \<open>job_queue\<close> is
    interpreted on \<open>pushJob\<close>.
  \<^item> \<open>Http_Request\<close>, \<open>Socket_Guard\<close> (\<open>src/R2000.cpp\<close>): the text of a request, the reading of an answer from
    the pieces the socket gives, the blocking requests and what they do to their socket.
  \<^item> \<open>R2000_Client\<close> (\<open>src/R2000.cpp\<close>): the asynchronous requests. \<open>R2000_client_step\<close> has one rule for each
    thing the worker and the io service do by themselves, \<open>R2000_step\<close> takes the exchange with the device as one
    step, \<open>R2000_run\<close> adds what a user does.
  \<^item> \<open>R2000_Executions\<close>: what these executions keep and reach: the calls that the ends of the operations ask for
    (\<open>R2000_history\<close> records the ends), the commands that
    complete, the one live connection, the states from which nothing more happens.
  \<^item> \<open>Command_Answers\<close>, \<open>Device_Commands\<close> (\<open>include/Control/Commands.hpp\<close>): the values of answers, and the
    blocking and asynchronous commands; every asynchronous command interprets the locale
    \<open>device_command\<close>, which gives how its future is settled.
  \<^item> \<open>Data_Link_Builder\<close> (\<open>include/Control/DeviceHandle.hpp\<close>, \<open>src/DataLink/DataLinkBuilder.cpp\<close>): the two
    constructions of a link; the completion of the asynchronous one is a closure, the datatype \<open>completion\<close> of
    what it captures.
  \<^item> \<open>Status_Watcher\<close> (\<open>src/StatusWatcher.cpp\<close> and its header): flags, values and the rounds of the watcher.
  \<^item> \<open>Client_Task\<close>: a task that sends one command per round through the asynchronous client and waits for its
    future, together with that client: \<open>task_step\<close> interleaves the steps of both with the calls of the users.
    The locale \<open>client_task\<close> states what the object of a task owes to the outcomes of its rounds.
  \<^item> \<open>Supervision\<close>: its two instances, \<open>StatusWatcher::statusWatcherTask\<close> with the client it owns and
    \<open>DataLink::watchdogTask\<close> on the client of its device, and what follows for them.
  \<^item> \<open>Silent_Device\<close>: the exchange with the device in two steps, with the proof that the executions are the same, and
    the watcher of a device that does not answer.
  \<^item> \<open>Example_Programs\<close> (\<open>examples/AcquireScan.cpp\<close>, \<open>examples/WatchDeviceEvents.cpp\<close>,
    \<open>examples/WatchDeviceStatus.cpp\<close>): arguments, set-up, callbacks and loops of the three programs.
  \<^item> This theory: the properties that span the builder classes, the requests, the commands and the links.

  \<^bold>\<open>Conventions.\<close> Every member function is a function from the old state to the new one. A failing call
  returns \<open>Inl\<close> of a \<open>fault\<close>: an exception of the source, or \<open>Undefined_Behaviour\<close> where the source reads
  outside a vector. Integers have their width (\<open>u16\<close>, \<open>u32\<close>, \<open>u64\<close>, \<open>i32\<close>) where they have one in the source.
  The links and the client record the calls they make to callbacks, in order, so that a theorem can
  state what a user has seen. Tasks that sleep are modelled by one round of their loop, the handlers of
  the io service by one function each; the step relations let rounds, handlers and calls of the user
  happen in any order.

  \<^bold>\<open>Results.\<close> Reception: a stream cut into any pieces the header reader tolerates has the effect of its
  packets one by one, so that exactly the complete scans of a stream are published, in their order and
  with their points, whatever scans were broken off between them; of datagrams that are lost or reordered exactly the scans
  without a lost packet are published, as they were sent, and both links agree on what they publish of a stream
  that is cut where the TCP link tolerates it; a thread
  that waits for scans gets them in their order; the
  packets of a published scan have one scan number, enough points and as many amplitudes as distances. Requests: every accepted
  command is answered exactly once, whatever the interleaving, the callbacks are called for the ends of the
  operations and for nothing else, a client with nothing to do whose resolution has not failed can complete any command, with a device that answers every client can go on to answer all its
  commands except in one state, at most one connection is live, an answer does not depend on
  how the network cuts it, a receiver recovers the parameters of a request from its text, a blocking request leaves
  its socket closed. Construction: what the calls of a builder determine of
  the request and of the handle of the link, the agreement of the two ways to build, and the way from the bytes of an
  answer to a link. Supervision:
  the losses that the watchdog reports, the alternation of connections and disconnections that the
  watcher reports and when it is alive; and, for the tasks together with their clients in every
  interleaving: what they report comes from answers of the device, the watcher has at most one request
  under way and is never refused, the bytes of an answer become the values a user reads, and the task can
  come to its end except in one state, which is described; but nothing makes it do so while the device does not
  answer, for which the driver has no deadline. Programs:
  the way from the arguments of \<open>AcquireScan\<close> to its link, the lines it prints for the bytes of a stream, and those
  that \<open>WatchDeviceStatus\<close> prints for the bytes of the answers of the device.
  Other properties state faults of the driver exactly: the short
  pieces of a stream that are lost, the loop that hangs, the read past the end of a range, the scan that two waits
  return, the destruction and the watcher that hang on a lost notification, the watcher that a silent device holds, the failed resolution that is kept, the connection
  that a program does not see.

  \<^bold>\<open>Bounds and partiality.\<close> The extraction loop does not end on every input, so it is a
  \<open>partial_function (option)\<close>: \<open>tcp_reception_returns\<close> gives the inputs on which it returns, and
  \<open>tcp_reception_hangs\<close> one on which it does not. Every other loop is structural or has a measure; no
  fuel is used. Lengths of ranges are below \<open>2^32\<close> where the source keeps them in an \<open>unsigned int\<close>, and
  the streams of the reassembly have packets below \<open>2^31\<close> bytes and pieces of at most 4096, the least size
  of the reception buffer.

  \<^bold>\<open>Parameters\<close>, for code that is not in the repository: the property trees and the JSON parser of Boost
  (\<open>ptree_ops\<close>), what a socket gives for a request (\<open>http_exchange\<close>), resolution and connection
  (\<open>network\<close>), the parsing of an IP address (\<open>from_string\<close>), the clock, the completions of the operations
  of the io service, and whether a callback throws (\<open>throws\<close>).

  \<^bold>\<open>Not modelled.\<close> Locks (many are taken with \<open>std::adopt_lock\<close> on mutexes nobody has locked; the model
  takes each handler and each round as atomic), the spurious wake-ups of condition variables, the duration of waits, thread names, log messages, the
  time stamp of a status, the memory order of atomic variables. Of the commands, the members that
  cannot be instantiated: \<open>execute\<close> of \<open>GetParameters\<close>, which accepts only temporaries and passes them on by
  a non-constant reference, of \<open>GetScanOutputConfig\<close>, which dereferences a \<open>DeviceAnswer\<close>, and of \<open>SetScanOutputConfig\<close>, which uses a member \<open>DeviceAnswer\<close> does not have, and all of
  \<open>FactoryResetParameters\<close>, which builds a list of names from a map. \<open>NotImplementedException\<close>
  has no behaviour. The build files and the texts of the usage of the examples are left out.
\<close>

section \<open>From the builder of a handle to the text of its request\<close>

text \<open>The names a TCP handle may have, and what its values are made of.\<close>

definition tcp_handle_names :: "string list" where
  "tcp_handle_names =
     [PARAMETER_HANDLE_WATCHDOG, PARAMETER_HANDLE_WATCHDOG_TIMEOUT, PARAMETER_HANDLE_PACKET_TYPE,
      PARAMETER_HANDLE_PACKET_CRC, PARAMETER_HANDLE_START_ANGLE, PARAMETER_HANDLE_MAX_NUM_POINTS_SCAN,
      PARAMETER_HANDLE_SKIP_SCANS]"

definition entry_ok :: "string \<times> string \<Rightarrow> bool" where
  "entry_ok entry \<longleftrightarrow> fst entry \<in> set tcp_handle_names \<and> CHR ''&'' \<notin> set (snd entry)"

lemma update_entries: "\<forall>e \<in> set ps. P e \<Longrightarrow> P (k, v) \<Longrightarrow> \<forall>e \<in> set (AList.update k v ps). P e"
  by (induction ps) auto

lemma digits_no_ampersand: "CHR ''&'' \<notin> set (nat_to_string n)"
  using nat_to_string_digits [of n] by (auto simp: is_digit_def)

lemma numbers_no_ampersand [simp]:
  "CHR ''&'' \<notin> set (u32_to_string w)" "CHR ''&'' \<notin> set (u16_to_string x)" "CHR ''&'' \<notin> set (i32_to_string i)"
  by (simp_all add: u32_to_string_def u16_to_string_def i32_to_string_def int_to_string_def digits_no_ampersand)

lemma enumerations_no_ampersand [simp]:
  "CHR ''&'' \<notin> set (scanPacketString t)" "CHR ''&'' \<notin> set (crcToString c)"
  by (cases t, simp_all) (cases c, simp_all)

text \<open>The entry that a call of the builder writes.\<close>

fun tcp_entry :: "RwHandleTcp \<Rightarrow> string \<times> string" where
  "tcp_entry RwHandleTcp_withWatchdog = (PARAMETER_HANDLE_WATCHDOG, BOOL_PARAMETER_TRUE)"
| "tcp_entry RwHandleTcp_withoutWatchdog = (PARAMETER_HANDLE_WATCHDOG, BOOL_PARAMETER_FALSE)"
| "tcp_entry (RwHandleTcp_withWatchdogTimeout n) = (PARAMETER_HANDLE_WATCHDOG_TIMEOUT, u32_to_string n)"
| "tcp_entry (RwHandleTcp_withPacketType t) = (PARAMETER_HANDLE_PACKET_TYPE, scanPacketString t)"
| "tcp_entry (RwHandleTcp_withPacketCrc c) = (PARAMETER_HANDLE_PACKET_CRC, crcToString c)"
| "tcp_entry (RwHandleTcp_withStartAngle a) = (PARAMETER_HANDLE_START_ANGLE, i32_to_string a)"
| "tcp_entry (RwHandleTcp_withNumberOfPointsPerScan n) = (PARAMETER_HANDLE_MAX_NUM_POINTS_SCAN, u32_to_string n)"
| "tcp_entry (RwHandleTcp_withNumberOfScanToSkip n) = (PARAMETER_HANDLE_SKIP_SCANS, u32_to_string n)"

lemma RwHandleTcp_method_entry:
  "RwHandleTcp_method call ps = pm_assign (fst (tcp_entry call)) (snd (tcp_entry call)) ps"
  by (cases call) (simp_all add: method_defs)

lemma tcp_entry_ok: "entry_ok (tcp_entry call)"
  by (cases call) (simp_all add: entry_ok_def tcp_handle_names_def)

lemma TcpHandle_entries:
  "(\<forall>entry \<in> set (TcpHandle calls). entry_ok entry) \<and> pm_distinct (TcpHandle calls)"
proof (induction calls rule: rev_induct)
  case Nil
  show ?case
    by (simp add: TcpHandle_def build_rw_def RwHandleTcp_new_def method_defs entry_ok_def tcp_handle_names_def
        pm_assign_def pm_distinct_def)
next
  case (snoc call calls)
  have step: "TcpHandle (calls @ [call]) = RwHandleTcp_method call (TcpHandle calls)"
    by (simp add: TcpHandle_def build_rw_def)
  obtain name v where entry: "tcp_entry call = (name, v)" by (cases "tcp_entry call")
  have "entry_ok (name, v)" using tcp_entry_ok [of call] unfolding entry .
  then show ?case
    using snoc update_entries [of "TcpHandle calls" entry_ok name v] pm_assign_distinct
    unfolding step RwHandleTcp_method_entry entry by (simp add: pm_assign_def)
qed

text \<open>
  C23: Every chain of calls of the builder of a TCP handle gives parameters with distinct names, all of
  them names of handle parameters, and the request made of them decodes to exactly these parameters:
  no chain of calls can produce a request that the device reads differently.
\<close>

theorem tcp_handle_request_decodes:
  "pm_distinct (TcpHandle calls) \<and> fst ` set (TcpHandle calls) \<subseteq> set tcp_handle_names \<and>
   decode_request (makeRequestFromParameters COMMAND_REQUEST_TCP_HANDLE (TcpHandle calls)) =
     (''/cmd/request_handle_tcp'', TcpHandle calls)"
proof -
  have entries: "\<forall>entry \<in> set (TcpHandle calls). entry_ok entry" "pm_distinct (TcpHandle calls)"
    using TcpHandle_entries by blast+
  have "\<forall>(name, v) \<in> set (TcpHandle calls). CHR ''='' \<notin> set name \<and> CHR ''&'' \<notin> set name \<and> CHR ''&'' \<notin> set v"
  proof safe
    fix name v assume "(name, v) \<in> set (TcpHandle calls)"
    with entries(1) have ok: "name \<in> set tcp_handle_names" "CHR ''&'' \<notin> set v"
      by (auto simp: entry_ok_def)
    have "\<forall>n \<in> set tcp_handle_names. CHR ''='' \<notin> set n \<and> CHR ''&'' \<notin> set n"
      by (simp add: tcp_handle_names_def)
    with ok show "CHR ''='' \<in> set name \<Longrightarrow> False" "CHR ''&'' \<in> set name \<Longrightarrow> False" "CHR ''&'' \<in> set v \<Longrightarrow> False"
      by blast+
  qed
  then have "decode_request (makeRequestFromParameters COMMAND_REQUEST_TCP_HANDLE (TcpHandle calls)) =
      (''/cmd/'' @ COMMAND_REQUEST_TCP_HANDLE, TcpHandle calls)"
    by (rule decoded_request [rotated 2]) simp_all
  then show ?thesis using entries by (auto simp: entry_ok_def)
qed

section \<open>The two ways to build a link\<close>

text \<open>
  C30: The blocking and the asynchronous construction of a link agree, over TCP and over UDP. On the same chain
  of builder calls either both refuse, the blocking one by an exception and the asynchronous one by ending
  the program, or the asynchronous one submits to its client the command and the parameters that the
  blocking one sends, and the completion it submits with them, with the watchdog, the address and the
  port it has captured, makes of any answer what the blocking one makes of it.
\<close>

theorem builds_agree:
  "(case constructDataLink_async from_string (DataLinkBuilder_tcp (TcpHandle calls)) timeout callable device of
      Program_Terminated e \<Rightarrow>
        constructDataLink ops from_string send configuration (DataLinkBuilder_tcp (TcpHandle calls)) = Inl e
    | Requested device1 onComplete failed \<Rightarrow>
        constructDataLink ops from_string send configuration (DataLinkBuilder_tcp (TcpHandle calls)) =
          bind_result (send COMMAND_REQUEST_TCP_HANDLE (TcpHandle calls)) (completion_call ops configuration onComplete) \<and>
        (device1, failed = None) =
          asyncSendHttpCommand COMMAND_REQUEST_TCP_HANDLE (TcpHandle calls) callable timeout device) \<and>
   (case constructDataLink_async from_string (DataLinkBuilder_udp (UdpHandle udp_calls)) timeout callable device of
      Program_Terminated e \<Rightarrow>
        constructDataLink ops from_string send configuration (DataLinkBuilder_udp (UdpHandle udp_calls)) = Inl e
    | Requested device1 onComplete failed \<Rightarrow>
        constructDataLink ops from_string send configuration (DataLinkBuilder_udp (UdpHandle udp_calls)) =
          bind_result (send COMMAND_REQUEST_UDP_HANDLE (UdpHandle udp_calls)) (completion_call ops configuration onComplete) \<and>
        (device1, failed = None) =
          asyncSendHttpCommand COMMAND_REQUEST_UDP_HANDLE (UdpHandle udp_calls) callable timeout device)"
proof (rule conjI, goal_cases)
  case 1
  then show ?case
    by (cases "watchdog_parameters calls")
      (simp_all add: DataLinkBuilder_tcp_async constructDataLink_tcp_completion split: prod.split)
next
  case 2
  show ?case
  proof (cases "extractUdpDataLinkParameters from_string (DataLinkBuilder_udp (UdpHandle udp_calls))")
    case (Inl e)
    then show ?thesis
      by (simp add: constructDataLink_udp_completion constructDataLink_async_def castAnyOrThrow_def
          DataLinkBuilder_udp_requirements)
  next
    case (Inr captured)
    then obtain watchdog address port where
      "extractUdpDataLinkParameters from_string (DataLinkBuilder_udp (UdpHandle udp_calls)) =
         Inr (UdpHandle udp_calls, watchdog, address, port)"
      using extractUdp_builder by (metis prod.collapse)
    then show ?thesis
      by (simp add: constructDataLink_udp_completion constructDataLink_async_def castAnyOrThrow_def
          DataLinkBuilder_udp_requirements RequestUdpHandle_asyncExecute_def split: prod.split)
  qed
qed

section \<open>From the bytes of an answer to a link\<close>

lemma sendHttpCommand_response:
  assumes "nw_resolve net (getDeviceQuery configuration) = Inr endpoints"
    and "find (\<lambda>ep. nw_connect net ep = No_Error) endpoints = Some endpoint"
    and "response_pieces (nw_socket net endpoint
      (''GET '' @ makeRequestFromParameters command parameters @ '' HTTP/1.0'' @ [CR, LF, CR, LF])) 200 body"
    and "pt_read_json ops (cleaned_body body) = Inr tree" and "verifyErrorCode ops tree"
  shows "sendHttpCommand ops net configuration command parameters = Inr (DeviceAnswer_with SUCCESS tree)"
  unfolding sendHttpCommand_def HttpGet_def assms(1) connect_first_find assms(2) bind_result_Inr option.case
    response_answer [where socket = "nw_socket net endpoint", OF assms(3)]
  by (simp add: answer_of_response_def assms(4,5))

text \<open>
  C25: From the bytes of an answer to a link: when the first endpoint of the device that accepts a
  connection responds with code 200 to the request for a TCP handle, in whatever pieces, and the body
  holds no error, a port and a handle, the blocking build gives a link to the address of the device
  with this port, this handle and the watchdog chosen by the calls of the builder.
\<close>

theorem tcp_link_from_response:
  assumes "watchdog_parameters calls = Inr watchdog"
    and "nw_resolve net (getDeviceQuery configuration) = Inr endpoints"
    and "find (\<lambda>ep. nw_connect net ep = No_Error) endpoints = Some endpoint"
    and "response_pieces (nw_socket net endpoint
      (''GET '' @ makeRequestFromParameters COMMAND_REQUEST_TCP_HANDLE (TcpHandle calls) @ '' HTTP/1.0'' @ [CR, LF, CR, LF]))
      200 body"
    and "pt_read_json ops (cleaned_body body) = Inr tree" and "verifyErrorCode ops tree"
    and "pt_get_int ops tree ''port'' = Inr port" and "pt_get_string ops tree ''handle'' = Inr handle"
  shows "constructDataLink ops from_string (sendHttpCommand ops net configuration) configuration
      (DataLinkBuilder_tcp (TcpHandle calls)) =
    Inr (SUCCESS, Some (Built_TCPLink
      \<lparr>dh_value = handle, dh_watchdogEnabled = fst watchdog, dh_watchdogTimeout = snd watchdog,
       dh_port = word_of_int port, dh_ipv4Address = cf_deviceAddress configuration\<rparr>))"
proof -
  have "RequestTcpHandle_execute ops (sendHttpCommand ops net configuration) (TcpHandle calls) = Inr (SUCCESS, port, handle)"
    unfolding RequestTcpHandle_execute_def sendHttpCommand_response [OF assms(2-6)] bind_result_Inr extractTcpHandleInfo_def
    by (simp add: DeviceAnswer_with_def DeviceAnswer_bool_def assms(7,8))
  then show ?thesis
    unfolding constructDataLink_tcp assms(1) by (simp add: makeTcpDeviceHandle_def DeviceHandle_new_def)
qed

text \<open>Of the two endpoints the first refuses; the second answers as in the example of the requests.\<close>

definition example_network :: "nat network" where
  "example_network =
     \<lparr>nw_resolve = \<lambda>_. Inr [1, 2], nw_connect = \<lambda>ep. if ep = 2 then No_Error else Network_Error,
      nw_socket = \<lambda>_ _. example_exchange\<rparr>"

theorem tcp_link_from_response_witness:
  "constructDataLink example_handle_ops Inr
      (sendHttpCommand example_handle_ops example_network \<lparr>cf_name = [], cf_deviceAddress = ''10.0.0.1'', cf_httpServicePort = 80\<rparr>)
      \<lparr>cf_name = [], cf_deviceAddress = ''10.0.0.1'', cf_httpServicePort = 80\<rparr>
      (DataLinkBuilder_tcp (TcpHandle [RwHandleTcp_withWatchdog, RwHandleTcp_withWatchdogTimeout 5000])) =
    Inr (SUCCESS, Some (Built_TCPLink
      \<lparr>dh_value = ''h7'', dh_watchdogEnabled = True, dh_watchdogTimeout = 5000, dh_port = 4711,
       dh_ipv4Address = ''10.0.0.1''\<rparr>))"
proof -
  note example_handle_tree
  moreover have "watchdog_parameters [RwHandleTcp_withWatchdog, RwHandleTcp_withWatchdogTimeout 5000] = Inr (True, 5000)"
    by (simp add: watchdog_parameters_def chosen_watchdog_def)
  ultimately show ?thesis
    by (subst tcp_link_from_response [where watchdog = "(True, 5000)" and endpoints = "[1, 2]" and endpoint = 2
          and body = "[CHR ''{'', LF, CHR ''}'']" and tree = "''{}''" and port = 4711 and handle = "''h7''"])
      (simp_all add: example_network_def example_exchange_response, simp_all add: example_handle_ops_def example_ptree_ops_def)
qed

section \<open>The two links\<close>

text \<open>
  C4: The two links agree on streams that the TCP link tolerates. A sequence of scans, each from its first
  packet on but not necessarily to its last, with increasing packet numbers, is received by a TCP link
  whose extraction buffer is empty, as a stream in chunks of at most 4096 bytes of which none ends within
  the first 79 bytes of a packet, and by a UDP link that holds no beginning of a packet, in datagrams of
  whole packets in the order in which they were sent. When the two links have published the same scans
  and have the same status and the same callbacks before, they have after it, whatever incomplete scans
  their factories held.
\<close>

theorem links_agree:
  assumes "tcp_reachable clock lt" and "tl_extractionByteBuffer lt = []" and "\<not> Tcp_isComplete (tl_scanFactory lt)"
    and "Udp_ready lu" and "tl_link lt = ul_link lu"
    and "\<forall>packets \<in> set scans. begun_scan packets \<and>
      sorted_wrt (\<lambda>p q. h_packetNumber (sent_header p) < h_packetNumber (sent_header q)) packets"
    and "\<forall>packets \<in> set scans. \<forall>p \<in> set packets. sent_ok p \<and> length (sent_bytes p) < 2 ^ 31"
    and "concat chunks = stream_bytes (concat scans)" and "\<forall>chunk \<in> set chunks. length chunk \<le> 4096"
    and "\<forall>k. safe_cut (concat scans) (length (concat (take k chunks)))"
    and "\<forall>packets \<in> set datagrams. datagram_ok packets" and "concat datagrams = concat scans"
  shows "\<exists>lt' lu'. Tcp_receive_all clock chunks lt = Some lt' \<and>
    Udp_receive_all clock (map stream_bytes datagrams) lu = Some lu' \<and> tl_link lt' = ul_link lu'"
proof -
  have "\<forall>packets \<in> set scans. begun_scan packets" using assms(6) by blast
  from tcp_scans [OF assms(1-3) this assms(7-10)] obtain lt' where
    tcp: "Tcp_receive_all clock chunks lt = Some lt'" "tl_link lt' = fold (tcp_store.publish_part clock) scans (tl_link lt)"
    by blast
  have "\<forall>packets \<in> set scans. scan_part packets" "separate (udp_store.held (ul_scanFactory lu)) scans"
    using assms(6) begun_scans_separate by (simp_all add: begun_scan_part)
  from udp_parts [OF assms(4) this assms(11,12), of clock] obtain lu' where
    udp: "Udp_receive_all clock (map stream_bytes datagrams) lu = Some lu'"
      "ul_link lu' = fold (udp_store.publish_part clock) scans (ul_link lu)" by blast
  have "udp_store.publish_part clock packets = tcp_store.publish_part clock packets" if "packets \<in> set scans" for packets
    using assms(6) that by_packet_number_sent [of packets packets]
    by (auto simp: udp_store.publish_part_def tcp_store.publish_part_def)
  then have "fold (udp_store.publish_part clock) scans (ul_link lu) = fold (tcp_store.publish_part clock) scans (tl_link lt)"
    by (intro fold_cong) (simp_all add: assms(5))
  with tcp udp show ?thesis by auto
qed

theorem links_agree_witness:
  "\<exists>lt lu. Tcp_receive_all (\<lambda>_. 77) [sent_bytes example_broken_off @ sent_bytes example_packet] (TCPLink_new True) = Some lt \<and>
     Udp_receive_all (\<lambda>_. 77) [sent_bytes example_broken_off, sent_bytes example_packet]
       (UDPLink_new True True False False False) = Some lu \<and> tl_link lt = ul_link lu"
proof -
  have new: "tl_extractionByteBuffer (TCPLink_new True) = []" "\<not> Tcp_isComplete (tl_scanFactory (TCPLink_new True))"
    "tl_link (TCPLink_new True) = ul_link (UDPLink_new True True False False False)"
    by (simp_all add: TCPLink_new_def Tcp_handler_defs Tcp_defs UDPLink_new_def Udp_setConnected_def DataLink_new_def
        DataLink_initial_def Let_def)
  have "\<exists>lt' lu'. Tcp_receive_all (\<lambda>_. 77) [sent_bytes example_broken_off @ sent_bytes example_packet] (TCPLink_new True) = Some lt' \<and>
     Udp_receive_all (\<lambda>_. 77) (map stream_bytes [[example_broken_off], [example_packet]])
       (UDPLink_new True True False False False) = Some lu' \<and> tl_link lt' = ul_link lu'"
    by (rule links_agree [where clock = "\<lambda>_. 77", OF constructed new(1,2) example_udp_ready new(3) _ _ _ _ example_cuts])
      (simp_all add: example_scans datagram_ok_def del: example_packet_ok(3))
  then show ?thesis by simp
qed

end
